(* ===== verification/Prelude.thy ===== *)
theory Prelude
  imports Main "HOL-Library.Word" "HOL-Library.Multiset" "HOL-Library.List_Lexorder"
    "HOL-Library.Char_ord"
begin

text \<open>
  The shared vocabulary of the development: the widths of Go's machine integers, byte strings,
  addresses and hashes, the value types that stand for a panic or an error of the Go code,
  the enumeration order of a Go map, and the lemmas on lists and maps the components use.

  Conventions used by every other theory.
  \<^item> A Go \<open>int64\<close> (or \<open>int\<close> on the 64-bit targets the program is built for) is an \<^typ>\<open>int\<close>,
    and every arithmetic operation of the source on such a value is wrapped by \<open>i64\<close>.
  \<^item> A Go \<open>uint64\<close> is a \<^typ>\<open>64 word\<close>; \<open>*big.Int\<close> is an \<^typ>\<open>int\<close>.
  \<^item> A panic is \<open>Inl p\<close> with \<open>p\<close> a \<open>panic\<close>; a normal return is \<open>Inr v\<close>.
  \<^item> A Go map is a partial function. A \<open>range\<close> over a map visits the keys in an order the
    runtime chooses, so a loop over a map takes that order as an argument, a list of keys, and
    the theorems assume no more of it than \<open>enumerates\<close>.
\<close>

named_theorems go_arith \<open>facts about Go's fixed-width arithmetic\<close>
named_theorems panic_simps \<open>unfolding rules for computations that may panic\<close>

section \<open>Types shared by the components\<close>

type_synonym byte = "8 word"
type_synonym bytes = "8 word list"
type_synonym address = "160 word"
type_synonym hash = "256 word"
type_synonym uint64 = "64 word"

section \<open>Panics\<close>

datatype panic =
    NilDeref
  | IndexOutOfRange
  | DivisionByZero
  | PanicMsg string

definition panic_bind :: "panic + 'a \<Rightarrow> ('a \<Rightarrow> panic + 'b) \<Rightarrow> panic + 'b" where
  "panic_bind m f = (case m of Inl p \<Rightarrow> Inl p | Inr x \<Rightarrow> f x)"

lemma panic_bind_simps [simp, panic_simps]:
  "panic_bind (Inl p) f = Inl p"
  "panic_bind (Inr x) f = f x"
  by (simp_all add: panic_bind_def)

lemma panic_bind_Inr_iff:
  "panic_bind m f = Inr y \<longleftrightarrow> (\<exists>x. m = Inr x \<and> f x = Inr y)"
  by (cases m) auto

lemma panic_bind_Inl_iff:
  "panic_bind m f = Inl p \<longleftrightarrow> m = Inl p \<or> (\<exists>x. m = Inr x \<and> f x = Inl p)"
  by (cases m) auto

lemma panic_bind_InrE [elim!]:
  assumes "panic_bind m f = Inr y"
  obtains x where "m = Inr x" and "f x = Inr y"
  using assms by (auto simp: panic_bind_Inr_iff)

definition deref :: "'a option \<Rightarrow> panic + 'a" where
  "deref q = (case q of None \<Rightarrow> Inl NilDeref | Some x \<Rightarrow> Inr x)"

lemma deref_simps [simp, panic_simps]:
  "deref None = Inl NilDeref"
  "deref (Some x) = Inr x"
  by (simp_all add: deref_def)

lemma deref_Inr_iff [simp]: "deref q = Inr x \<longleftrightarrow> q = Some x"
  by (cases q) auto

definition index :: "'a list \<Rightarrow> int \<Rightarrow> panic + 'a" where
  "index xs i = (if 0 \<le> i \<and> i < int (length xs) then Inr (xs ! nat i) else Inl IndexOutOfRange)"

lemma index_Inr_iff:
  "index xs i = Inr x \<longleftrightarrow> 0 \<le> i \<and> i < int (length xs) \<and> x = xs ! nat i"
  by (auto simp: index_def)

section \<open>Two's-complement wrap-around of int64\<close>

definition i64 :: "int \<Rightarrow> int" where
  "i64 x = (x + 2 ^ 63) mod 2 ^ 64 - 2 ^ 63"

definition is_i64 :: "int \<Rightarrow> bool" where
  "is_i64 x \<longleftrightarrow> - (2 ^ 63) \<le> x \<and> x < 2 ^ 63"

lemma i64_range [go_arith, simp]: "is_i64 (i64 x)"
  by (simp add: is_i64_def i64_def)

lemma i64_id [go_arith]: "is_i64 x \<Longrightarrow> i64 x = x"
  by (simp add: is_i64_def i64_def)

lemma i64_idem [simp]: "i64 (i64 x) = i64 x"
  by (simp add: i64_id)

lemma i64_sint: "i64 x = sint (word_of_int x :: 64 word)"
  by (simp add: i64_def sint_word_ariths signed_take_bit_eq_take_bit_shift take_bit_eq_mod
      signed_of_int)

lemma i64_cong_mod: "i64 x = i64 y \<longleftrightarrow> x mod 2 ^ 64 = y mod 2 ^ 64"
proof -
  have "(x + 2 ^ 63) mod 2 ^ 64 = (y + 2 ^ 63) mod 2 ^ 64 \<longleftrightarrow> x mod 2 ^ 64 = y mod (2 ^ 64 :: int)"
    by (simp add: mod_eq_dvd_iff)
  then show ?thesis by (simp add: i64_def)
qed

lemma i64_mod [simp]: "i64 x mod 2 ^ 64 = x mod 2 ^ 64"
  by (metis i64_cong_mod i64_idem)

lemma i64_minus [simp]: "i64 (- i64 x) = i64 (- x)"
  by (metis i64_cong_mod i64_mod mod_minus_eq)

lemma i64_add_left [simp]: "i64 (i64 x + y) = i64 (x + y)"
  by (metis i64_cong_mod i64_mod mod_add_left_eq)

lemma i64_add_right [simp]: "i64 (x + i64 y) = i64 (x + y)"
  by (metis add.commute i64_add_left)

section \<open>Go maps: enumeration by a range loop\<close>

definition enumerates :: "'k list \<Rightarrow> ('k \<rightharpoonup> 'v) \<Rightarrow> bool" where
  "enumerates ks m \<longleftrightarrow> distinct ks \<and> set ks = dom m"

lemma enumerates_mset_eq:
  "enumerates ks m \<Longrightarrow> enumerates ks' m \<Longrightarrow> mset ks = mset ks'"
  by (metis enumerates_def set_eq_iff_mset_eq_distinct)

lemma enumerates_length: "enumerates ks m \<Longrightarrow> length ks = card (dom m)"
  by (metis distinct_card enumerates_def)

text \<open>An iteration order for every finite map, and one that exists: the sorted keys.\<close>

definition range_order :: "(('k \<rightharpoonup> 'v) \<Rightarrow> 'k list) \<Rightarrow> bool" where
  "range_order ord \<longleftrightarrow> (\<forall>m. finite (dom m) \<longrightarrow> enumerates (ord m) m)"

lemma range_orderD: "range_order ord \<Longrightarrow> finite (dom m) \<Longrightarrow> enumerates (ord m) m"
  by (simp add: range_order_def)

definition sortedKeys :: "('k :: linorder \<rightharpoonup> 'v) \<Rightarrow> 'k list" where
  "sortedKeys m = sorted_list_of_set (dom m)"

lemma range_order_sortedKeys: "range_order sortedKeys"
  by (simp add: range_order_def sortedKeys_def enumerates_def)

text \<open>A loop that stores an entry for each key it visits, unless \<open>f\<close> skips the key.\<close>

fun putAll :: "('k \<Rightarrow> ('a \<times> 'b) option) \<Rightarrow> 'k list \<Rightarrow> ('a \<rightharpoonup> 'b) \<Rightarrow> ('a \<rightharpoonup> 'b)" where
  "putAll f [] m = m"
| "putAll f (k # ks) m = putAll f ks (case f k of None \<Rightarrow> m | Some (a, b) \<Rightarrow> m(a \<mapsto> b))"

lemma putAll_Some_cases:
  assumes "putAll f ks m a = Some b"
  shows "(\<exists>k \<in> set ks. f k = Some (a, b)) \<or> m a = Some b \<and> (\<forall>k \<in> set ks. \<forall>c. f k \<noteq> Some (a, c))"
  using assms by (induction ks arbitrary: m) (fastforce split: option.splits if_splits)+

lemma putAll_None_iff:
  "putAll f ks m a = None \<longleftrightarrow> m a = None \<and> (\<forall>k \<in> set ks. \<forall>c. f k \<noteq> Some (a, c))"
  by (induction ks arbitrary: m) (auto split: option.splits)

lemma putAll_key_value:
  assumes "\<And>k a b. f k = Some (a, b) \<Longrightarrow> g k = Some b \<and> a = k" and "\<And>k. f k = None \<Longrightarrow> g k = None"
  shows "putAll f ks m k = (if k \<in> set ks \<and> g k \<noteq> None then g k else m k)"
proof (induction ks arbitrary: m)
  case (Cons x ks)
  show ?case
  proof (cases "f x")
    case None
    then show ?thesis using assms(2) [OF None] by (auto simp: Cons.IH)
  next
    case (Some p)
    obtain a b where p: "p = (a, b)" by (cases p)
    from assms(1) Some p have "g x = Some b" "a = x" by auto
    then show ?thesis by (auto simp: Cons.IH Some p)
  qed
qed simp

section \<open>Lists\<close>

lemma distinct_map_snoc:
  "distinct (map f xs) \<Longrightarrow> f x \<notin> f ` set xs \<Longrightarrow> distinct (map f (xs @ [x]))"
  by simp

lemma map_list_update_eq:
  "f x = f (xs ! i) \<Longrightarrow> map f (xs[i := x]) = map f xs"
  by (metis list_update_id map_update)

lemma sum_list_update_int:
  "i < length xs \<Longrightarrow> sum_list (xs[i := (v :: int)]) = sum_list xs - xs ! i + v"
  by (induction xs arbitrary: i) (auto split: nat.splits)

end
