(* ===== verification/GoStd.thy ===== *)
theory GoStd
  imports Prelude
begin

text \<open>
  The parts of Go's standard library the program computes with: \<open>math/big\<close> (\<open>Div\<close>, \<open>Int64\<close>),
  \<open>encoding/hex\<close> with \<open>strings.ToUpper\<close> (how a Tendermint address becomes a map key),
  \<open>strings.Split\<close>, \<open>strings.Join\<close>, \<open>strings.Index\<close> and \<open>strconv.ParseInt\<close> (how the hard fork
  schedule and the query paths are read).
\<close>

section \<open>math/big\<close>

text \<open>\<open>Int.Div\<close> is Euclidean division and panics on a zero divisor; \<open>Int64\<close> keeps the low
  64 bits.\<close>

definition big_Div :: "int \<Rightarrow> int \<Rightarrow> panic + int" where
  "big_Div x y =
     (if y = 0 then Inl DivisionByZero
      else Inr (if 0 < y then x div y else - (x div (- y))))"

definition big_Int64 :: "int \<Rightarrow> int" where
  "big_Int64 x = i64 x"

lemma big_Div_pos [simp]: "0 < y \<Longrightarrow> big_Div x y = Inr (x div y)"
  by (simp add: big_Div_def)

lemma big_Div_zero [simp]: "big_Div x 0 = Inl DivisionByZero"
  by (simp add: big_Div_def)

lemma big_Div_euclidean:
  assumes "big_Div x y = Inr q"
  shows "0 \<le> x - y * q" and "x - y * q < \<bar>y\<bar>"
proof -
  have y: "y \<noteq> 0" and q: "q = (if 0 < y then x div y else - (x div (- y)))"
    using assms by (auto simp: big_Div_def split: if_splits)
  have "x - y * q = x mod \<bar>y\<bar>"
  proof (cases "0 < y")
    case True
    then show ?thesis using q by (simp add: minus_mult_div_eq_mod)
  next
    case False
    then have "y * q = (- y) * (x div (- y))" using q by simp
    with False y show ?thesis by (simp only: minus_mult_div_eq_mod abs_if if_False) simp
  qed
  then show "0 \<le> x - y * q" and "x - y * q < \<bar>y\<bar>"
    using y by simp_all
qed

section \<open>encoding/hex and strings.ToUpper\<close>

definition hextable :: string where
  "hextable = ''0123456789abcdef''"

definition hex_byte :: "byte \<Rightarrow> string" where
  "hex_byte b = [hextable ! (unat b div 16), hextable ! (unat b mod 16)]"

definition EncodeToString :: "bytes \<Rightarrow> string" where
  "EncodeToString bs = concat (map hex_byte bs)"

definition upper_char :: "char \<Rightarrow> char" where
  "upper_char c =
     (if 97 \<le> (of_char c :: nat) \<and> (of_char c :: nat) \<le> 122 then char_of ((of_char c :: nat) - 32) else c)"

definition ToUpper :: "string \<Rightarrow> string" where
  "ToUpper s = map upper_char s"

text \<open>The key under which the code files a Tendermint address:
  \<open>strings.ToUpper(hex.EncodeToString(addr))\<close>.\<close>

definition hexKey :: "bytes \<Rightarrow> string" where
  "hexKey bs = ToUpper (EncodeToString bs)"

definition upper_hextable :: string where
  "upper_hextable = ''0123456789ABCDEF''"

lemma upper_hextable_map: "map upper_char hextable = upper_hextable"
  by code_simp

lemma length_hextable [simp]: "length hextable = 16"
  by (simp add: hextable_def)

lemma upper_hextable_nth: "i < 16 \<Longrightarrow> upper_char (hextable ! i) = upper_hextable ! i"
  by (simp flip: upper_hextable_map)

lemma upper_hextable_distinct: "distinct upper_hextable"
  by (simp add: upper_hextable_def)

lemma length_upper_hextable [simp]: "length upper_hextable = 16"
  by (simp add: upper_hextable_def)

lemma hexKey_Nil [simp]: "hexKey [] = []"
  by (simp add: hexKey_def EncodeToString_def ToUpper_def)

lemma unat_byte_lt: "unat (b :: byte) < 256"
  using unsigned_less [of b] by simp

lemma hexKey_Cons [simp]:
  "hexKey (b # bs) =
     upper_hextable ! (unat b div 16) # upper_hextable ! (unat b mod 16) # hexKey bs"
  using unat_byte_lt [of b]
  by (simp add: hexKey_def EncodeToString_def ToUpper_def hex_byte_def upper_hextable_nth
      less_mult_imp_div_less)

lemma upper_hextable_inj:
  "i < 16 \<Longrightarrow> j < 16 \<Longrightarrow> upper_hextable ! i = upper_hextable ! j \<longleftrightarrow> i = j"
  using upper_hextable_distinct by (simp add: nth_eq_iff_index_eq)

lemma byte_of_nibbles:
  assumes "unat (a :: byte) div 16 = unat (b :: byte) div 16"
    and "unat a mod 16 = unat b mod 16"
  shows "a = b"
  using assms by (metis div_mult_mod_eq unsigned_word_eqI)

lemma hexKey_inject: "hexKey as = hexKey bs \<longleftrightarrow> as = bs"
proof (induction as arbitrary: bs)
  case Nil
  then show ?case by (cases bs) auto
next
  case (Cons a as)
  show ?case
  proof (cases bs)
    case Nil
    then show ?thesis by simp
  next
    case (Cons b bs')
    have "unat a div 16 < 16" "unat b div 16 < 16"
      using unat_byte_lt [of a] unat_byte_lt [of b] by (simp_all add: less_mult_imp_div_less)
    then show ?thesis
      using Cons Cons.IH [of bs'] byte_of_nibbles [of a b] by (auto simp: upper_hextable_inj)
  qed
qed

lemma length_hexKey: "length (hexKey bs) = 2 * length bs"
  by (induction bs) simp_all

section \<open>strings.Split, strings.Join and strings.Index\<close>

text \<open>\<open>Split(s, ",")\<close> for a one-character separator: always at least one piece.\<close>

fun split_at :: "char \<Rightarrow> string \<Rightarrow> string \<Rightarrow> string list" where
  "split_at sep acc [] = [rev acc]"
| "split_at sep acc (c # cs) =
     (if c = sep then rev acc # split_at sep [] cs else split_at sep (c # acc) cs)"

definition Split :: "string \<Rightarrow> char \<Rightarrow> string list" where
  "Split s sep = split_at sep [] s"

fun Join :: "string list \<Rightarrow> char \<Rightarrow> string" where
  "Join [] sep = []"
| "Join [x] sep = x"
| "Join (x # y # xs) sep = x @ sep # Join (y # xs) sep"

lemma split_at_no_sep: "sep \<notin> set s \<Longrightarrow> split_at sep acc s = [rev acc @ s]"
  by (induction s arbitrary: acc) auto

lemma split_at_piece:
  "sep \<notin> set x \<Longrightarrow> split_at sep acc (x @ sep # s) = (rev acc @ x) # split_at sep [] s"
  by (induction x arbitrary: acc) auto

lemma Split_nonempty: "Split s sep \<noteq> []"
proof -
  have "split_at sep acc s \<noteq> []" for acc
    by (induction s arbitrary: acc) auto
  then show ?thesis by (simp add: Split_def)
qed

lemma Split_Join:
  assumes "xs \<noteq> []" and "\<forall>x \<in> set xs. sep \<notin> set x"
  shows "Split (Join xs sep) sep = xs"
  using assms
proof (induction xs sep rule: Join.induct)
  case (3 x y xs sep)
  then show ?case by (simp add: Split_def split_at_piece)
qed (auto simp: Split_def split_at_no_sep)

text \<open>\<open>strings.Index(s, sub) >= 0\<close>: the substring occurs.\<close>

fun is_prefix :: "string \<Rightarrow> string \<Rightarrow> bool" where
  "is_prefix [] s = True"
| "is_prefix (p # ps) [] = False"
| "is_prefix (p # ps) (c # cs) = (p = c \<and> is_prefix ps cs)"

fun contains :: "string \<Rightarrow> string \<Rightarrow> bool" where
  "contains [] sub = (sub = [])"
| "contains (c # cs) sub = (is_prefix sub (c # cs) \<or> contains cs sub)"

lemma is_prefix_iff: "is_prefix p s \<longleftrightarrow> (\<exists>t. s = p @ t)"
  by (induction p s rule: is_prefix.induct) auto

lemma contains_iff: "contains s sub \<longleftrightarrow> (\<exists>u v. s = u @ sub @ v)"
proof (induction s)
  case Nil
  then show ?case by auto
next
  case (Cons c cs)
  then show ?case
    by (auto simp: is_prefix_iff Cons_eq_append_conv)
qed

section \<open>strconv.ParseInt(s, 10, 64), its error discarded\<close>

datatype uint_result = Num nat | SyntaxErr | RangeErr

definition digit_val :: "char \<Rightarrow> nat option" where
  "digit_val c =
     (if 48 \<le> (of_char c :: nat) \<and> (of_char c :: nat) \<le> 57 then Some ((of_char c :: nat) - 48) else None)"

fun parse_digits :: "nat \<Rightarrow> string \<Rightarrow> uint_result" where
  "parse_digits n [] = Num n"
| "parse_digits n (c # cs) =
     (case digit_val c of
        None \<Rightarrow> SyntaxErr
      | Some d \<Rightarrow> if n * 10 + d < 2 ^ 64 then parse_digits (n * 10 + d) cs else RangeErr)"

definition ParseUint :: "string \<Rightarrow> uint_result" where
  "ParseUint s = (if s = [] then SyntaxErr else parse_digits 0 s)"

definition strip_sign :: "string \<Rightarrow> bool \<times> string" where
  "strip_sign s =
     (case s of
        [] \<Rightarrow> (False, [])
      | c # cs \<Rightarrow> if c = CHR ''+'' then (False, cs)
                  else if c = CHR ''-'' then (True, cs) else (False, c # cs))"

definition ParseInt :: "string \<Rightarrow> int" where
  "ParseInt s =
     (let (neg, body) = strip_sign s in
      case ParseUint body of
        SyntaxErr \<Rightarrow> 0
      | r \<Rightarrow>
          (let un = (case r of Num n \<Rightarrow> int n | _ \<Rightarrow> 2 ^ 64 - 1) in
           if \<not> neg \<and> un \<ge> 2 ^ 63 then 2 ^ 63 - 1
           else if neg \<and> un > 2 ^ 63 then - (2 ^ 63)
           else if neg then i64 (- i64 un) else i64 un))"

text \<open>A reference printer for int64 values, to state what \<open>ParseInt\<close> reads back.\<close>

fun show_nat :: "nat \<Rightarrow> string" where
  "show_nat n = (if n < 10 then [char_of (48 + n)] else show_nat (n div 10) @ [char_of (48 + n mod 10)])"

declare show_nat.simps [simp del]

definition show_int :: "int \<Rightarrow> string" where
  "show_int x = (if x < 0 then CHR ''-'' # show_nat (nat (- x)) else show_nat (nat x))"

lemma digit_val_char [simp]: "d < 10 \<Longrightarrow> digit_val (char_of (48 + d :: nat)) = Some d"
  by (simp add: digit_val_def)

lemma parse_digits_append:
  "parse_digits n (xs @ ys) =
     (case parse_digits n xs of Num m \<Rightarrow> parse_digits m ys | r \<Rightarrow> r)"
  by (induction n xs rule: parse_digits.induct) (auto split: option.splits)

lemma parse_digits_show_nat: "n < 2 ^ 64 \<Longrightarrow> parse_digits 0 (show_nat n) = Num n"
proof (induction n rule: show_nat.induct)
  case (1 n)
  show ?case
  proof (cases "n < 10")
    case True
    then show ?thesis by (subst show_nat.simps) simp
  next
    case False
    then have "parse_digits 0 (show_nat (n div 10)) = Num (n div 10)"
      using "1.IH" "1.prems" by simp
    then have "parse_digits 0 (show_nat n) = parse_digits (n div 10) [char_of (48 + n mod 10)]"
      using False by (subst show_nat.simps) (simp add: parse_digits_append)
    also have "\<dots> = Num (n div 10 * 10 + n mod 10)"
      using "1.prems" by simp
    also have "\<dots> = Num n" by simp
    finally show ?thesis .
  qed
qed

lemma show_nat_nonempty [simp]: "show_nat n \<noteq> []"
  by (subst show_nat.simps) simp

lemma show_nat_digits: "c \<in> set (show_nat n) \<Longrightarrow> \<exists>d < 10. c = char_of (48 + d :: nat)"
proof (induction n rule: show_nat.induct)
  case (1 n)
  show ?case
  proof (cases "n < 10")
    case True
    with "1.prems" show ?thesis by (subst (asm) show_nat.simps) auto
  next
    case False
    then have "c \<in> set (show_nat (n div 10)) \<or> c = char_of (48 + n mod 10)"
      using "1.prems" by (subst (asm) show_nat.simps) auto
    then show ?thesis
      using "1.IH" False by (metis mod_less_divisor zero_less_numeral)
  qed
qed

lemma digit_char_not_special:
  assumes "d < (10 :: nat)"
  shows "char_of (48 + d) \<notin> {CHR ''+'', CHR ''-'', CHR '',''}"
proof -
  have "\<forall>c \<in> {CHR ''+'', CHR ''-'', CHR '',''}. (of_char c :: nat) < 48" by simp
  moreover have "\<not> (of_char (char_of (48 + d) :: char) :: nat) < 48" using assms by simp
  ultimately show ?thesis by blast
qed

lemma show_nat_not_special:
  "c \<in> {CHR ''+'', CHR ''-'', CHR '',''} \<Longrightarrow> c \<notin> set (show_nat n)"
  using show_nat_digits digit_char_not_special by metis

lemma strip_sign_show_nat [simp]: "strip_sign (show_nat n) = (False, show_nat n)"
proof (cases "show_nat n")
  case (Cons c cs)
  then have "c \<in> set (show_nat n)" by simp
  then have "c \<noteq> CHR ''+''" "c \<noteq> CHR ''-''" using show_nat_not_special by blast+
  with Cons show ?thesis by (simp add: strip_sign_def)
qed simp

lemma ParseUint_show_nat: "n < 2 ^ 64 \<Longrightarrow> ParseUint (show_nat n) = Num n"
  by (simp add: ParseUint_def parse_digits_show_nat)

lemma ParseInt_show_int:
  assumes "is_i64 x"
  shows "ParseInt (show_int x) = x"
proof (cases "x < 0")
  case True
  then have "ParseUint (show_nat (nat (- x))) = Num (nat (- x))"
    using assms by (intro ParseUint_show_nat) (simp add: is_i64_def nat_less_iff)
  moreover have "strip_sign (show_int x) = (True, show_nat (nat (- x)))"
    using True by (simp add: show_int_def strip_sign_def)
  moreover have "i64 (- i64 (- x)) = x"
    using assms by (simp add: i64_id)
  ultimately show ?thesis
    using True assms by (auto simp: ParseInt_def is_i64_def)
next
  case False
  then have "ParseUint (show_nat (nat x)) = Num (nat x)"
    using assms by (intro ParseUint_show_nat) (simp add: is_i64_def nat_less_iff)
  then show ?thesis
    using False assms by (auto simp: ParseInt_def show_int_def is_i64_def i64_def)
qed

lemma show_int_no_comma: "CHR '','' \<notin> set (show_int x)"
  using show_nat_not_special [of "CHR '',''"] by (simp add: show_int_def)

end
