(* ===== verification/External.thy ===== *)
theory External
  imports GoStd
begin

text \<open>
  The data of the third-party packages the program works on, and their operations as parameters.

  Data that the sources read or build field by field is a record with exactly those fields:
  the ABCI messages of Tendermint (\<open>abciTypes\<close>), the proof-of-stake and authorisation tables of
  package \<open>txfilter\<close> (part of the project's go-ethereum fork, not of this repository) and the
  transactions of \<open>ethTypes\<close>. What the sources do not look into is a component of arbitrary type
  \<open>'x\<close>, so that the operations may depend on it.

  Code of those packages is never defined here. It is a field of the records \<open>env\<close> (the
  txfilter tables, address and key conversions), \<open>txenv\<close> (transactions) and \<open>statedb\<close> (the
  account state), arguments of the definitions
  that call it. The documented contracts the properties use are \<open>statedb_laws\<close> here and
  \<open>postable_ok\<close> in theory \<open>StrategySync\<close>, named hypotheses of the theorems that need them.
\<close>

section \<open>ABCI messages\<close>

record pubKey =
  pk_Type :: string
  pk_Data :: bytes

record ValidatorUpdate =
  vu_PubKey :: pubKey
  Power :: int

record VoteInfo =
  vi_Address :: bytes
  vi_Power :: int
  SignedLastBlock :: bool

record Evidence =
  evidence_Address :: bytes

record Event =
  event_Type :: string
  Attributes :: "(string \<times> string) list"

record ResponseEndBlock =
  ValidatorUpdates :: "ValidatorUpdate list"
  BlsKeyStrings :: "string list"
  Events :: "Event list"
  AppVersion :: uint64

section \<open>The tables of package txfilter\<close>

record PosItem =
  Slots :: int
  pi_PubKey :: pubKey
  TmAddress :: string
  pi_BlsKeyString :: string
  Beneficiary :: address
  pi_Height :: int
  BeneficiaryBonus :: "int option"

record 'x PosTable =
  PosItemMap :: "address \<rightharpoonup> PosItem"
  UnbondPosItemMap :: "address \<rightharpoonup> PosItem"
  TmAddressToSignerMap :: "string \<rightharpoonup> address"
  SortedSigners :: "address list"
  SortedUnbondSigners :: "address list"
  Threshold :: int
  TotalSlots :: int
  ChangedFlagThisBlock :: bool
  pt_rest :: 'x

record AuthItem =
  PermitHeight :: int

record 'x AuthTable =
  AuthItemMap :: "address \<rightharpoonup> AuthItem"
  SignerToTmAddressMap :: "address \<rightharpoonup> string"
  ThisBlockChangedMap :: "string \<rightharpoonup> bool"
  at_rest :: 'x

text \<open>The package variables of txfilter that the program assigns or reads.\<close>

record 'x txfilterVars =
  tv_AppVersion :: uint64
  PPChainAdmin :: address
  Bigguy :: address
  CurrentPosTable :: "'x PosTable option"
  EthAuthTable :: "'x AuthTable option"
  EthAuthTableCopy :: "'x AuthTable option"

section \<open>Transactions\<close>

text \<open>A transaction is what its methods return. \<open>tx_from\<close> is the sender cache that
  \<open>SetFrom\<close> fills.\<close>

datatype Signer = HomesteadSigner | EIP155Signer int

record Transaction =
  tx_Hash :: hash
  tx_Size :: int
  tx_Protected :: bool
  tx_To :: "address option"
  tx_Data :: bytes
  tx_Value :: int
  tx_Gas :: uint64
  tx_Nonce :: uint64
  tx_Cost :: int
  tx_VRS :: "int \<times> int \<times> int"
  tx_from :: "(Signer \<times> address) option"

record TxInfo =
  ti_Tx :: "Transaction option"
  ti_From :: address
  ti_SubTx :: "Transaction option"
  ti_RelayFrom :: address

text \<open>Go's zero value of it: the transaction is a nil pointer.\<close>

definition zeroTxInfo :: TxInfo where
  "zeroTxInfo = \<lparr>ti_Tx = None, ti_From = 0, ti_SubTx = None, ti_RelayFrom = 0\<rparr>"

section \<open>Operations of the third-party packages\<close>

record 'x env =
  \<comment> \<open>go-ethereum \<open>common\<close>, Tendermint's key conversion (\<open>None\<close>: the key does not convert)\<close>
  HexToAddress :: "string \<Rightarrow> address"
  PubKeyAddress :: "pubKey \<Rightarrow> string option"
  \<comment> \<open>constants of txfilter\<close>
  EpochBlocks :: int
  ThresholdUnit :: int
  SendToLock :: address
  SendToUnlock :: address
  SendToAuth :: address
  \<comment> \<open>methods of the tables; an error is \<open>Some\<close> message\<close>
  SelectItemBySeedValue :: "'x PosTable \<Rightarrow> bytes \<Rightarrow> int \<Rightarrow> address \<times> PosItem"
  SelectItemByHeightValue :: "'x PosTable \<Rightarrow> int \<Rightarrow> address \<times> PosItem"
  TopKSigners :: "'x PosTable \<Rightarrow> int \<Rightarrow> address list"
  InsertPosItem :: "'x PosTable \<Rightarrow> address \<Rightarrow> PosItem \<Rightarrow> 'x PosTable \<times> string option"
  RemovePosItem :: "'x PosTable \<Rightarrow> address \<Rightarrow> int \<Rightarrow> bool \<Rightarrow> 'x PosTable \<times> string option"
  TryRemoveUnbondPosItems :: "'x PosTable \<Rightarrow> int \<Rightarrow> address list \<Rightarrow> 'x PosTable \<times> int"
  CopyPosTable :: "'x PosTable \<Rightarrow> 'x PosTable"
  ExportSortedSigners :: "'x PosTable \<Rightarrow> 'x PosTable"
  InitStruct :: "'x PosTable \<Rightarrow> 'x PosTable"
  SetThreshold :: "'x PosTable \<Rightarrow> int \<Rightarrow> 'x PosTable"
  NewPosItem :: "int \<Rightarrow> int \<Rightarrow> pubKey \<Rightarrow> string \<Rightarrow> string \<Rightarrow> address \<Rightarrow> PosItem"
  CreatePosTable :: "'x PosTable"
  CreateAuthTable :: "'x AuthTable"
  CopyAuthTable :: "'x AuthTable \<Rightarrow> 'x AuthTable"

text \<open>Classification and filtering of transactions, transaction codecs and signatures.\<close>

record 'x txenv =
  IsRelayTxFromClient :: "address \<Rightarrow> bool"
  IsRelayTxFromRelayer :: "address \<Rightarrow> bool"
  IsAuthTx :: "address \<Rightarrow> bool"
  IsMintTx :: "address \<Rightarrow> bool"
  IsBetBlocked :: "'x txfilterVars \<Rightarrow> address \<Rightarrow> address option \<Rightarrow> int \<Rightarrow> bytes \<Rightarrow> int \<Rightarrow> bool \<Rightarrow> string option"
  IsAuthBlocked :: "'x txfilterVars \<Rightarrow> address \<Rightarrow> bytes \<Rightarrow> int \<Rightarrow> bool \<Rightarrow> string option"
  IsMintBlocked :: "'x txfilterVars \<Rightarrow> address \<Rightarrow> string option"
  DecodeRLP :: "bytes \<Rightarrow> string + Transaction"
  DecodeTxFromHexBytes :: "bytes \<Rightarrow> Transaction option"
  CheckRelayerTx :: "Transaction \<Rightarrow> Transaction \<Rightarrow> string option"
  WithVRS :: "Transaction \<Rightarrow> int \<times> int \<times> int \<Rightarrow> Transaction option"
  Sender :: "Signer \<Rightarrow> Transaction \<Rightarrow> address option"
  DeriveRelayer :: "address \<Rightarrow> Transaction \<Rightarrow> address option"
  IntrinsicGas :: "bytes \<Rightarrow> bool \<Rightarrow> uint64 \<times> string option"

section \<open>The account state\<close>

text \<open>\<open>*state.StateDB\<close> is an arbitrary type \<open>'s\<close>; these are the methods the program calls
  on it.\<close>

record 's statedb =
  GetBalance :: "'s \<Rightarrow> address \<Rightarrow> int"
  SetBalance :: "'s \<Rightarrow> address \<Rightarrow> int \<Rightarrow> 's"
  AddBalance :: "'s \<Rightarrow> address \<Rightarrow> int \<Rightarrow> 's"
  SubBalance :: "'s \<Rightarrow> address \<Rightarrow> int \<Rightarrow> 's"
  GetNonce :: "'s \<Rightarrow> address \<Rightarrow> uint64"
  SetNonce :: "'s \<Rightarrow> address \<Rightarrow> uint64 \<Rightarrow> 's"

text \<open>The documented contract of the balance and nonce methods.\<close>

definition statedb_laws :: "'s statedb \<Rightarrow> bool" where
  "statedb_laws db \<longleftrightarrow>
     (\<forall>s a v b. GetBalance db (SetBalance db s a v) b = (if b = a then v else GetBalance db s b)) \<and>
     (\<forall>s a v b. GetBalance db (AddBalance db s a v) b = (if b = a then GetBalance db s a + v else GetBalance db s b)) \<and>
     (\<forall>s a v b. GetBalance db (SubBalance db s a v) b = (if b = a then GetBalance db s a - v else GetBalance db s b)) \<and>
     (\<forall>s a n b. GetBalance db (SetNonce db s a n) b = GetBalance db s b) \<and>
     (\<forall>s a n b. GetNonce db (SetNonce db s a n) b = (if b = a then n else GetNonce db s b)) \<and>
     (\<forall>s a v b. GetNonce db (SetBalance db s a v) b = GetNonce db s b) \<and>
     (\<forall>s a v b. GetNonce db (AddBalance db s a v) b = GetNonce db s b) \<and>
     (\<forall>s a v b. GetNonce db (SubBalance db s a v) b = GetNonce db s b)"

lemma statedb_lawsD:
  assumes "statedb_laws db"
  shows "GetBalance db (SetBalance db s a v) b = (if b = a then v else GetBalance db s b)"
    and "GetBalance db (AddBalance db s a v) b = (if b = a then GetBalance db s a + v else GetBalance db s b)"
    and "GetBalance db (SubBalance db s a v) b = (if b = a then GetBalance db s a - v else GetBalance db s b)"
    and "GetBalance db (SetNonce db s a n) b = GetBalance db s b"
    and "GetNonce db (SetNonce db s a n) b = (if b = a then n else GetNonce db s b)"
    and "GetNonce db (SetBalance db s a v) b = GetNonce db s b"
    and "GetNonce db (AddBalance db s a v) b = GetNonce db s b"
    and "GetNonce db (SubBalance db s a v) b = GetNonce db s b"
  using assms by (auto simp: statedb_laws_def)

text \<open>A state that is just a table of balances and nonces meets the contract.\<close>

definition map_statedb :: "(address \<Rightarrow> int \<times> uint64) statedb" where
  "map_statedb =
     \<lparr>GetBalance = (\<lambda>s a. fst (s a)),
      SetBalance = (\<lambda>s a v. s(a := (v, snd (s a)))),
      AddBalance = (\<lambda>s a v. s(a := (fst (s a) + v, snd (s a)))),
      SubBalance = (\<lambda>s a v. s(a := (fst (s a) - v, snd (s a)))),
      GetNonce = (\<lambda>s a. snd (s a)),
      SetNonce = (\<lambda>s a n. s(a := (fst (s a), n)))\<rparr>"

lemma map_statedb_laws: "statedb_laws map_statedb"
  by (simp add: statedb_laws_def map_statedb_def)

text \<open>Crediting a list of accounts, one after the other.\<close>

definition creditAll :: "'s statedb \<Rightarrow> (address \<times> int) list \<Rightarrow> 's \<Rightarrow> 's" where
  "creditAll db xs s = fold (\<lambda>(a, v) s. AddBalance db s a v) xs s"

lemma creditAll_simps [simp]:
  "creditAll db [] s = s"
  "creditAll db ((a, v) # xs) s = creditAll db xs (AddBalance db s a v)"
  by (simp_all add: creditAll_def)

lemma creditAll_balance:
  assumes "statedb_laws db"
  shows "GetBalance db (creditAll db xs s) b =
    GetBalance db s b + (\<Sum>(a, v) \<leftarrow> xs. if a = b then v else 0)"
  by (induction xs arbitrary: s) (auto simp: statedb_lawsD [OF assms])

lemma creditAll_nonce:
  assumes "statedb_laws db"
  shows "GetNonce db (creditAll db xs s) b = GetNonce db s b"
  by (induction xs arbitrary: s) (auto simp: statedb_lawsD [OF assms])

text \<open>Total balance over a finite set of accounts.\<close>

definition totalBalance :: "'s statedb \<Rightarrow> address set \<Rightarrow> 's \<Rightarrow> int" where
  "totalBalance db A s = (\<Sum>a \<in> A. GetBalance db s a)"

lemma totalBalance_point_update:
  assumes "finite A" and "a \<in> A"
    and "\<And>b. GetBalance db s' b = (if b = a then GetBalance db s a + v else GetBalance db s b)"
  shows "totalBalance db A s' = totalBalance db A s + v"
proof -
  have "totalBalance db A s' = (\<Sum>b \<in> A. GetBalance db s b + (if b = a then v else 0))"
    unfolding totalBalance_def by (rule sum.cong) (auto simp: assms(3))
  also have "\<dots> = totalBalance db A s + v"
    using assms(1,2) by (simp add: totalBalance_def sum.distrib)
  finally show ?thesis .
qed

lemma totalBalance_AddBalance:
  assumes "statedb_laws db" and "finite A" and "a \<in> A"
  shows "totalBalance db A (AddBalance db s a v) = totalBalance db A s + v"
  using assms by (intro totalBalance_point_update) (auto simp: statedb_lawsD)

lemma totalBalance_SetBalance:
  assumes "statedb_laws db" and "finite A" and "a \<in> A"
  shows "totalBalance db A (SetBalance db s a v) = totalBalance db A s + (v - GetBalance db s a)"
  using assms by (intro totalBalance_point_update) (auto simp: statedb_lawsD)

lemma totalBalance_SubBalance:
  assumes "statedb_laws db" and "finite A" and "a \<in> A"
  shows "totalBalance db A (SubBalance db s a v) = totalBalance db A s - v"
proof -
  have "totalBalance db A (SubBalance db s a v) = totalBalance db A s + (- v)"
    using assms by (intro totalBalance_point_update) (auto simp: statedb_lawsD)
  then show ?thesis by simp
qed

lemma totalBalance_SetNonce:
  assumes "statedb_laws db"
  shows "totalBalance db A (SetNonce db s a n) = totalBalance db A s"
  by (simp add: totalBalance_def statedb_lawsD [OF assms])

lemma creditAll_totalBalance:
  assumes "statedb_laws db" and "finite A" and "fst ` set xs \<subseteq> A"
  shows "totalBalance db A (creditAll db xs s) = totalBalance db A s + sum_list (map snd xs)"
  using assms(3)
  by (induction xs arbitrary: s) (auto simp: totalBalance_AddBalance [OF assms(1,2)])

end
