(* ===== verification/AccountMap.thy ===== *)
theory AccountMap
  imports External
begin

text \<open>
  \<open>src/types/accountmap.go\<close> and \<open>src/types/ethInitialAccount.go\<close>: the genesis map from Tendermint
  addresses to Ethereum accounts, and its JSON file. The JSON codec and the file system are
  parameters (\<open>jsonFile\<close>): an encoder, a decoder, and the reading, existence and writing of files over a
  store \<open>'f\<close>, for the user the program runs as. A file is written with a mode (\<open>os.FileMode\<close>), whose
  low nine bits are the permissions.
\<close>

record AccountMapItem =
  am_Signer :: address
  am_Beneficiary :: address
  am_BlsKeyString :: string

record AccountMap =
  MapList :: "string \<rightharpoonup> AccountMapItem"
  FilePath :: string

type_synonym FileMode = "32 word"

definition ModeAppend :: FileMode where
  "ModeAppend = push_bit 30 1"

text \<open>Readable and writable by the owner: 0600.\<close>

definition ModeOwner :: FileMode where
  "ModeOwner = push_bit 8 1 + push_bit 7 1"

record ('f, 'v) jsonFile =
  Marshal :: "'v \<Rightarrow> bytes option"
  Unmarshal :: "bytes \<Rightarrow> 'v option"
  ReadFile :: "'f \<Rightarrow> string \<Rightarrow> bytes option"
  FileExists :: "'f \<Rightarrow> string \<Rightarrow> bool"
  WriteFile :: "'f \<Rightarrow> string \<Rightarrow> bytes \<Rightarrow> FileMode \<Rightarrow> 'f option"

definition AccountMapItem_Copy :: "AccountMapItem \<Rightarrow> AccountMapItem" where
  "AccountMapItem_Copy x =
     \<lparr>am_Signer = am_Signer x, am_Beneficiary = am_Beneficiary x, am_BlsKeyString = am_BlsKeyString x\<rparr>"

text \<open>\<open>Copy\<close> visits the keys in the order \<open>ks\<close> and stores a copy of each item.\<close>

fun copyItems :: "string list \<Rightarrow> (string \<rightharpoonup> AccountMapItem) \<Rightarrow> (string \<rightharpoonup> AccountMapItem) \<Rightarrow> (string \<rightharpoonup> AccountMapItem)" where
  "copyItems [] src acc = acc"
| "copyItems (k # ks) src acc =
     copyItems ks src (case src k of None \<Rightarrow> acc | Some x \<Rightarrow> acc(k \<mapsto> AccountMapItem_Copy x))"

definition AccountMap_Copy :: "string list \<Rightarrow> AccountMap \<Rightarrow> AccountMap" where
  "AccountMap_Copy ks am =
     \<lparr>MapList = copyItems ks (MapList am) Map.empty, FilePath = FilePath am\<rparr>"

definition saveAccountMap :: "('f, AccountMap) jsonFile \<Rightarrow> 'f \<Rightarrow> AccountMap \<Rightarrow> panic + 'f" where
  "saveAccountMap J fs am =
     (if FilePath am = [] then Inl (PanicMsg ''Cannot save AccountMap: filePath not set'')
      else case Marshal J am of
        None \<Rightarrow> Inl (PanicMsg ''Marshal'')
      | Some blob \<Rightarrow>
          (case WriteFile J fs (FilePath am) blob ModeOwner of
             None \<Rightarrow> Inl (PanicMsg ''WriteFile'') | Some fs' \<Rightarrow> Inr fs'))"

definition GenAccountMapList ::
  "('f, AccountMap) jsonFile \<Rightarrow> 'f \<Rightarrow> AccountMap \<Rightarrow> string \<Rightarrow> panic + 'f \<times> AccountMap" where
  "GenAccountMapList J fs am path =
     (let am = am\<lparr>FilePath := path\<rparr> in
      panic_bind (saveAccountMap J fs am) (\<lambda>fs'. Inr (fs', am)))"

text \<open>The readers return \<open>None\<close> for an error. \<open>FromJSON\<close> and \<open>FromFile\<close> have the same shape for
  account maps and for the initial Ethereum accounts, so the value type is left open.\<close>

definition FromJSON :: "('f, 'v) jsonFile \<Rightarrow> bytes \<Rightarrow> 'v option" where
  "FromJSON J blob = (case Unmarshal J blob of None \<Rightarrow> None | Some v \<Rightarrow> Some v)"

definition AccountMapFromFile :: "('f, AccountMap) jsonFile \<Rightarrow> 'f \<Rightarrow> string \<Rightarrow> AccountMap option" where
  "AccountMapFromFile J fs path =
     (case ReadFile J fs path of
        None \<Rightarrow> None
      | Some blob \<Rightarrow> (case FromJSON J blob of None \<Rightarrow> None | Some am \<Rightarrow> Some am))"

record EthAccounts =
  ea_EthAccounts :: "string list"
  EthBalances :: "int option list"
  EthBeneficiarys :: "string list"

definition GetInitialEthAccountFromFile ::
  "('f, EthAccounts) jsonFile \<Rightarrow> 'f \<Rightarrow> string \<Rightarrow> EthAccounts option" where
  "GetInitialEthAccountFromFile J fs path =
     (case ReadFile J fs path of
        None \<Rightarrow> None
      | Some blob \<Rightarrow> (case FromJSON J blob of None \<Rightarrow> None | Some ea \<Rightarrow> Some ea))"

section \<open>Properties\<close>

lemma AccountMapItem_Copy_eq [simp]: "AccountMapItem_Copy x = x"
  by (simp add: AccountMapItem_Copy_def)

lemma copyItems_lookup:
  "copyItems ks src acc k = (if k \<in> set ks \<and> src k \<noteq> None then src k else acc k)"
  by (induction ks arbitrary: acc) (auto split: option.splits)

lemma AccountMap_Copy_eq:
  assumes "enumerates ks (MapList am)"
  shows "AccountMap_Copy ks am = am"
proof -
  have "copyItems ks (MapList am) Map.empty = MapList am"
    using assms by (auto simp: copyItems_lookup enumerates_def fun_eq_iff)
  then show ?thesis by (simp add: AccountMap_Copy_def)
qed

text \<open>The documented contract of the codec and of the file system: what was marshalled is read back. A
  file holds what was last written to it; a file that is created gets the permissions of the mode (the
  owner's bits, which an ordinary umask leaves alone), one that exists keeps its own. A privileged user
  reads every file (\<open>root\<close>), another user only one with the permission bit, 0400 for the owner.\<close>

definition jsonFile_laws :: "('f, 'v) jsonFile \<Rightarrow> bool \<Rightarrow> bool" where
  "jsonFile_laws J root \<longleftrightarrow>
     (\<forall>v blob. Marshal J v = Some blob \<longrightarrow> Unmarshal J blob = Some v) \<and>
     (\<forall>fs path. ReadFile J fs path \<noteq> None \<longrightarrow> FileExists J fs path) \<and>
     (\<forall>fs path blob perm fs'. WriteFile J fs path blob perm = Some fs' \<longrightarrow>
        ReadFile J fs' path =
          (if root \<or> (if FileExists J fs path then ReadFile J fs path \<noteq> None else bit perm 8)
           then Some blob else None))"

lemma mode_bits [simp]: "\<not> bit ModeAppend 8" "bit ModeOwner 8" "bit ModeOwner 7"
  by (simp_all add: ModeAppend_def ModeOwner_def bit_iff_odd_drop_bit drop_bit_eq_div push_bit_eq_mult)

text \<open>What \<open>GenAccountMapList\<close> saved, \<open>AccountMapFromFile\<close> reads back: the account map with the
  file path that was set, unless the file was there before and not readable. Saving with an empty path
  panics instead.\<close>

lemma AccountMap_save_load:
  assumes "jsonFile_laws J root" and "GenAccountMapList J fs am path = Inr (fs', am')"
    and "FileExists J fs path \<longrightarrow> ReadFile J fs path \<noteq> None"
  shows "AccountMapFromFile J fs' path = Some am' \<and> am' = am\<lparr>FilePath := path\<rparr> \<and> path \<noteq> []"
proof -
  obtain blob where m: "Marshal J (am\<lparr>FilePath := path\<rparr>) = Some blob"
    and w: "WriteFile J fs path blob ModeOwner = Some fs'" and r: "am' = am\<lparr>FilePath := path\<rparr>" "path \<noteq> []"
    using assms(2)
    by (auto simp: GenAccountMapList_def saveAccountMap_def Let_def split: if_splits option.splits)
  have "ReadFile J fs' path =
      (if root \<or> (if FileExists J fs path then ReadFile J fs path \<noteq> None else bit ModeOwner 8) then Some blob else None)"
    using assms(1) w unfolding jsonFile_laws_def by blast
  then have "ReadFile J fs' path = Some blob" using assms(3) by simp
  moreover have "Unmarshal J blob = Some (am\<lparr>FilePath := path\<rparr>)" using assms(1) m unfolding jsonFile_laws_def by blast
  ultimately show ?thesis using r by (simp add: AccountMapFromFile_def FromJSON_def)
qed

text \<open>A codec that knows one value, over a store of files with their modes, meets the contract.\<close>

definition one_value_file :: "bool \<Rightarrow> 'v \<Rightarrow> (string \<rightharpoonup> bytes \<times> FileMode, 'v) jsonFile" where
  "one_value_file root v =
     \<lparr>Marshal = (\<lambda>x. if x = v then Some [1] else None),
      Unmarshal = (\<lambda>b. if b = [1] then Some v else None),
      ReadFile = (\<lambda>fs p. case fs p of None \<Rightarrow> None | Some (b, m) \<Rightarrow> if root \<or> bit m 8 then Some b else None),
      FileExists = (\<lambda>fs p. fs p \<noteq> None),
      WriteFile = (\<lambda>fs p b perm.
        case fs p of
          None \<Rightarrow> Some (fs(p \<mapsto> (b, perm)))
        | Some (old, m) \<Rightarrow> if root \<or> bit m 7 then Some (fs(p \<mapsto> (b, m))) else None)\<rparr>"

lemma one_value_file_laws: "jsonFile_laws (one_value_file root v) root"
  by (auto simp: jsonFile_laws_def one_value_file_def split: option.splits if_splits)

end
