(* ===== verification/Version.thy ===== *)
theory Version
  imports GoStd
begin

text \<open>
  Package \<open>version\<close> (\<open>src/version/version.go\<close>, \<open>src/version/config.go\<close>) and the part of
  \<open>ethermintCmd\<close> (\<open>src/cmd/dtfn/dtfn.go\<close>) that loads it: the hard fork schedule. The package
  variables are the record \<open>versionVars\<close>; \<open>InitConfig\<close> parses the two comma-separated strings
  into \<open>HeightArray\<close> and \<open>VersionArray\<close>; \<open>forkVersion\<close> is the loop with which \<open>Info\<close>,
  \<open>BeginBlock\<close> and \<open>InitPersistData\<close> pick the block version of a height.
  The locale \<open>fork_schedule\<close> states what those callers rely on.
\<close>

section \<open>Package variables and configuration\<close>

record versionVars =
  VersionStr :: string
  GitCommit :: string
  HeightArray :: "int list"
  VersionArray :: "int list"
  PPChainAdminStr :: string
  PPChainPrivateAdminStr :: string
  AccountAdmin :: string
  BigguyStr :: string
  EvmErrHardForkHeight :: int
  HeightString :: string
  VersionString :: string

text \<open>The initial values of the package variables.\<close>

definition version_vars :: versionVars where
  "version_vars =
     \<lparr>VersionStr = ''1.5.0'', GitCommit = [], HeightArray = [], VersionArray = [],
      PPChainAdminStr = [], PPChainPrivateAdminStr = [], AccountAdmin = [], BigguyStr = [],
      EvmErrHardForkHeight = 0, HeightString = [], VersionString = []\<rparr>"

record VersionData =
  vd_HeightString :: string
  vd_VersionString :: string
  vd_PPCAdmin :: string
  vd_BigGuy :: string
  vd_PPChainPrivateAdmin :: string
  vd_EvmErrHardForkHeight :: int

record conf =
  Develop :: VersionData
  Staging :: VersionData
  Production :: VersionData

text \<open>\<open>ReadConfig\<close> returns what it could read next to the error, a zero value if the file could not be
  read, and prints the error. The file system and the YAML decoder are arguments; the decoder fills the
  value it is given as far as it comes.\<close>

definition zeroVersionData :: VersionData where
  "zeroVersionData =
     \<lparr>vd_HeightString = [], vd_VersionString = [], vd_PPCAdmin = [], vd_BigGuy = [], vd_PPChainPrivateAdmin = [],
      vd_EvmErrHardForkHeight = 0\<rparr>"

definition zeroConf :: conf where
  "zeroConf = \<lparr>Develop = zeroVersionData, Staging = zeroVersionData, Production = zeroVersionData\<rparr>"

definition ReadConfig ::
  "(string \<Rightarrow> string + bytes) \<Rightarrow> (bytes \<Rightarrow> conf \<Rightarrow> conf \<times> string option) \<Rightarrow> string \<Rightarrow>
     (conf \<times> string option) \<times> string list" where
  "ReadConfig readFile unmarshal fileName =
     (case readFile fileName of
        Inl err \<Rightarrow> ((zeroConf, Some err), [err])
      | Inr yamlFile \<Rightarrow>
          (case unmarshal yamlFile zeroConf of
             (c, None) \<Rightarrow> ((c, None), [])
           | (c, Some err) \<Rightarrow> ((c, Some err), [err])))"

definition version_init :: "versionVars \<Rightarrow> versionVars" where
  "version_init w =
     (if GitCommit w \<noteq> [] then w\<lparr>VersionStr := VersionStr w @ ''-'' @ GitCommit w\<rparr> else w)"

definition LoadVersionData :: "VersionData \<Rightarrow> versionVars \<Rightarrow> versionVars" where
  "LoadVersionData d w =
     w\<lparr>HeightString := vd_HeightString d, VersionString := vd_VersionString d,
       PPChainAdminStr := vd_PPCAdmin d, PPChainPrivateAdminStr := vd_PPChainPrivateAdmin d,
       EvmErrHardForkHeight := vd_EvmErrHardForkHeight d, BigguyStr := vd_BigGuy d\<rparr>"

definition LoadDevelopConfig :: "conf \<Rightarrow> versionVars \<Rightarrow> versionVars" where
  "LoadDevelopConfig c w = LoadVersionData (Develop c) w"

definition LoadStagingConfig :: "conf \<Rightarrow> versionVars \<Rightarrow> versionVars" where
  "LoadStagingConfig c w = LoadVersionData (Staging c) w"

definition LoadProductionConfig :: "conf \<Rightarrow> versionVars \<Rightarrow> versionVars" where
  "LoadProductionConfig c w = LoadVersionData (Production c) w"

definition LoadDefaultConfig :: "conf \<Rightarrow> versionVars \<Rightarrow> versionVars" where
  "LoadDefaultConfig c w =
     w\<lparr>HeightString := ''20,30,40,200,300'', VersionString := ''2,3,4,5,6'',
       BigguyStr := ''0xb3d49259b486d04505b0b652ade74849c0b703c3'',
       EvmErrHardForkHeight := 5,
       PPChainPrivateAdminStr := ''0xb3d49259b486d04505b0b652ade74849c0b703c3'',
       AccountAdmin := ''0xb3d49259b486d04505b0b652ade74849c0b703c3'',
       PPChainAdminStr := ''0xb3d49259b486d04505b0b652ade74849c0b703c3''\<rparr>"

text \<open>The loop of \<open>InitConfig\<close>: one index into both string lists, so a version list that is
  shorter than the height list is an index out of range.\<close>

function initConfigLoop ::
  "string list \<Rightarrow> string list \<Rightarrow> nat \<Rightarrow> int list \<Rightarrow> int list \<Rightarrow> panic + int list \<times> int list" where
  "initConfigLoop hs vs i H V =
     (if i < length hs then
        (if i < length vs
         then initConfigLoop hs vs (Suc i) (H[i := ParseInt (hs ! i)]) (V[i := ParseInt (vs ! i)])
         else Inl IndexOutOfRange)
      else Inr (H, V))"
  by pat_completeness auto
termination
  by (relation "measure (\<lambda>(hs, vs, i, H, V). length hs - i)") auto

declare initConfigLoop.simps [simp del]

definition InitConfig :: "versionVars \<Rightarrow> panic + versionVars" where
  "InitConfig w =
     (let w = (if GitCommit w \<noteq> [] then w\<lparr>VersionStr := VersionStr w @ ''-'' @ GitCommit w\<rparr> else w);
          hs = Split (HeightString w) CHR '','';
          vs = Split (VersionString w) CHR '','' in
      panic_bind (initConfigLoop hs vs 0 (replicate (length hs) 0) (replicate (length vs) 0))
        (\<lambda>(H, V). Inr (w\<lparr>HeightArray := H, VersionArray := V\<rparr>)))"

text \<open>The start of \<open>ethermintCmd\<close>: the result of reading the configuration file (a value and
  whether there was an error), the configuration type, then \<open>InitConfig\<close>.\<close>

definition loadVersionConfig :: "conf \<Rightarrow> bool \<Rightarrow> int \<Rightarrow> versionVars \<Rightarrow> panic + versionVars" where
  "loadVersionConfig c err configType w =
     (if configType \<noteq> 0 \<and> err then Inl (PanicMsg ''ReadConfig'')
      else InitConfig
        (if configType = 0 then LoadDefaultConfig c w
         else if configType = 1 then LoadDevelopConfig c w
         else if configType = 2 then LoadStagingConfig c w
         else if configType = 3 then LoadProductionConfig c w
         else w))"

definition versionConfig ::
  "(string \<Rightarrow> string + bytes) \<Rightarrow> (bytes \<Rightarrow> conf \<Rightarrow> conf \<times> string option) \<Rightarrow> string \<Rightarrow> int \<Rightarrow> versionVars \<Rightarrow>
     panic + versionVars" where
  "versionConfig readFile unmarshal fileName configType w =
     (let ((c, err), printed) = ReadConfig readFile unmarshal fileName in
      loadVersionConfig c (err \<noteq> None) configType w)"

section \<open>The block version of a height\<close>

text \<open>\<open>for i := len(HeightArray)-1; i >= 0; i-- { if height >= HeightArray[i] { ... break } }\<close>:
  \<open>n\<close> is \<open>i + 1\<close>, \<open>cur\<close> the version that stays when no entry applies.\<close>

fun forkVersion :: "int list \<Rightarrow> int list \<Rightarrow> nat \<Rightarrow> int \<Rightarrow> uint64 \<Rightarrow> panic + uint64" where
  "forkVersion H V 0 h cur = Inr cur"
| "forkVersion H V (Suc i) h cur =
     (if h \<ge> H ! i
      then (if i < length V then Inr (word_of_int (V ! i)) else Inl IndexOutOfRange)
      else forkVersion H V i h cur)"

section \<open>InitConfig\<close>

lemma initConfigLoop_ok:
  assumes "length hs \<le> length vs" and "i \<le> length hs"
    and "length H = length hs" and "length V = length vs"
    and "take i H = map ParseInt (take i hs)" and "take i V = map ParseInt (take i vs)"
    and "drop i V = replicate (length vs - i) 0"
  shows "initConfigLoop hs vs i H V =
    Inr (map ParseInt hs, map ParseInt (take (length hs) vs) @ replicate (length vs - length hs) 0)"
  using assms
proof (induction hs vs i H V rule: initConfigLoop.induct)
  case (1 hs vs i H V)
  show ?case
  proof (cases "i < length hs")
    case True
    with "1.prems" have vs: "i < length vs" by simp
    have "initConfigLoop hs vs (Suc i) (H[i := ParseInt (hs ! i)]) (V[i := ParseInt (vs ! i)]) =
      Inr (map ParseInt hs, map ParseInt (take (length hs) vs) @ replicate (length vs - length hs) 0)"
    proof (rule "1.IH" [OF True vs])
      show "take (Suc i) (H[i := ParseInt (hs ! i)]) = map ParseInt (take (Suc i) hs)"
        using "1.prems" True by (simp add: take_Suc_conv_app_nth)
      show "take (Suc i) (V[i := ParseInt (vs ! i)]) = map ParseInt (take (Suc i) vs)"
        using "1.prems" vs by (simp add: take_Suc_conv_app_nth)
      have "drop (Suc i) V = tl (drop i V)" by (simp add: drop_Suc tl_drop)
      then show "drop (Suc i) (V[i := ParseInt (vs ! i)]) = replicate (length vs - Suc i) 0"
        using "1.prems" vs by simp
    qed (use "1.prems" True in simp_all)
    with True vs show ?thesis by (subst initConfigLoop.simps) simp
  next
    case False
    with "1.prems" have i: "i = length hs" by simp
    with "1.prems" have "H = map ParseInt hs" by simp
    moreover have "V = take i V @ drop i V" by simp
    with "1.prems" i have "V = map ParseInt (take (length hs) vs) @ replicate (length vs - length hs) 0"
      by metis
    ultimately show ?thesis using False by (subst initConfigLoop.simps) simp
  qed
qed

lemma initConfigLoop_short:
  assumes "length vs < length hs" and "i \<le> length vs"
  shows "initConfigLoop hs vs i H V = Inl IndexOutOfRange"
  using assms
proof (induction hs vs i H V rule: initConfigLoop.induct)
  case (1 hs vs i H V)
  then show ?case by (subst initConfigLoop.simps) simp
qed

lemma InitConfig_arrays:
  fixes w :: versionVars
  defines "hs \<equiv> Split (HeightString w) CHR '',''" and "vs \<equiv> Split (VersionString w) CHR '',''"
  assumes "length hs \<le> length vs"
  shows "\<exists>w'. InitConfig w = Inr w' \<and> HeightArray w' = map ParseInt hs \<and>
    VersionArray w' = map ParseInt (take (length hs) vs) @ replicate (length vs - length hs) 0"
proof -
  have "initConfigLoop hs vs 0 (replicate (length hs) 0) (replicate (length vs) 0) =
    Inr (map ParseInt hs, map ParseInt (take (length hs) vs) @ replicate (length vs - length hs) 0)"
    using assms(3) by (intro initConfigLoop_ok) simp_all
  then show ?thesis
    by (simp add: InitConfig_def Let_def hs_def vs_def)
qed

text \<open>C29. Round trip of the hard fork schedule: when the two configuration strings are the
  decimal renderings of int64 heights and versions, joined by commas, with as many versions as
  heights, \<open>InitConfig\<close> returns normally and reads back exactly those two lists.\<close>

theorem InitConfig_roundtrip:
  fixes w :: versionVars
  assumes "HeightString w = Join (map show_int H) CHR '',''"
    and "VersionString w = Join (map show_int V) CHR '',''"
    and "H \<noteq> []" and "length V = length H"
    and "\<forall>x \<in> set H \<union> set V. is_i64 x"
  shows "\<exists>w'. InitConfig w = Inr w' \<and> HeightArray w' = H \<and> VersionArray w' = V"
proof -
  have V: "V \<noteq> []" using assms by auto
  have read: "map ParseInt (Split (Join (map show_int xs) CHR '','') CHR '','') = xs"
    if "xs \<noteq> []" "set xs \<subseteq> set H \<union> set V" for xs
  proof -
    have "Split (Join (map show_int xs) CHR '','') CHR '','' = map show_int xs"
      using that by (intro Split_Join) (auto simp: show_int_no_comma)
    moreover have "map (\<lambda>x. ParseInt (show_int x)) xs = map (\<lambda>x. x) xs"
      using that assms(5) by (intro map_cong refl ParseInt_show_int) blast
    ultimately show ?thesis by (simp add: o_def)
  qed
  have H': "map ParseInt (Split (HeightString w) CHR '','') = H"
    using assms(1,3) read by simp
  have V': "map ParseInt (Split (VersionString w) CHR '','') = V"
    using assms(2) V read by simp
  have len: "length (Split (VersionString w) CHR '','') = length (Split (HeightString w) CHR '','')"
    using H' V' assms(4) by (metis length_map)
  from InitConfig_arrays [of w] H' V' len show ?thesis by simp
qed

theorem InitConfig_roundtrip_witness:
  "\<forall>c. \<exists>w'. InitConfig (LoadDefaultConfig c version_vars) = Inr w' \<and>
    HeightArray w' = [20, 30, 40, 200, 300] \<and> VersionArray w' = [2, 3, 4, 5, 6]"
proof (rule allI, rule InitConfig_roundtrip)
  fix c
  show "HeightString (LoadDefaultConfig c version_vars) =
    Join (map show_int [20, 30, 40, 200, 300]) CHR '',''"
    by (simp add: LoadDefaultConfig_def show_int_def show_nat.simps char_of_def bit_0)
  show "VersionString (LoadDefaultConfig c version_vars) = Join (map show_int [2, 3, 4, 5, 6]) CHR '',''"
    by (simp add: LoadDefaultConfig_def show_int_def show_nat.simps char_of_def bit_0)
qed (simp_all add: is_i64_def)

text \<open>\<open>InitConfig\<close> panics, with an index out of range, exactly when the version string has
  fewer comma-separated pieces than the height string; otherwise it returns.\<close>

lemma InitConfig_panics_iff:
  "(case InitConfig w of Inl p \<Rightarrow> p = IndexOutOfRange | Inr w' \<Rightarrow> False) \<longleftrightarrow>
     length (Split (VersionString w) CHR '','') < length (Split (HeightString w) CHR '','')"
proof (cases "length (Split (HeightString w) CHR '','') \<le> length (Split (VersionString w) CHR '','')")
  case True
  with InitConfig_arrays [of w] show ?thesis by auto
next
  case False
  then have "initConfigLoop (Split (HeightString w) CHR '','') (Split (VersionString w) CHR '','') 0 H V
    = Inl IndexOutOfRange" for H V
    by (intro initConfigLoop_short) simp_all
  with False show ?thesis by (simp add: InitConfig_def Let_def)
qed

section \<open>The fork schedule\<close>

lemma forkVersion_none:
  "(\<forall>i < n. h < H ! i) \<Longrightarrow> forkVersion H V n h cur = Inr cur"
  by (induction n) auto

lemma forkVersion_last:
  assumes "i < n" and "H ! i \<le> h" and "\<forall>j. i < j \<and> j < n \<longrightarrow> h < H ! j"
  shows "forkVersion H V n h cur =
    (if i < length V then Inr (word_of_int (V ! i)) else Inl IndexOutOfRange)"
  using assms
proof (induction n)
  case (Suc n)
  show ?case
  proof (cases "i = n")
    case False
    with Suc.prems(1) have "i < n" by simp
    with Suc.prems(3) have "\<not> H ! n \<le> h" by fastforce
    with \<open>i < n\<close> Suc.IH Suc.prems show ?thesis by simp
  qed (use Suc in simp)
qed simp

text \<open>The contract of a schedule: as many versions as heights, both in ascending order, versions
  that fit a positive int64. Its clients are the ABCI handlers that look a height up.\<close>

locale fork_schedule =
  fixes H V :: "int list"
  assumes same_length: "length V = length H"
    and heights_sorted: "sorted H"
    and versions_sorted: "sorted V"
    and versions_range: "v \<in> set V \<Longrightarrow> 0 \<le> v \<and> v < 2 ^ 63"
begin

text \<open>The index the lookup stops at: the number of fork heights already reached.\<close>

definition reached :: "int \<Rightarrow> nat" where
  "reached h = length (filter (\<lambda>x. x \<le> h) H)"

lemma filter_le_takeWhile: "filter (\<lambda>x. x \<le> h) H = takeWhile (\<lambda>x. x \<le> h) H"
  using heights_sorted
proof (induction H)
  case (Cons a as)
  then have "\<not> x \<le> h" if "h < a" "x \<in> set as" for x
    using that by auto
  then have "filter (\<lambda>x. x \<le> h) as = []" if "h < a"
    using that by (simp add: filter_empty_conv)
  with Cons show ?case by auto
qed simp

lemma reached_le: "reached h \<le> length H"
  by (simp add: reached_def)

lemma reached_nth: "i < length H \<Longrightarrow> H ! i \<le> h \<longleftrightarrow> i < reached h"
proof -
  assume i: "i < length H"
  have r: "reached h = length (takeWhile (\<lambda>x. x \<le> h) H)"
    by (simp add: reached_def filter_le_takeWhile)
  show ?thesis
  proof
    assume "i < reached h"
    then show "H ! i \<le> h"
      using r by (metis nth_mem set_takeWhileD takeWhile_nth)
  next
    assume le: "H ! i \<le> h"
    show "i < reached h"
    proof (rule ccontr)
      assume "\<not> i < reached h"
      then have k: "reached h \<le> i" by simp
      then have "\<not> H ! reached h \<le> h"
        using r i by (metis le_less_trans nth_length_takeWhile)
      moreover have "H ! reached h \<le> H ! i"
        using heights_sorted k i by (simp add: sorted_nth_mono)
      ultimately show False using le by simp
    qed
  qed
qed

lemma lookup_version:
  "forkVersion H V (length H) h cur =
     Inr (if reached h = 0 then cur else word_of_int (V ! (reached h - 1)))"
proof (cases "reached h")
  case 0
  then have "\<forall>i < length H. h < H ! i" by (auto simp: not_le [symmetric] reached_nth)
  then show ?thesis using 0 by (simp add: forkVersion_none)
next
  case (Suc i)
  then have i: "i < length H" using reached_le [of h] by simp
  have "forkVersion H V (length H) h cur =
    (if i < length V then Inr (word_of_int (V ! i)) else Inl IndexOutOfRange)"
    using i Suc by (intro forkVersion_last allI impI) (auto simp: reached_nth not_le [symmetric])
  then show ?thesis using Suc i same_length by simp
qed

lemma reached_mono: "h \<le> h' \<Longrightarrow> reached h \<le> reached h'"
proof -
  assume "h \<le> h'"
  then have "set (filter (\<lambda>x. x \<le> h) H) \<subseteq> set (filter (\<lambda>x. x \<le> h') H)" by auto
  show ?thesis
  proof (rule ccontr)
    assume "\<not> reached h \<le> reached h'"
    then have lt: "reached h' < reached h" by simp
    then have i: "reached h' < length H" using reached_le [of h] by linarith
    with lt have "H ! reached h' \<le> h" by (simp add: reached_nth)
    with \<open>h \<le> h'\<close> i show False using reached_nth [of "reached h'" h'] by simp
  qed
qed

lemma version_word_mono:
  assumes "i \<le> j" and "j < length V"
  shows "(word_of_int (V ! i) :: uint64) \<le> word_of_int (V ! j)"
proof -
  have "V ! i \<le> V ! j" using versions_sorted assms by (simp add: sorted_nth_mono)
  moreover have "0 \<le> V ! i" "V ! i < 2 ^ 63" "0 \<le> V ! j" "V ! j < 2 ^ 63"
    using versions_range assms by auto
  ultimately show ?thesis
    by (simp add: word_le_def uint_word_of_int)
qed

lemma versions_never_decrease:
  assumes "h \<le> h'" and "\<forall>v \<in> set V. cur \<le> word_of_int v"
  shows "\<exists>v v'. forkVersion H V (length H) h cur = Inr v \<and>
    forkVersion H V (length H) h' cur = Inr v' \<and> v \<le> v'"
proof (cases "reached h = 0")
  case True
  have "cur \<le> word_of_int (V ! (reached h' - 1))" if "reached h' \<noteq> 0"
    using that assms(2) reached_le [of h'] same_length by simp
  then show ?thesis using True by (auto simp: lookup_version)
next
  case False
  then have "reached h - 1 \<le> reached h' - 1" "reached h' \<noteq> 0" "reached h' - 1 < length V"
    using reached_mono [OF assms(1)] reached_le [of h'] same_length by auto
  then show ?thesis using False version_word_mono by (auto simp: lookup_version)
qed

end

text \<open>The compiled-in default configuration is such a schedule.\<close>

interpretation default_forks: fork_schedule "[20, 30, 40, 200, 300]" "[2, 3, 4, 5, 6]"
  by unfold_locales auto

text \<open>For a schedule whose heights and versions ascend and a pre-fork version no larger than
  the scheduled ones, the lookup never panics and the block version never decreases with the
  height: a later block is never executed under older rules.\<close>

lemma forkVersion_monotone:
  assumes "fork_schedule H V" and "\<forall>v \<in> set V. cur \<le> word_of_int v" and "h \<le> h'"
  shows "\<exists>v v'. forkVersion H V (length H) h cur = Inr v \<and>
    forkVersion H V (length H) h' cur = Inr v' \<and> v \<le> v'"
  using assms fork_schedule.versions_never_decrease by blast

text \<open>Which entry the lookup picks, for any two arrays: the version at the largest index whose
  fork height has been reached (an index out of range if there is no such version), and the
  version already in force when no fork height has been reached.\<close>

lemma forkVersion_picks_last_reached:
  "forkVersion H V (length H) h cur =
     (case filter (\<lambda>i. H ! i \<le> h) (rev [0..<length H]) of
        [] \<Rightarrow> Inr cur
      | i # _ \<Rightarrow> if i < length V then Inr (word_of_int (V ! i)) else Inl IndexOutOfRange)"
proof -
  have "forkVersion H V n h cur =
     (case filter (\<lambda>i. H ! i \<le> h) (rev [0..<n]) of
        [] \<Rightarrow> Inr cur
      | i # _ \<Rightarrow> if i < length V then Inr (word_of_int (V ! i)) else Inl IndexOutOfRange)" for n
    by (induction n) auto
  then show ?thesis .
qed

text \<open>The built-in schedule needs no file, and every other one needs a readable file.\<close>

lemma versionConfig_default:
  "versionConfig readFile unmarshal fileName 0 w = loadVersionConfig c False 0 w"
  by (simp add: versionConfig_def loadVersionConfig_def LoadDefaultConfig_def split: prod.splits)

lemma versionConfig_missing_file:
  "readFile fileName = Inl err \<Longrightarrow> configType \<noteq> 0 \<Longrightarrow>
     versionConfig readFile unmarshal fileName configType w = Inl (PanicMsg ''ReadConfig'')"
  by (simp add: versionConfig_def ReadConfig_def loadVersionConfig_def)

end
