(* ===== verification/Strategy.thy ===== *)
theory Strategy
  imports AccountMap Version
begin

text \<open>
  \<open>src/types/strategy.go\<close>: the validator strategy. Its state is the record \<open>Strategy\<close> (the
  pointers that may be nil are options); \<open>GetUpdatedValidators\<close> is what \<open>EndBlock\<close> answers to
  Tendermint, in two ways: \<open>enterSelectValidators\<close> inside an epoch and \<open>blsValidators\<close> at its
  end. \<open>Receiver\<close> chooses the coinbase of a block.

  The selection loop of block version 2 and later runs until enough different validators were
  drawn, which need not happen: it is a \<^theory_text>\<open>partial_function (option)\<close>, and \<open>None\<close> means that
  the Go loop does not end. The loops over Go maps take their enumeration order as an argument
  (\<open>ordV\<close> for the recorded validators, \<open>ordA\<close> for the changed authorisations).
\<close>

section \<open>State\<close>

record Validator =
  val_Update :: ValidatorUpdate
  val_Signer :: address

record CurrentHeightValData =
  chv_Height :: int
  Validators :: "string \<rightharpoonup> Validator"
  ProposerAddress :: string
  LastVoteInfo :: "VoteInfo list"

record 'x CurrEpochValData =
  cev_PosTable :: "'x PosTable option"
  TotalBalance :: "int option"
  MinorBonus :: "int option"
  SelectCount :: int
  DKGMembersLimit :: int

record HardForkExpectedData =
  hf_Height :: int
  IsHarfForkPassed :: bool
  StatisticsVersion :: uint64
  StatisticHeight :: int
  BlockVersion :: uint64

record 'x Strategy =
  s_InitialValidators :: "ValidatorUpdate list"
  s_AccMapInitial :: "AccountMap option"
  s_BlsSelectStrategy :: bool
  s_CurrentHeight :: CurrentHeightValData
  s_CurrEpoch :: "'x CurrEpochValData"
  s_NextPosTable :: "'x PosTable option"
  s_AuthTable :: "'x AuthTable option"
  s_HF :: HardForkExpectedData
  s_signer :: "Signer option"

definition NewStrategy :: "'x Strategy" where
  "NewStrategy =
     \<lparr>s_InitialValidators = [], s_AccMapInitial = None, s_BlsSelectStrategy = False,
      s_CurrentHeight =
        \<lparr>chv_Height = 0, Validators = Map.empty, ProposerAddress = [], LastVoteInfo = []\<rparr>,
      s_CurrEpoch =
        \<lparr>cev_PosTable = None, TotalBalance = None, MinorBonus = None, SelectCount = 0,
         DKGMembersLimit = 0\<rparr>,
      s_NextPosTable = None, s_AuthTable = None,
      s_HF =
        \<lparr>hf_Height = 0, IsHarfForkPassed = True, StatisticsVersion = 0, StatisticHeight = 0,
         BlockVersion = 0\<rparr>,
      s_signer = None\<rparr>"

definition SetInitialValidators :: "ValidatorUpdate list \<Rightarrow> 'x Strategy \<Rightarrow> 'x Strategy" where
  "SetInitialValidators vs st = st\<lparr>s_InitialValidators := vs\<rparr>"

definition SetSigner :: "int \<Rightarrow> 'x Strategy \<Rightarrow> 'x Strategy" where
  "SetSigner chainId st = st\<lparr>s_signer := Some (EIP155Signer chainId)\<rparr>"

definition SetInitialAccountMap :: "AccountMap \<Rightarrow> 'x Strategy \<Rightarrow> 'x Strategy" where
  "SetInitialAccountMap am st =
     st\<lparr>s_AccMapInitial := Some \<lparr>MapList = MapList am, FilePath = []\<rparr>\<rparr>"

section \<open>The changed authorisations of a block\<close>

definition authAttribute :: "(string \<rightharpoonup> bool) \<Rightarrow> string \<Rightarrow> string \<times> string" where
  "authAttribute m tmAddr = (tmAddr, if m tmAddr = Some True then ''1'' else [])"

definition getAuthTmItems ::
  "((string \<rightharpoonup> bool) \<Rightarrow> string list) \<Rightarrow> 'x Strategy \<Rightarrow> panic + 'x Strategy \<times> Event option" where
  "getAuthTmItems ordA st =
     (case s_AuthTable st of
        None \<Rightarrow> Inl NilDeref
      | Some at \<Rightarrow>
          (let st' = st\<lparr>s_AuthTable := Some (at\<lparr>ThisBlockChangedMap := Map.empty\<rparr>)\<rparr>;
               m = ThisBlockChangedMap at in
           if BlockVersion (s_HF st) \<ge> 5 \<and> m \<noteq> Map.empty
           then Inr (st', Some \<lparr>event_Type = ''AuthItem'', Attributes = map (authAttribute m) (ordA m)\<rparr>)
           else Inr (st', None)))"

section \<open>Selection inside an epoch\<close>

record selection =
  sl_slice :: "ValidatorUpdate list"
  sl_index :: "string \<rightharpoonup> nat"
  sl_vals :: "string \<rightharpoonup> Validator"

definition pickItem :: "'x env \<Rightarrow> 'x PosTable \<Rightarrow> bytes \<Rightarrow> int \<Rightarrow> int \<Rightarrow> address \<times> PosItem" where
  "pickItem e pt seed height i =
     (if height = -1 then SelectItemBySeedValue e pt seed i
      else SelectItemByHeightValue e pt (i64 (height + i)))"

text \<open>The body shared by both selection loops: a validator drawn again gains one unit of power,
  a new one enters with power 1000.\<close>

definition addSelected :: "'x env \<Rightarrow> address \<times> PosItem \<Rightarrow> selection \<Rightarrow> panic + selection" where
  "addSelected e p st =
     (case PubKeyAddress e (pi_PubKey (snd p)) of
        None \<Rightarrow> Inl NilDeref
      | Some tmAddress \<Rightarrow>
          (case sl_index st tmAddress of
             Some k \<Rightarrow>
               (if k < length (sl_slice st)
                then Inr (st\<lparr>sl_slice := (sl_slice st)[k := (sl_slice st ! k)
                       \<lparr>Power := i64 (Power (sl_slice st ! k) + 1)\<rparr>]\<rparr>)
                else Inl IndexOutOfRange)
           | None \<Rightarrow>
               (let vu = \<lparr>vu_PubKey = pi_PubKey (snd p), Power = 1000\<rparr> in
                Inr \<lparr>sl_slice = sl_slice st @ [vu],
                     sl_index = (sl_index st)(tmAddress \<mapsto> length (sl_slice st)),
                     sl_vals = (sl_vals st)(tmAddress \<mapsto> \<lparr>val_Update = vu, val_Signer = fst p\<rparr>)\<rparr>)))"

partial_function (option) selectDistinct ::
  "'x env \<Rightarrow> 'x PosTable \<Rightarrow> bytes \<Rightarrow> int \<Rightarrow> int \<Rightarrow> int \<Rightarrow> selection \<Rightarrow> (panic + selection) option" where
  "selectDistinct e pt seed height want i st =
     (if int (length (sl_slice st)) = want then Some (Inr st)
      else case addSelected e (pickItem e pt seed height i) st of
        Inl p \<Rightarrow> Some (Inl p)
      | Inr st' \<Rightarrow> selectDistinct e pt seed height want (i64 (i + 1)) st')"

fun selectFixed ::
  "'x env \<Rightarrow> 'x PosTable \<Rightarrow> bytes \<Rightarrow> int \<Rightarrow> nat \<Rightarrow> int \<Rightarrow> selection \<Rightarrow> panic + selection" where
  "selectFixed e pt seed height 0 i st = Inr st"
| "selectFixed e pt seed height (Suc n) i st =
     panic_bind (addSelected e (pickItem e pt seed height i) st)
       (\<lambda>st'. selectFixed e pt seed height n (i + 1) st')"

text \<open>The pass over the recorded validators: one that was not selected is reported with power 0
  and forgotten. For a selected one the Go code assigns the power to the loop variable, a copy,
  so the record stays as it is.\<close>

fun dropUnselected ::
  "(string \<rightharpoonup> nat) \<Rightarrow> string list \<Rightarrow> (string \<rightharpoonup> Validator) \<Rightarrow> ValidatorUpdate list \<Rightarrow>
     panic + (string \<rightharpoonup> Validator) \<times> ValidatorUpdate list" where
  "dropUnselected sel [] vals us = Inr (vals, us)"
| "dropUnselected sel (a # ks) vals us =
     (case vals a of
        None \<Rightarrow> dropUnselected sel ks vals us
      | Some v \<Rightarrow>
          (case sel a of
             Some k \<Rightarrow> if k < length us then dropUnselected sel ks vals us else Inl IndexOutOfRange
           | None \<Rightarrow> dropUnselected sel ks (vals(a := None))
                       (us @ [\<lparr>vu_PubKey = vu_PubKey (val_Update v), Power = 0\<rparr>])))"

definition selectionStart :: "'x Strategy \<Rightarrow> selection" where
  "selectionStart st =
     \<lparr>sl_slice = [], sl_index = Map.empty, sl_vals = Validators (s_CurrentHeight st)\<rparr>"

definition selectTarget :: "'x Strategy \<Rightarrow> 'x PosTable \<Rightarrow> int" where
  "selectTarget st pt =
     (if SelectCount (s_CurrEpoch st) = 0 then int (card (dom (PosItemMap pt)))
      else SelectCount (s_CurrEpoch st))"

definition selectLoop ::
  "'x env \<Rightarrow> 'x Strategy \<Rightarrow> 'x PosTable \<Rightarrow> bytes \<Rightarrow> int \<Rightarrow> (panic + selection) option" where
  "selectLoop e st pt seed height =
     (if BlockVersion (s_HF st) \<ge> 2
      then selectDistinct e pt seed height (selectTarget st pt) 0 (selectionStart st)
      else Some (selectFixed e pt seed height (nat (selectTarget st pt)) 0 (selectionStart st)))"

definition selectFinish ::
  "((string \<rightharpoonup> Validator) \<Rightarrow> string list) \<Rightarrow> ((string \<rightharpoonup> bool) \<Rightarrow> string list) \<Rightarrow>
     'x Strategy \<Rightarrow> selection \<Rightarrow> panic + 'x Strategy \<times> ResponseEndBlock" where
  "selectFinish ordV ordA st sl =
     panic_bind (dropUnselected (sl_index sl) (ordV (sl_vals sl)) (sl_vals sl) (sl_slice sl))
       (\<lambda>(vals, us).
          panic_bind
            (getAuthTmItems ordA (st\<lparr>s_CurrentHeight := (s_CurrentHeight st)\<lparr>Validators := vals\<rparr>\<rparr>))
            (\<lambda>(st', ev).
               Inr (st', \<lparr>ValidatorUpdates = us, BlsKeyStrings = [],
                          Events = (case ev of None \<Rightarrow> [] | Some x \<Rightarrow> [x]),
                          AppVersion = BlockVersion (s_HF st)\<rparr>)))"

definition enterSelectValidators ::
  "'x env \<Rightarrow> ((string \<rightharpoonup> Validator) \<Rightarrow> string list) \<Rightarrow> ((string \<rightharpoonup> bool) \<Rightarrow> string list) \<Rightarrow>
     bytes \<Rightarrow> int \<Rightarrow> 'x Strategy \<Rightarrow> (panic + 'x Strategy \<times> ResponseEndBlock) option" where
  "enterSelectValidators e ordV ordA seed height st =
     (case cev_PosTable (s_CurrEpoch st) of
        None \<Rightarrow> Some (Inl NilDeref)
      | Some pt \<Rightarrow>
          (case selectLoop e st pt seed height of
             None \<Rightarrow> None
           | Some r \<Rightarrow> Some (panic_bind r (selectFinish ordV ordA st))))"

section \<open>The end of an epoch\<close>

text \<open>The loop over the signers of the new set: the map by Tendermint address, the updates, and the
  BLS keys. A signer without an item is a nil pointer.\<close>

fun blsLoop ::
  "'x PosTable \<Rightarrow> address list \<Rightarrow> (string \<rightharpoonup> Validator) \<Rightarrow> ValidatorUpdate list \<Rightarrow> string list \<Rightarrow>
     panic + (string \<rightharpoonup> Validator) \<times> ValidatorUpdate list \<times> string list" where
  "blsLoop pt [] cur us bls = Inr (cur, us, bls)"
| "blsLoop pt (signer # rest) cur us bls =
     (case PosItemMap pt signer of
        None \<Rightarrow> Inl NilDeref
      | Some it \<Rightarrow>
          (let u = \<lparr>vu_PubKey = pi_PubKey it, Power = Slots it\<rparr> in
           blsLoop pt rest (cur(TmAddress it \<mapsto> \<lparr>val_Update = u, val_Signer = signer\<rparr>))
             (us @ [u]) (bls @ [pi_BlsKeyString it])))"

definition removedUpdates ::
  "string list \<Rightarrow> (string \<rightharpoonup> Validator) \<Rightarrow> (string \<rightharpoonup> Validator) \<Rightarrow> ValidatorUpdate list" where
  "removedUpdates ks old cur =
     concat (map (\<lambda>a. case old a of
        None \<Rightarrow> []
      | Some v \<Rightarrow> if cur a = None then [\<lparr>vu_PubKey = vu_PubKey (val_Update v), Power = 0\<rparr>] else []) ks)"

definition blsMembers :: "'x Strategy \<Rightarrow> int" where
  "blsMembers st =
     (if DKGMembersLimit (s_CurrEpoch st) \<le> 0 then 100 else DKGMembersLimit (s_CurrEpoch st))"

definition blsValidators ::
  "'x env \<Rightarrow> versionVars \<Rightarrow> ((string \<rightharpoonup> Validator) \<Rightarrow> string list) \<Rightarrow> ((string \<rightharpoonup> bool) \<Rightarrow> string list) \<Rightarrow>
     int \<Rightarrow> 'x Strategy \<times> 'x txfilterVars \<Rightarrow>
     panic + ('x Strategy \<times> 'x txfilterVars) \<times> ResponseEndBlock" where
  "blsValidators e w ordV ordA height stg =
     (let st = fst stg; gv = snd stg in
      panic_bind (index (HeightArray w) 3) (\<lambda>h3.
      panic_bind (deref (cev_PosTable (s_CurrEpoch st))) (\<lambda>pt.
      panic_bind (index (HeightArray w) 2) (\<lambda>h2.
      panic_bind
        (blsLoop pt (if height = h3 then SortedSigners pt else TopKSigners e pt (blsMembers st))
           Map.empty [] [])
        (\<lambda>(cur, us, bls).
          let old = Validators (s_CurrentHeight st);
              us' = us @ removedUpdates (ordV old) old cur;
              st' = st\<lparr>s_CurrentHeight := (s_CurrentHeight st)\<lparr>Validators := cur\<rparr>\<rparr>;
              gv' = (if height = h2 then gv\<lparr>PPChainAdmin := HexToAddress e (PPChainAdminStr w)\<rparr>
                     else if height = h3 then gv\<lparr>PPChainAdmin := HexToAddress e (PPChainPrivateAdminStr w)\<rparr>
                     else gv);
              evs = (if height \<noteq> h2 \<and> height = h3 then [\<lparr>event_Type = ''AuthTableInit'', Attributes = []\<rparr>]
                     else []) in
          panic_bind (getAuthTmItems ordA st')
            (\<lambda>(st'', ev).
              Inr ((st'', gv'),
                   \<lparr>ValidatorUpdates = us', BlsKeyStrings = bls,
                    Events = evs @ (case ev of None \<Rightarrow> [] | Some x \<Rightarrow> [x]),
                    AppVersion = BlockVersion (s_HF st)\<rparr>)))))))"

text \<open>The test \<open>height%txfilter.EpochBlocks == 0\<close>, which \<open>EndBlock\<close> and the persistence code also
  make. The remainder of Go is zero exactly when the one of HOL is.\<close>

definition atEpochEnd :: "'x env \<Rightarrow> int \<Rightarrow> panic + bool" where
  "atEpochEnd e height =
     (if EpochBlocks e = 0 then Inl DivisionByZero else Inr (height mod EpochBlocks e = 0))"

lemma atEpochEnd_Inr_iff:
  "atEpochEnd e height = Inr b \<longleftrightarrow> EpochBlocks e \<noteq> 0 \<and> (b \<longleftrightarrow> height mod EpochBlocks e = 0)"
  by (auto simp: atEpochEnd_def)

definition GetUpdatedValidators ::
  "'x env \<Rightarrow> versionVars \<Rightarrow> ((string \<rightharpoonup> Validator) \<Rightarrow> string list) \<Rightarrow> ((string \<rightharpoonup> bool) \<Rightarrow> string list) \<Rightarrow>
     int \<Rightarrow> bytes option \<Rightarrow> 'x Strategy \<times> 'x txfilterVars \<Rightarrow>
     (panic + ('x Strategy \<times> 'x txfilterVars) \<times> ResponseEndBlock) option" where
  "GetUpdatedValidators e w ordV ordA height seed stg =
     (case atEpochEnd e height of
        Inl p \<Rightarrow> Some (Inl p)
      | Inr False \<Rightarrow>
          map_option (\<lambda>r. panic_bind r (\<lambda>(st', resp). Inr ((st', snd stg), resp)))
            (case seed of
               Some s \<Rightarrow> enterSelectValidators e ordV ordA s (-1) (fst stg)
             | None \<Rightarrow> enterSelectValidators e ordV ordA [] height (fst stg))
      | Inr True \<Rightarrow> Some (blsValidators e w ordV ordA height stg))"

section \<open>The receiver of block rewards\<close>

definition zeroReceiver :: "'x env \<Rightarrow> address" where
  "zeroReceiver e = HexToAddress e ''0000000000000000000000000000000000000002''"

definition Receiver :: "'x env \<Rightarrow> 'x txfilterVars \<Rightarrow> 'x Strategy \<Rightarrow> panic + address" where
  "Receiver e gv st =
     (if BlockVersion (s_HF st) = 4 then Inr (Bigguy gv)
      else
        (let proposer = ProposerAddress (s_CurrentHeight st) in
         if proposer = [] then Inr (zeroReceiver e)
         else panic_bind (deref (cev_PosTable (s_CurrEpoch st))) (\<lambda>pt.
           if TmAddressToSignerMap pt = Map.empty then Inr (zeroReceiver e)
           else Inr (case TmAddressToSignerMap pt proposer of
               None \<Rightarrow> zeroReceiver e
             | Some signer \<Rightarrow>
                 (case PosItemMap pt signer of
                    Some it \<Rightarrow> Beneficiary it
                  | None \<Rightarrow>
                      (case UnbondPosItemMap pt signer of
                         Some it \<Rightarrow> if Slots it \<noteq> 0 then Beneficiary it else zeroReceiver e
                       | None \<Rightarrow> zeroReceiver e))))))"

end
