(* ===== verification/Samples.thy ===== *)
theory Samples
  imports Strategy
begin

text \<open>
  A concrete instance of the third-party parameters, on which the witnesses of the properties
  evaluate: a table of two validators, a key conversion that reads the address off the key, and
  table operations that do what their names say. Nothing here models code of the repository.
\<close>

definition sampleKey :: "string \<Rightarrow> pubKey" where
  "sampleKey a = \<lparr>pk_Type = a, pk_Data = []\<rparr>"

definition sampleItem :: "string \<Rightarrow> int \<Rightarrow> address \<Rightarrow> PosItem" where
  "sampleItem a n b =
     \<lparr>Slots = n, pi_PubKey = sampleKey a, TmAddress = a, pi_BlsKeyString = ''k'' @ a,
      Beneficiary = b, pi_Height = 0, BeneficiaryBonus = Some 0\<rparr>"

definition samplePosTable :: "unit PosTable" where
  "samplePosTable =
     \<lparr>PosItemMap = [1 \<mapsto> sampleItem ''A1'' 10 11, 2 \<mapsto> sampleItem ''A2'' 20 12],
      UnbondPosItemMap = Map.empty, TmAddressToSignerMap = [''A1'' \<mapsto> 1, ''A2'' \<mapsto> 2],
      SortedSigners = [1, 2], SortedUnbondSigners = [], Threshold = 100, TotalSlots = 30,
      ChangedFlagThisBlock = False, pt_rest = ()\<rparr>"

definition sampleAuthTable :: "unit AuthTable" where
  "sampleAuthTable =
     \<lparr>AuthItemMap = Map.empty, SignerToTmAddressMap = Map.empty, ThisBlockChangedMap = Map.empty,
      at_rest = ()\<rparr>"

definition samplePick :: "int \<Rightarrow> address \<times> PosItem" where
  "samplePick i = (if i mod 3 = 2 then (2, sampleItem ''A2'' 20 12) else (1, sampleItem ''A1'' 10 11))"

definition sampleEnv :: "unit env" where
  "sampleEnv =
     \<lparr>HexToAddress = (\<lambda>s. word_of_int (int (length s))),
      PubKeyAddress = (\<lambda>k. if pk_Type k = [] then None else Some (pk_Type k)),
      EpochBlocks = 200, ThresholdUnit = 1000, SendToLock = 100, SendToUnlock = 101, SendToAuth = 102,
      SelectItemBySeedValue = (\<lambda>pt seed i. samplePick i),
      SelectItemByHeightValue = (\<lambda>pt i. samplePick i),
      TopKSigners = (\<lambda>pt n. take (nat n) (SortedSigners pt)),
      InsertPosItem = (\<lambda>pt a it.
        (pt\<lparr>PosItemMap := (PosItemMap pt)(a \<mapsto> it),
            TmAddressToSignerMap := (TmAddressToSignerMap pt)(TmAddress it \<mapsto> a),
            TotalSlots := TotalSlots pt + Slots it, ChangedFlagThisBlock := True\<rparr>, None)),
      RemovePosItem = (\<lambda>pt a h slash.
        (case PosItemMap pt a of
           None \<Rightarrow> (pt, Some ''not found'')
         | Some it \<Rightarrow>
             (pt\<lparr>PosItemMap := (PosItemMap pt)(a := None),
                 UnbondPosItemMap := (UnbondPosItemMap pt)(a \<mapsto> if slash then it\<lparr>Slots := 0\<rparr> else it),
                 TotalSlots := TotalSlots pt - Slots it, ChangedFlagThisBlock := True\<rparr>, None))),
      TryRemoveUnbondPosItems = (\<lambda>pt h ss. (pt, 0)),
      CopyPosTable = (\<lambda>pt. pt), ExportSortedSigners = (\<lambda>pt. pt), InitStruct = (\<lambda>pt. pt),
      SetThreshold = (\<lambda>pt t. pt\<lparr>Threshold := t\<rparr>),
      NewPosItem = (\<lambda>h n pk tm bls b.
        \<lparr>Slots = n, pi_PubKey = pk, TmAddress = tm, pi_BlsKeyString = bls, Beneficiary = b,
         pi_Height = h, BeneficiaryBonus = Some 0\<rparr>),
      CreatePosTable = samplePosTable
        \<lparr>PosItemMap := Map.empty, TmAddressToSignerMap := Map.empty, SortedSigners := [],
         TotalSlots := 0\<rparr>,
      CreateAuthTable = sampleAuthTable, CopyAuthTable = (\<lambda>at. at)\<rparr>"

definition sampleStrategy :: "uint64 \<Rightarrow> int \<Rightarrow> unit Strategy" where
  "sampleStrategy v n =
     NewStrategy
       \<lparr>s_CurrEpoch :=
          \<lparr>cev_PosTable = Some samplePosTable, TotalBalance = Some 1000000, MinorBonus = Some 7,
           SelectCount = n, DKGMembersLimit = 0\<rparr>,
        s_NextPosTable := Some samplePosTable, s_AuthTable := Some sampleAuthTable,
        s_HF :=
          \<lparr>hf_Height = 0, IsHarfForkPassed = True, StatisticsVersion = 0, StatisticHeight = 0,
           BlockVersion = v\<rparr>\<rparr>"

lemmas sample_defs =
  sampleKey_def sampleItem_def samplePosTable_def sampleAuthTable_def samplePick_def sampleEnv_def
  sampleStrategy_def NewStrategy_def

end
