(* ===== verification/StrategySelect.thy ===== *)
theory StrategySelect
  imports Samples
begin

text \<open>
  The selection loops of \<open>enterSelectValidators\<close>: the invariant of the working data (the slice of
  updates, the index map and the recorded validators agree), how many validators and how much
  voting power the loops hand out, when the loop of block version 2 ends, and when it never does.
\<close>

section \<open>The selection invariant\<close>

definition addrOf :: "'x env \<Rightarrow> ValidatorUpdate \<Rightarrow> string option" where
  "addrOf e u = PubKeyAddress e (vu_PubKey u)"

definition drawn :: "'x env \<Rightarrow> 'x PosTable \<Rightarrow> bytes \<Rightarrow> int \<Rightarrow> nat \<Rightarrow> string option" where
  "drawn e pt seed height i = PubKeyAddress e (pi_PubKey (snd (pickItem e pt seed height (int i))))"

definition sel_inv :: "'x env \<Rightarrow> (string \<rightharpoonup> Validator) \<Rightarrow> selection \<Rightarrow> bool" where
  "sel_inv e V0 sl \<longleftrightarrow>
     (\<forall>a k. sl_index sl a = Some k \<longleftrightarrow>
        k < length (sl_slice sl) \<and> addrOf e (sl_slice sl ! k) = Some a) \<and>
     (\<forall>u \<in> set (sl_slice sl). addrOf e u \<noteq> None) \<and>
     (\<forall>a. sl_index sl a = None \<longrightarrow> sl_vals sl a = V0 a) \<and>
     (\<forall>a k. sl_index sl a = Some k \<longrightarrow>
        (\<exists>v. sl_vals sl a = Some v \<and>
           val_Update v = \<lparr>vu_PubKey = vu_PubKey (sl_slice sl ! k), Power = 1000\<rparr>))"

text \<open>The bookkeeping of power after \<open>n\<close> draws: every power lies between 1000 and \<open>1000 + n\<close>, and
  the powers sum up to 1000 per validator plus one per repeated draw.\<close>

definition power_inv :: "nat \<Rightarrow> selection \<Rightarrow> bool" where
  "power_inv n sl \<longleftrightarrow>
     (\<forall>u \<in> set (sl_slice sl). 1000 \<le> Power u \<and> Power u \<le> 1000 + int n) \<and>
     sum_list (map Power (sl_slice sl)) = 999 * int (length (sl_slice sl)) + int n"

lemma sel_inv_start: "sel_inv e (Validators (s_CurrentHeight st)) (selectionStart st)"
  by (simp add: sel_inv_def selectionStart_def)

lemma power_inv_start: "power_inv 0 (selectionStart st)"
  by (simp add: power_inv_def selectionStart_def)

lemma sel_inv_index:
  "sel_inv e V0 sl \<Longrightarrow> sl_index sl a = Some k \<longleftrightarrow>
     k < length (sl_slice sl) \<and> addrOf e (sl_slice sl ! k) = Some a"
  by (simp add: sel_inv_def)

lemma sel_inv_distinct:
  assumes "sel_inv e V0 sl"
  shows "distinct (map (addrOf e) (sl_slice sl))"
proof (subst distinct_conv_nth, intro allI impI)
  fix i j
  assume ij: "i < length (map (addrOf e) (sl_slice sl))" "j < length (map (addrOf e) (sl_slice sl))" "i \<noteq> j"
  then obtain a where a: "addrOf e (sl_slice sl ! i) = Some a"
    using assms by (force simp: sel_inv_def)
  then have "sl_index sl a = Some i" using ij assms by (simp add: sel_inv_index)
  then have "addrOf e (sl_slice sl ! j) \<noteq> Some a"
    using ij assms sel_inv_index [of e V0 sl a j] by auto
  then show "map (addrOf e) (sl_slice sl) ! i \<noteq> map (addrOf e) (sl_slice sl) ! j"
    using a ij by simp
qed

lemma sel_inv_dom:
  assumes "sel_inv e V0 sl"
  shows "Some ` dom (sl_index sl) = addrOf e ` set (sl_slice sl)"
proof
  show "Some ` dom (sl_index sl) \<subseteq> addrOf e ` set (sl_slice sl)"
    using assms by (auto simp: sel_inv_index image_iff) (metis nth_mem)
  show "addrOf e ` set (sl_slice sl) \<subseteq> Some ` dom (sl_index sl)"
  proof
    fix x assume "x \<in> addrOf e ` set (sl_slice sl)"
    then obtain k where k: "k < length (sl_slice sl)" "x = addrOf e (sl_slice sl ! k)"
      by (auto simp: in_set_conv_nth)
    then obtain a where "x = Some a" using assms by (force simp: sel_inv_def)
    with k have "sl_index sl a = Some k" using assms by (simp add: sel_inv_index)
    with \<open>x = Some a\<close> show "x \<in> Some ` dom (sl_index sl)" by blast
  qed
qed

lemma sel_inv_card:
  assumes "sel_inv e V0 sl"
  shows "card (dom (sl_index sl)) = length (sl_slice sl)"
proof -
  have "card (dom (sl_index sl)) = card (Some ` dom (sl_index sl))"
    by (simp add: card_image)
  also have "\<dots> = card (set (map (addrOf e) (sl_slice sl)))"
    using sel_inv_dom [OF assms] by simp
  also have "\<dots> = length (sl_slice sl)"
    using distinct_card [OF sel_inv_distinct [OF assms]] by simp
  finally show ?thesis .
qed

lemma sel_inv_finite: "sel_inv e V0 sl \<Longrightarrow> finite (dom (sl_index sl))"
  using sel_inv_dom [of e V0 sl] by (metis List.finite_set finite_imageI finite_image_iff inj_Some inj_on_subset subset_UNIV)

section \<open>One draw\<close>

lemma addSelected_repeat:
  assumes "sel_inv e V0 sl" and "PubKeyAddress e (pi_PubKey (snd p)) = Some a"
    and "sl_index sl a = Some k"
  shows "addSelected e p sl =
    Inr (sl\<lparr>sl_slice := (sl_slice sl)[k := (sl_slice sl ! k)
           \<lparr>Power := i64 (Power (sl_slice sl ! k) + 1)\<rparr>]\<rparr>)"
  using sel_inv_index [OF assms(1), of a k] assms(2,3) by (simp add: addSelected_def)

lemma addSelected_new:
  assumes "PubKeyAddress e (pi_PubKey (snd p)) = Some a" and "sl_index sl a = None"
  shows "addSelected e p sl =
    Inr \<lparr>sl_slice = sl_slice sl @ [\<lparr>vu_PubKey = pi_PubKey (snd p), Power = 1000\<rparr>],
         sl_index = (sl_index sl)(a \<mapsto> length (sl_slice sl)),
         sl_vals = (sl_vals sl)(a \<mapsto>
           \<lparr>val_Update = \<lparr>vu_PubKey = pi_PubKey (snd p), Power = 1000\<rparr>, val_Signer = fst p\<rparr>)\<rparr>"
  using assms by (simp add: addSelected_def Let_def)

lemma addSelected_repeat_inv:
  assumes "sel_inv e V0 sl" and "sl_index sl a = Some k"
  shows "sel_inv e V0 (sl\<lparr>sl_slice := (sl_slice sl)[k := (sl_slice sl ! k)\<lparr>Power := q\<rparr>]\<rparr>)"
proof -
  let ?us = "(sl_slice sl)[k := (sl_slice sl ! k)\<lparr>Power := q\<rparr>]"
  have pk: "vu_PubKey (?us ! j) = vu_PubKey (sl_slice sl ! j)" if "j < length (sl_slice sl)" for j
    using that by (cases "j = k") auto
  then have ad: "addrOf e (?us ! j) = addrOf e (sl_slice sl ! j)" if "j < length (sl_slice sl)" for j
    using that by (simp add: addrOf_def)
  have "addrOf e u \<noteq> None" if "u \<in> set ?us" for u
    using that assms(1) ad unfolding sel_inv_def in_set_conv_nth
    by (metis length_list_update nth_mem)
  with assms(1) pk ad show ?thesis
    unfolding sel_inv_def by (simp cong: conj_cong)
qed

lemma addSelected_new_inv:
  assumes inv: "sel_inv e V0 sl" and new: "sl_index sl a = None"
    and a: "PubKeyAddress e pk = Some a"
  shows "sel_inv e V0
    \<lparr>sl_slice = sl_slice sl @ [\<lparr>vu_PubKey = pk, Power = 1000\<rparr>],
     sl_index = (sl_index sl)(a \<mapsto> length (sl_slice sl)),
     sl_vals = (sl_vals sl)(a \<mapsto> \<lparr>val_Update = \<lparr>vu_PubKey = pk, Power = 1000\<rparr>, val_Signer = g\<rparr>)\<rparr>"
proof -
  have other: "addrOf e (sl_slice sl ! k) \<noteq> Some a" if "k < length (sl_slice sl)" for k
    using inv new that by (metis option.distinct(1) sel_inv_index)
  show ?thesis
    using inv a other unfolding sel_inv_def addrOf_def
    by (auto simp: nth_append less_Suc_eq split: if_splits)
qed

lemma power_inv_repeat:
  assumes p: "power_inv n sl" and k: "k < length (sl_slice sl)" and n: "int n + 1001 < 2 ^ 63"
  shows "power_inv (Suc n) (sl\<lparr>sl_slice := (sl_slice sl)[k := (sl_slice sl ! k)
           \<lparr>Power := i64 (Power (sl_slice sl ! k) + 1)\<rparr>]\<rparr>)"
proof -
  let ?u = "sl_slice sl ! k"
  have b: "1000 \<le> Power ?u" "Power ?u \<le> 1000 + int n"
    using p k by (auto simp: power_inv_def)
  then have w: "i64 (Power ?u + 1) = Power ?u + 1"
    using n by (intro i64_id) (simp add: is_i64_def)
  have "sum_list (map Power ((sl_slice sl)[k := ?u\<lparr>Power := Power ?u + 1\<rparr>])) =
      sum_list (map Power (sl_slice sl)) + 1"
    using k by (simp add: map_update sum_list_update_int)
  with p b w show ?thesis
    by (auto simp: power_inv_def dest!: set_update_subset_insert [THEN subsetD])
qed

lemma power_inv_new:
  assumes "power_inv n sl"
  shows "power_inv (Suc n)
    \<lparr>sl_slice = sl_slice sl @ [\<lparr>vu_PubKey = pk, Power = 1000\<rparr>], sl_index = ix, sl_vals = vs\<rparr>"
  using assms by (auto simp: power_inv_def)

text \<open>One draw never panics on a key that converts, keeps the invariants and adds the drawn address
  to the selection.\<close>

lemma addSelected_step:
  assumes inv: "sel_inv e V0 sl" and a: "PubKeyAddress e (pi_PubKey (snd p)) = Some a"
  obtains sl' where "addSelected e p sl = Inr sl'" and "sel_inv e V0 sl'"
    and "\<And>n. power_inv n sl \<Longrightarrow> int n + 1001 < 2 ^ 63 \<Longrightarrow> power_inv (Suc n) sl'"
    and "dom (sl_index sl') = insert a (dom (sl_index sl))"
proof (cases "sl_index sl a")
  case None
  show ?thesis
    by (rule that [OF addSelected_new [OF a None] addSelected_new_inv [OF inv None a]])
      (auto intro: power_inv_new)
next
  case (Some k)
  then have k: "k < length (sl_slice sl)" using sel_inv_index [OF inv] by blast
  show ?thesis
    by (rule that [OF addSelected_repeat [OF inv a Some] addSelected_repeat_inv [OF inv Some]])
      (use k Some in \<open>auto intro: power_inv_repeat\<close>)
qed

section \<open>The loop of block version 2 and later\<close>

lemma selectDistinct_stop:
  "int (length (sl_slice st)) = want \<Longrightarrow> selectDistinct e pt seed height want i st = Some (Inr st)"
  by (subst selectDistinct.simps) simp

lemma selectDistinct_go:
  assumes "int (length (sl_slice st)) \<noteq> want"
    and "addSelected e (pickItem e pt seed height i) st = Inr st'"
  shows "selectDistinct e pt seed height want i st =
    selectDistinct e pt seed height want (i64 (i + 1)) st'"
  using assms by (subst selectDistinct.simps) simp

text \<open>The loop state after \<open>i\<close> rounds: the selected addresses are those drawn so far.\<close>

definition loop_inv ::
  "'x env \<Rightarrow> 'x PosTable \<Rightarrow> bytes \<Rightarrow> int \<Rightarrow> (string \<rightharpoonup> Validator) \<Rightarrow> nat \<Rightarrow> selection \<Rightarrow> bool" where
  "loop_inv e pt seed height V0 i sl \<longleftrightarrow>
     sel_inv e V0 sl \<and> power_inv i sl \<and>
     Some ` dom (sl_index sl) = drawn e pt seed height ` {0..<i}"

lemma loop_inv_start:
  "loop_inv e pt seed height (Validators (s_CurrentHeight st)) 0 (selectionStart st)"
  by (simp add: loop_inv_def sel_inv_start power_inv_start) (simp add: selectionStart_def)

lemma loop_inv_length:
  assumes "loop_inv e pt seed height V0 i sl"
  shows "length (sl_slice sl) = card (drawn e pt seed height ` {0..<i})"
proof -
  have "card (Some ` dom (sl_index sl)) = card (dom (sl_index sl))"
    by (simp add: card_image)
  then have "card (Some ` dom (sl_index sl)) = length (sl_slice sl)"
    using assms sel_inv_card by (metis loop_inv_def)
  with assms show ?thesis by (simp add: loop_inv_def)
qed

lemma loop_inv_step:
  assumes "loop_inv e pt seed height V0 i sl" and "drawn e pt seed height i \<noteq> None"
    and "int i + 1001 < 2 ^ 63"
  obtains sl' where "addSelected e (pickItem e pt seed height (int i)) sl = Inr sl'"
    and "loop_inv e pt seed height V0 (Suc i) sl'"
proof -
  obtain a where a: "drawn e pt seed height i = Some a" using assms(2) by blast
  then have pk: "PubKeyAddress e (pi_PubKey (snd (pickItem e pt seed height (int i)))) = Some a"
    by (simp add: drawn_def)
  from assms have inv: "sel_inv e V0 sl" and pw: "power_inv i sl"
    and d: "Some ` dom (sl_index sl) = drawn e pt seed height ` {0..<i}" by (auto simp: loop_inv_def)
  obtain sl' where "addSelected e (pickItem e pt seed height (int i)) sl = Inr sl'" "sel_inv e V0 sl'"
    "power_inv (Suc i) sl'" "dom (sl_index sl') = insert a (dom (sl_index sl))"
    using addSelected_step [OF inv pk] pw assms(3) by metis
  moreover from this d a have "Some ` dom (sl_index sl') = drawn e pt seed height ` {0..<Suc i}"
    by (simp add: atLeast0_lessThan_Suc)
  ultimately show ?thesis using that by (simp add: loop_inv_def)
qed

lemma drawn_card_Suc:
  "card (drawn e pt seed height ` {0..<Suc i}) \<le> Suc (card (drawn e pt seed height ` {0..<i}))"
  by (simp add: atLeast0_lessThan_Suc card_insert_le_m1 card_insert_if)

lemma selectDistinct_total:
  assumes "loop_inv e pt seed height V0 i sl" and "i \<le> n"
    and ok: "\<And>j. j < n \<Longrightarrow> drawn e pt seed height j \<noteq> None" and n: "int n + 1001 < 2 ^ 63"
    and enough: "want \<le> card (drawn e pt seed height ` {0..<n})"
    and "length (sl_slice sl) \<le> want"
  shows "\<exists>m sl'. i \<le> m \<and> m \<le> n \<and>
     selectDistinct e pt seed height (int want) (int i) sl = Some (Inr sl') \<and>
     loop_inv e pt seed height V0 m sl' \<and> length (sl_slice sl') = want"
  using assms(1,2,6)
proof (induction "n - i" arbitrary: i sl)
  case 0
  then have "length (sl_slice sl) = want"
    using enough loop_inv_length [OF 0(2)] by simp
  with 0 show ?case by (auto simp: selectDistinct_stop)
next
  case (Suc d)
  show ?case
  proof (cases "length (sl_slice sl) = want")
    case True
    with Suc show ?thesis by (auto simp: selectDistinct_stop)
  next
    case False
    from Suc.hyps(2) have "i < n" by simp
    obtain sl' where a: "addSelected e (pickItem e pt seed height (int i)) sl = Inr sl'"
      and l: "loop_inv e pt seed height V0 (Suc i) sl'"
      using loop_inv_step [OF Suc.prems(1) ok [OF \<open>i < n\<close>]] n \<open>i < n\<close> by (metis add_less_cancel_right
        of_nat_less_iff order_less_trans)
    have "length (sl_slice sl') \<le> want"
      using False Suc.prems(3) drawn_card_Suc [of e pt seed height i] loop_inv_length [OF l]
        loop_inv_length [OF Suc.prems(1)] by linarith
    with Suc l \<open>i < n\<close> obtain m sl'' where m: "Suc i \<le> m" "m \<le> n"
      "selectDistinct e pt seed height (int want) (int (Suc i)) sl' = Some (Inr sl'')"
      "loop_inv e pt seed height V0 m sl''" "length (sl_slice sl'') = want"
      by (metis Suc_leI diff_Suc_Suc diff_diff_left diff_Suc_1 plus_1_eq_Suc add.commute)
    have "i64 (int i + 1) = int (Suc i)"
      using n \<open>i < n\<close> by (subst i64_id) (auto simp: is_i64_def)
    then have "selectDistinct e pt seed height (int want) (int i) sl = Some (Inr sl'')"
      using m(3) False a by (simp add: selectDistinct_go)
    with m show ?thesis by (intro exI [of _ m] exI [of _ sl'']) simp
  qed
qed

lemma selectDistinct_stuck:
  assumes "finite A" and "want < 0 \<or> int (card A) < want"
    and dr: "\<And>i. \<exists>a \<in> A. PubKeyAddress e (pi_PubKey (snd (pickItem e pt seed height i))) = Some a"
    and "sel_inv e V0 sl" and "dom (sl_index sl) \<subseteq> A"
  shows "selectDistinct e pt seed height want i sl = None"
proof -
  let ?P = "\<lambda>e' pt' seed' height' want' i sl r.
    e' = e \<and> pt' = pt \<and> seed' = seed \<and> height' = height \<and> want' = want \<and>
    sel_inv e V0 sl \<and> dom (sl_index sl) \<subseteq> A \<longrightarrow> False"
  have "?P e pt seed height want i sl r"
    if "selectDistinct e pt seed height want i sl = Some r" for i sl r
  proof (rule selectDistinct.raw_induct [where P = ?P, OF _ that], intro impI, elim conjE)
    fix f e' pt' seed' height' want' i sl r
    assume IH: "\<And>e pt seed height want i sl r. f e pt seed height want i sl = Some r \<Longrightarrow>
        ?P e pt seed height want i sl r"
      and eq: "(if int (length (sl_slice sl)) = want' then Some (Inr sl)
        else case addSelected e' (pickItem e' pt' seed' height' i) sl of Inl p \<Rightarrow> Some (Inl p)
        | Inr sl' \<Rightarrow> f e' pt' seed' height' want' (i64 (i + 1)) sl') = Some r"
      and [simp]: "e' = e" "pt' = pt" "seed' = seed" "height' = height" "want' = want"
      and inv: "sel_inv e V0 sl" and sub: "dom (sl_index sl) \<subseteq> A"
    have l: "int (length (sl_slice sl)) \<noteq> want"
      using sel_inv_card [OF inv] card_mono [OF assms(1) sub] assms(2) by linarith
    obtain a where "a \<in> A" and a: "PubKeyAddress e (pi_PubKey (snd (pickItem e pt seed height i))) = Some a"
      using dr by blast
    obtain sl' where "addSelected e (pickItem e pt seed height i) sl = Inr sl'" "sel_inv e V0 sl'"
      "dom (sl_index sl') \<subseteq> A"
      using addSelected_step [OF inv a] sub \<open>a \<in> A\<close> by (metis insert_subset)
    with IH eq l show False by auto
  qed
  with assms(4,5) show ?thesis by fastforce
qed

section \<open>The loop of earlier block versions\<close>

lemma selectFixed_total:
  assumes "loop_inv e pt seed height V0 i sl"
    and "\<And>j. j < i + n \<Longrightarrow> drawn e pt seed height j \<noteq> None" and "int (i + n) + 1001 < 2 ^ 63"
  shows "\<exists>sl'. selectFixed e pt seed height n (int i) sl = Inr sl' \<and> loop_inv e pt seed height V0 (i + n) sl'"
  using assms
proof (induction n arbitrary: i sl)
  case 0
  then show ?case by simp
next
  case (Suc n)
  obtain sl' where "addSelected e (pickItem e pt seed height (int i)) sl = Inr sl'"
    and "loop_inv e pt seed height V0 (Suc i) sl'"
    by (rule loop_inv_step [OF Suc.prems(1), of thesis]) (use Suc.prems(2,3) in auto)
  with Suc.IH [of "Suc i" sl'] Suc.prems(2,3) show ?case
    by (simp add: add.commute)
qed

section \<open>What any returning run guarantees\<close>

lemma addSelected_Inr_inv:
  assumes "sel_inv e V0 sl" and "addSelected e p sl = Inr sl'"
  shows "sel_inv e V0 sl'"
proof -
  obtain a where a: "PubKeyAddress e (pi_PubKey (snd p)) = Some a"
    using assms(2) by (auto simp: addSelected_def split: option.splits)
  show ?thesis by (rule addSelected_step [OF assms(1) a]) (use assms(2) in simp)
qed

lemma selectDistinct_Inr_inv:
  assumes "selectDistinct e pt seed height want i sl = Some (Inr sl')" and "sel_inv e V0 sl"
  shows "sel_inv e V0 sl'"
proof -
  let ?P = "\<lambda>e' pt' seed' height' want' i sl (r :: panic + selection).
    e' = e \<and> pt' = pt \<and> seed' = seed \<and> height' = height \<and> want' = want \<and> sel_inv e V0 sl \<longrightarrow> (\<forall>sl'. r = Inr sl' \<longrightarrow> sel_inv e V0 sl')"
  have "?P e pt seed height want i sl (Inr sl')"
    by (rule selectDistinct.raw_induct [where P = ?P, OF _ assms(1)])
      (auto split: if_splits sum.splits dest: addSelected_Inr_inv)
  with assms(2) show ?thesis by simp
qed

lemma selectFixed_Inr_inv:
  "selectFixed e pt seed height n i sl = Inr sl' \<Longrightarrow> sel_inv e V0 sl \<Longrightarrow> sel_inv e V0 sl'"
  by (induction n arbitrary: i sl) (auto dest: addSelected_Inr_inv)

lemma selectLoop_Inr_inv:
  assumes "selectLoop e st pt seed height = Some (Inr sl)"
  shows "sel_inv e (Validators (s_CurrentHeight st)) sl"
  using assms sel_inv_start [of e st] selectDistinct_Inr_inv selectFixed_Inr_inv
  unfolding selectLoop_def by (metis option.inject)

section \<open>Removing the validators that were not selected\<close>

definition zeroUpdates :: "(string \<rightharpoonup> Validator) \<Rightarrow> string list \<Rightarrow> ValidatorUpdate list" where
  "zeroUpdates vals ks = map (\<lambda>a. \<lparr>vu_PubKey = vu_PubKey (val_Update (the (vals a))), Power = 0\<rparr>) ks"

lemma zeroUpdates_cong:
  "(\<And>a. a \<in> set ks \<Longrightarrow> vals a = vals' a) \<Longrightarrow> zeroUpdates vals ks = zeroUpdates vals' ks"
  by (simp add: zeroUpdates_def)

lemma dropUnselected_eq:
  assumes "distinct ks" and "set ks \<subseteq> dom vals" and "\<And>a k. sel a = Some k \<Longrightarrow> k < length us"
  shows "dropUnselected sel ks vals us =
    Inr (\<lambda>a. if a \<in> set ks \<and> sel a = None then None else vals a,
         us @ zeroUpdates vals [a \<leftarrow> ks. sel a = None])"
  using assms
proof (induction ks arbitrary: vals us)
  case Nil
  then show ?case by (simp add: zeroUpdates_def)
next
  case (Cons b ks)
  then obtain v where v: "vals b = Some v" by auto
  show ?case
  proof (cases "sel b")
    case (Some k)
    with Cons v have "dropUnselected sel (b # ks) vals us = dropUnselected sel ks vals us" by simp
    also have "\<dots> = Inr (\<lambda>a. if a \<in> set ks \<and> sel a = None then None else vals a,
         us @ zeroUpdates vals [a \<leftarrow> ks. sel a = None])"
      using Cons by (intro Cons.IH) auto
    finally show ?thesis using Some by (auto simp: fun_eq_iff simp del: dropUnselected.simps)
  next
    case None
    let ?us = "us @ [\<lparr>vu_PubKey = vu_PubKey (val_Update v), Power = 0\<rparr>]"
    have "set ks \<subseteq> dom (vals(b := None))" using Cons.prems by auto
    moreover have "k < length ?us" if "sel a = Some k" for a k
      using Cons.prems(3) [OF that] by simp
    ultimately have "dropUnselected sel ks (vals(b := None)) ?us =
        Inr (\<lambda>a. if a \<in> set ks \<and> sel a = None then None else (vals(b := None)) a,
             ?us @ zeroUpdates (vals(b := None)) [a \<leftarrow> ks. sel a = None])"
      using Cons by (intro Cons.IH) auto
    moreover have "zeroUpdates (vals(b := None)) [a \<leftarrow> ks. sel a = None] =
        zeroUpdates vals [a \<leftarrow> ks. sel a = None]"
      using Cons.prems(1) by (intro zeroUpdates_cong) auto
    ultimately show ?thesis using v None by (auto simp: zeroUpdates_def fun_eq_iff)
  qed
qed

text \<open>The recorded validators after the pass are the selected ones, for every enumeration order.\<close>

lemma dropUnselected_selection:
  assumes "sel_inv e V0 sl" and "enumerates ks (sl_vals sl)"
  shows "dropUnselected (sl_index sl) ks (sl_vals sl) (sl_slice sl) =
    Inr (sl_vals sl |` dom (sl_index sl),
         sl_slice sl @ zeroUpdates (sl_vals sl) [a \<leftarrow> ks. sl_index sl a = None])"
proof -
  have "(\<lambda>a. if a \<in> set ks \<and> sl_index sl a = None then None else sl_vals sl a) =
      sl_vals sl |` dom (sl_index sl)"
    using assms(2) by (auto simp: enumerates_def restrict_map_def fun_eq_iff)
  moreover have "k < length (sl_slice sl)" if "sl_index sl a = Some k" for a k
    using that sel_inv_index [OF assms(1)] by blast
  ultimately show ?thesis
    using assms(2) by (subst dropUnselected_eq) (auto simp: enumerates_def)
qed

lemma sel_inv_unselected: "sel_inv e V0 sl \<Longrightarrow> sl_index sl a = None \<Longrightarrow> sl_vals sl a = V0 a"
  by (simp add: sel_inv_def)

lemma sel_inv_selected:
  assumes "sel_inv e V0 sl" and "sl_index sl a = Some k"
  obtains v where "sl_vals sl a = Some v"
    and "val_Update v = \<lparr>vu_PubKey = vu_PubKey (sl_slice sl ! k), Power = 1000\<rparr>"
  using assms unfolding sel_inv_def by blast

lemma sel_inv_vals_finite:
  assumes "sel_inv e V0 sl" and "finite (dom V0)"
  shows "finite (dom (sl_vals sl))"
proof -
  have "dom (sl_vals sl) \<subseteq> dom V0 \<union> dom (sl_index sl)"
    using sel_inv_unselected [OF assms(1)] by fastforce
  then show ?thesis using assms sel_inv_finite finite_subset by blast
qed

lemma sel_inv_vals_dom:
  assumes "sel_inv e V0 sl"
  shows "dom (sl_vals sl |` dom (sl_index sl)) = dom (sl_index sl)"
proof -
  have "dom (sl_index sl) \<subseteq> dom (sl_vals sl)"
    using sel_inv_selected [OF assms] by (metis domD domI subsetI)
  then show ?thesis by auto
qed

lemma sel_inv_recorded_power:
  assumes "sel_inv e V0 sl" and "(sl_vals sl |` dom (sl_index sl)) a = Some v"
  shows "Power (val_Update v) = 1000"
proof -
  from assms(2) obtain k where "sl_index sl a = Some k" and v: "sl_vals sl a = Some v"
    by (auto simp: restrict_map_def split: if_splits)
  with sel_inv_selected [OF assms(1)] show ?thesis
    by (metis ValidatorUpdate.select_convs(2) option.inject)
qed

section \<open>The whole operation\<close>

lemma getAuthTmItems_Inr_iff:
  "(\<exists>st' ev. getAuthTmItems ordA st = Inr (st', ev)) \<longleftrightarrow> s_AuthTable st \<noteq> None"
  by (auto simp: getAuthTmItems_def Let_def split: option.splits)

lemma getAuthTmItems_frame:
  assumes "getAuthTmItems ordA st = Inr (st', ev)"
  shows "s_CurrentHeight st' = s_CurrentHeight st" and "s_CurrEpoch st' = s_CurrEpoch st"
    and "s_NextPosTable st' = s_NextPosTable st" and "s_HF st' = s_HF st"
  using assms by (auto simp: getAuthTmItems_def Let_def split: option.splits if_splits)

text \<open>What the part after the loop makes of a selection: the updates are the selection followed by
  the removals, the recorded validators the selected ones.\<close>

lemma selectFinish_Inr:
  assumes "sel_inv e V0 sl" and "finite (dom V0)" and "range_order ordV"
    and "selectFinish ordV ordA st sl = Inr (st', resp)"
  shows "ValidatorUpdates resp = sl_slice sl @ zeroUpdates (sl_vals sl)
      [a \<leftarrow> ordV (sl_vals sl). sl_index sl a = None]"
    and "Validators (s_CurrentHeight st') = sl_vals sl |` dom (sl_index sl)"
    and "s_CurrEpoch st' = s_CurrEpoch st"
  using dropUnselected_selection [OF assms(1) range_orderD [OF assms(3)
      sel_inv_vals_finite [OF assms(1,2)]]] assms(4)
  by (auto simp: selectFinish_def dest: getAuthTmItems_frame)

lemma selectFinish_ok:
  assumes "sel_inv e V0 sl" and "finite (dom V0)" and "range_order ordV" and "s_AuthTable st \<noteq> None"
  obtains st' resp where "selectFinish ordV ordA st sl = Inr (st', resp)"
  using dropUnselected_selection [OF assms(1) range_orderD [OF assms(3)
      sel_inv_vals_finite [OF assms(1,2)]]] assms(4)
    getAuthTmItems_Inr_iff [of ordA
      "st\<lparr>s_CurrentHeight := (s_CurrentHeight st)\<lparr>Validators := sl_vals sl |` dom (sl_index sl)\<rparr>\<rparr>"]
  by (auto simp: selectFinish_def)

lemma enterSelectValidators_eq:
  assumes "cev_PosTable (s_CurrEpoch st) = Some pt" and "selectLoop e st pt seed height = Some (Inr sl)"
  shows "enterSelectValidators e ordV ordA seed height st = Some (selectFinish ordV ordA st sl)"
  using assms by (simp add: enterSelectValidators_def)

lemma enterSelectValidators_InrE:
  assumes "enterSelectValidators e ordV ordA seed height st = Some (Inr (st', resp))"
  obtains sl where "sel_inv e (Validators (s_CurrentHeight st)) sl"
    and "selectFinish ordV ordA st sl = Inr (st', resp)"
  using assms by (auto simp: enterSelectValidators_def split: option.splits dest: selectLoop_Inr_inv)

text \<open>The outcome of a selection with \<open>m\<close> draws, as Tendermint and the strategy see it.\<close>

definition selection_result ::
  "'x env \<Rightarrow> int \<Rightarrow> int \<Rightarrow> 'x Strategy \<Rightarrow> ResponseEndBlock \<Rightarrow> bool" where
  "selection_result e k m st' resp \<longleftrightarrow>
     (let vs = [u \<leftarrow> ValidatorUpdates resp. Power u \<noteq> 0] in
      int (length vs) = k \<and> distinct (map (addrOf e) vs) \<and>
      list_all (\<lambda>u. 1000 \<le> Power u) vs \<and> sum_list (map Power vs) = 999 * k + m \<and>
      Some ` dom (Validators (s_CurrentHeight st')) = addrOf e ` set vs)"

lemma selection_resultI:
  assumes inv: "loop_inv e pt seed height V0 m sl" and fin: "finite (dom V0)" "range_order ordV"
    and fn: "selectFinish ordV ordA st sl = Inr (st', resp)"
  shows "selection_result e (int (length (sl_slice sl))) (int m) st' resp"
proof -
  from inv have si: "sel_inv e V0 sl" and p: "power_inv m sl" by (auto simp: loop_inv_def)
  note r = selectFinish_Inr [OF si fin fn]
  have "[u \<leftarrow> sl_slice sl. Power u \<noteq> 0] = sl_slice sl"
    using p by (auto simp: power_inv_def filter_id_conv)
  then have vs: "[u \<leftarrow> ValidatorUpdates resp. Power u \<noteq> 0] = sl_slice sl"
    by (simp add: r(1) zeroUpdates_def filter_empty_conv)
  show ?thesis
    unfolding selection_result_def Let_def vs r(2) sel_inv_vals_dom [OF si]
    using p sel_inv_distinct [OF si] sel_inv_dom [OF si] by (auto simp: power_inv_def list_all_iff)
qed

section \<open>Properties\<close>

text \<open>The first \<open>n\<close> draws all yield keys that convert, and \<open>want\<close> different addresses among
  them.\<close>

definition enoughDraws :: "'x env \<Rightarrow> 'x PosTable \<Rightarrow> bytes \<Rightarrow> int \<Rightarrow> nat \<Rightarrow> nat \<Rightarrow> bool" where
  "enoughDraws e pt seed height n want \<longleftrightarrow>
     (\<forall>j < n. drawn e pt seed height j \<noteq> None) \<and>
     want \<le> card (drawn e pt seed height ` {0..<n}) \<and> int n + 1001 < 2 ^ 63"

lemma enterSelect_selectDistinct:
  assumes "2 \<le> BlockVersion (s_HF st)" and "enoughDraws e pt seed height n want"
    and "selectTarget st pt = int want"
  obtains m sl where "m \<le> n" and "selectLoop e st pt seed height = Some (Inr sl)"
    and "loop_inv e pt seed height (Validators (s_CurrentHeight st)) m sl"
    and "length (sl_slice sl) = want"
proof -
  have l: "length (sl_slice (selectionStart st)) \<le> want" by (simp add: selectionStart_def)
  obtain m sl where "m \<le> n"
    "selectDistinct e pt seed height (int want) 0 (selectionStart st) = Some (Inr sl)"
    "loop_inv e pt seed height (Validators (s_CurrentHeight st)) m sl" "length (sl_slice sl) = want"
    using selectDistinct_total [OF loop_inv_start _ _ _ _ l, of n e pt seed height] assms(2)
    unfolding enoughDraws_def by auto
  then show ?thesis using that assms(1,3) by (simp add: selectLoop_def)
qed

text \<open>C10. The selection of block version 2 and later terminates without panic as soon as some prefix
  of the draws holds enough different validators. It then reports exactly the wanted number of
  validators, with pairwise different addresses, each with power at least 1000; the reported powers
  sum up to 999 per validator plus the number of draws made; and the validators recorded by the
  strategy are the reported ones.\<close>

theorem enterSelectValidators_selects:
  assumes "2 \<le> BlockVersion (s_HF st)" and "cev_PosTable (s_CurrEpoch st) = Some pt"
    and "s_AuthTable st \<noteq> None" and "finite (dom (Validators (s_CurrentHeight st)))"
    and "range_order ordV" and "selectTarget st pt = int want" and "enoughDraws e pt seed height n want"
  shows "\<exists>m st' resp. m \<le> n \<and>
    enterSelectValidators e ordV ordA seed height st = Some (Inr (st', resp)) \<and>
    selection_result e (int want) (int m) st' resp"
proof -
  obtain m sl where "m \<le> n" and lp: "selectLoop e st pt seed height = Some (Inr sl)"
    and inv: "loop_inv e pt seed height (Validators (s_CurrentHeight st)) m sl"
    and [simp]: "length (sl_slice sl) = want"
    by (rule enterSelect_selectDistinct [OF assms(1,7,6)])
  from inv have si: "sel_inv e (Validators (s_CurrentHeight st)) sl" by (simp add: loop_inv_def)
  obtain st' resp where fn: "selectFinish ordV ordA st sl = Inr (st', resp)"
    by (rule selectFinish_ok [OF si assms(4,5,3)])
  with selection_resultI [OF inv assms(4,5) fn] enterSelectValidators_eq [OF assms(2) lp] \<open>m \<le> n\<close>
  show ?thesis by auto
qed

theorem enterSelectValidators_selects_witness:
  "\<exists>m st' resp. m \<le> 3 \<and>
    enterSelectValidators sampleEnv sortedKeys sortedKeys [] (-1) (sampleStrategy 3 0) =
      Some (Inr (st', resp)) \<and> selection_result sampleEnv 2 (int m) st' resp"
proof -
  have "enoughDraws sampleEnv samplePosTable [] (-1) 3 2"
    by (simp add: enoughDraws_def drawn_def pickItem_def sample_defs numeral_3_eq_3 less_Suc_eq
        atLeast0_lessThan_Suc)
  then show ?thesis
    using enterSelectValidators_selects [of "sampleStrategy 3 0" samplePosTable sortedKeys 2 sampleEnv
        "[]" "-1" 3 sortedKeys] range_order_sortedKeys
    by (simp add: selectTarget_def sample_defs)
qed

text \<open>C20. The selection loop of block version 2 and later does not end when the draws only ever hit
  fewer validators than the selection count asks for (or when that count is negative): \<open>EndBlock\<close>
  then never answers.\<close>

theorem enterSelectValidators_diverges:
  assumes "2 \<le> BlockVersion (s_HF st)" and "cev_PosTable (s_CurrEpoch st) = Some pt"
    and "finite A" and "selectTarget st pt < 0 \<or> int (card A) < selectTarget st pt"
    and "\<And>i. \<exists>a \<in> A. PubKeyAddress e (pi_PubKey (snd (pickItem e pt seed height i))) = Some a"
  shows "enterSelectValidators e ordV ordA seed height st = None"
proof -
  have "dom (sl_index (selectionStart st)) \<subseteq> A" by (simp add: selectionStart_def)
  then have "selectLoop e st pt seed height = None"
    using selectDistinct_stuck [OF assms(3,4,5) sel_inv_start] assms(1) by (simp add: selectLoop_def)
  then show ?thesis using assms(2) by (simp add: enterSelectValidators_def)
qed

theorem enterSelectValidators_diverges_witness:
  "enterSelectValidators sampleEnv sortedKeys sortedKeys [] (-1) (sampleStrategy 3 7) = None"
  by (rule enterSelectValidators_diverges [where pt = samplePosTable and A = "{''A1'', ''A2''}"])
    (auto simp: selectTarget_def pickItem_def sample_defs)

text \<open>Before block version 2 the selection makes exactly as many draws as the selection count
  says, ends without panic when every key converts, and reports one validator per different address
  drawn, so at most the selection count, with 999 units of power per validator plus one per
  draw.\<close>

lemma enterSelectValidators_old_versions:
  assumes "BlockVersion (s_HF st) < 2" and "cev_PosTable (s_CurrEpoch st) = Some pt"
    and "s_AuthTable st \<noteq> None" and "finite (dom (Validators (s_CurrentHeight st)))"
    and "range_order ordV" and "selectTarget st pt = int n" and "int n + 1001 < 2 ^ 63"
    and "\<And>j. j < n \<Longrightarrow> drawn e pt seed height j \<noteq> None"
  shows "\<exists>st' resp.
    enterSelectValidators e ordV ordA seed height st = Some (Inr (st', resp)) \<and>
    selection_result e (int (card (drawn e pt seed height ` {0..<n}))) (int n) st' resp \<and>
    card (drawn e pt seed height ` {0..<n}) \<le> n"
proof -
  obtain sl where "selectFixed e pt seed height n (int 0) (selectionStart st) = Inr sl"
    and inv: "loop_inv e pt seed height (Validators (s_CurrentHeight st)) n sl"
    using selectFixed_total [OF loop_inv_start, where n = n] assms(7,8) by fastforce
  then have lp: "selectLoop e st pt seed height = Some (Inr sl)"
    using assms(1,6) by (simp add: selectLoop_def flip: not_le)
  from inv have si: "sel_inv e (Validators (s_CurrentHeight st)) sl" by (simp add: loop_inv_def)
  obtain st' resp where fn: "selectFinish ordV ordA st sl = Inr (st', resp)"
    by (rule selectFinish_ok [OF si assms(4,5,3)])
  have "card (drawn e pt seed height ` {0..<n}) \<le> n"
    using card_image_le [of "{0..<n}" "drawn e pt seed height"] by simp
  with selection_resultI [OF inv assms(4,5) fn] enterSelectValidators_eq [OF assms(2) lp] fn
  show ?thesis by (auto simp: loop_inv_length [OF inv])
qed

text \<open>C32. Whatever power a selected validator is reported to Tendermint with, the strategy records it
  with power 1000: the assignment to \<open>v.Power\<close> in the final loop changes the loop's copy only.
  The record and the report differ for every validator drawn more than once.\<close>

theorem enterSelectValidators_recorded_power:
  assumes "enterSelectValidators e ordV ordA seed height st = Some (Inr (st', resp))"
    and "finite (dom (Validators (s_CurrentHeight st)))" and "range_order ordV"
    and "Validators (s_CurrentHeight st') a = Some v"
  shows "Power (val_Update v) = 1000"
proof -
  obtain sl where si: "sel_inv e (Validators (s_CurrentHeight st)) sl"
    and fn: "selectFinish ordV ordA st sl = Inr (st', resp)"
    by (rule enterSelectValidators_InrE [OF assms(1)])
  from selectFinish_Inr(2) [OF si assms(2,3) fn] assms(4) sel_inv_recorded_power [OF si]
  show ?thesis by simp
qed

lemma sample_old_run:
  "enterSelectValidators sampleEnv sortedKeys sortedKeys [] (-1) (sampleStrategy 0 5) =
   Some (Inr ((sampleStrategy 0 5)\<lparr>s_CurrentHeight := \<lparr>chv_Height = 0, Validators =
       [''A1'' \<mapsto> \<lparr>val_Update = \<lparr>vu_PubKey = sampleKey ''A1'', Power = 1000\<rparr>, val_Signer = 1\<rparr>,
        ''A2'' \<mapsto> \<lparr>val_Update = \<lparr>vu_PubKey = sampleKey ''A2'', Power = 1000\<rparr>, val_Signer = 2\<rparr>],
       ProposerAddress = [], LastVoteInfo = []\<rparr>\<rparr>,
     \<lparr>ValidatorUpdates = [\<lparr>vu_PubKey = sampleKey ''A1'', Power = 1003\<rparr>,
        \<lparr>vu_PubKey = sampleKey ''A2'', Power = 1000\<rparr>],
      BlsKeyStrings = [], Events = [], AppVersion = 0\<rparr>))"
  by (simp add: enterSelectValidators_def selectLoop_def selectTarget_def selectionStart_def
      eval_nat_numeral addSelected_def pickItem_def selectFinish_def getAuthTmItems_def
      sortedKeys_def i64_def Let_def sample_defs)

theorem enterSelectValidators_recorded_power_witness:
  "\<exists>st' resp v.
    enterSelectValidators sampleEnv sortedKeys sortedKeys [] (-1) (sampleStrategy 0 5) =
      Some (Inr (st', resp)) \<and>
    Power (ValidatorUpdates resp ! 0) = 1003 \<and> addrOf sampleEnv (ValidatorUpdates resp ! 0) = Some ''A1'' \<and>
    Validators (s_CurrentHeight st') ''A1'' = Some v \<and> Power (val_Update v) = 1000"
proof -
  let ?v = "\<lparr>val_Update = \<lparr>vu_PubKey = sampleKey ''A1'', Power = 1000\<rparr>, val_Signer = 1\<rparr>"
  have "Power (val_Update ?v) = 1000"
    by (rule enterSelectValidators_recorded_power [OF sample_old_run _ range_order_sortedKeys, of "''A1''"])
      (simp_all add: sampleStrategy_def NewStrategy_def)
  then show ?thesis
    unfolding sample_old_run by (simp add: addrOf_def sampleKey_def sampleEnv_def)
qed

end
