(* ===== verification/StrategySync.thy ===== *)
theory StrategySync
  imports StrategySelect
begin

text \<open>
  What the strategy owes to Tendermint. \<open>EndBlock\<close> answers with validator updates; Tendermint
  applies them to its own validator set (a positive power adds or changes a validator, power 0
  removes one). The answer is acceptable when it names no address twice, has no negative power and
  removes only members. The locale \<open>validator_source\<close> states this contract for an arbitrary
  step and proves once that Tendermint's set and the recorded validators stay equal along every
  chain of blocks; the selection, the end of an epoch and \<open>GetUpdatedValidators\<close> as a whole are
  its interpretations.
\<close>

section \<open>Tendermint's side\<close>

fun tmApply :: "'x env \<Rightarrow> ValidatorUpdate list \<Rightarrow> (string \<rightharpoonup> int) \<Rightarrow> (string \<rightharpoonup> int)" where
  "tmApply e [] T = T"
| "tmApply e (u # us) T =
     (case addrOf e u of
        None \<Rightarrow> tmApply e us T
      | Some a \<Rightarrow> tmApply e us (T(a := if Power u = 0 then None else Some (Power u))))"

text \<open>The contract of one answer: \<open>old\<close> and \<open>new\<close> are the recorded validators before and after.\<close>

definition reports ::
  "'x env \<Rightarrow> (string \<rightharpoonup> Validator) \<Rightarrow> (string \<rightharpoonup> Validator) \<Rightarrow> ValidatorUpdate list \<Rightarrow> bool" where
  "reports e old new us \<longleftrightarrow>
     distinct (map (addrOf e) us) \<and>
     (\<forall>u \<in> set us. addrOf e u \<noteq> None \<and> 0 \<le> Power u) \<and>
     addrOf e ` {u \<in> set us. Power u \<noteq> 0} = Some ` dom new \<and>
     addrOf e ` {u \<in> set us. Power u = 0} = Some ` (dom old - dom new)"

text \<open>Every validator is recorded under the address of its own key.\<close>

definition keyed :: "'x env \<Rightarrow> (string \<rightharpoonup> Validator) \<Rightarrow> bool" where
  "keyed e V \<longleftrightarrow> finite (dom V) \<and> (\<forall>a v. V a = Some v \<longrightarrow> addrOf e (val_Update v) = Some a)"

lemma tmApply_other:
  "Some a \<notin> addrOf e ` set us \<Longrightarrow> tmApply e us T a = T a"
  by (induction us arbitrary: T) (auto split: option.splits)

lemma tmApply_hit:
  assumes "distinct (map (addrOf e) us)" and "u \<in> set us" and "addrOf e u = Some a"
  shows "tmApply e us T a = (if Power u = 0 then None else Some (Power u))"
  using assms
proof (induction us arbitrary: T)
  case (Cons w us)
  show ?case
  proof (cases "u = w")
    case True
    with Cons.prems have "Some a \<notin> addrOf e ` set us" by auto
    then show ?thesis using True Cons.prems by (simp add: tmApply_other)
  next
    case False
    with Cons show ?thesis by (auto split: option.splits)
  qed
qed simp

lemma tmApply_perm:
  assumes "distinct (map (addrOf e) us)" and "mset us = mset us'"
  shows "tmApply e us T = tmApply e us' T"
proof
  fix a
  have d: "distinct (map (addrOf e) us')"
    using assms mset_eq_imp_distinct_iff [of "map (addrOf e) us" "map (addrOf e) us'"] by simp
  have s: "set us = set us'" using assms(2) by (rule mset_eq_setD)
  show "tmApply e us T a = tmApply e us' T a"
  proof (cases "Some a \<in> addrOf e ` set us")
    case True
    then obtain u where "u \<in> set us" "addrOf e u = Some a" by (metis imageE)
    with assms(1) d s show ?thesis by (simp add: tmApply_hit)
  next
    case False
    with s show ?thesis by (simp add: tmApply_other)
  qed
qed

lemma reports_apply:
  assumes r: "reports e old new us" and T: "dom T = dom old"
  shows "dom (tmApply e us T) = dom new"
proof (rule set_eqI)
  fix a
  from r have d: "distinct (map (addrOf e) us)"
    and pos: "addrOf e ` {u \<in> set us. Power u \<noteq> 0} = Some ` dom new"
    and zero: "addrOf e ` {u \<in> set us. Power u = 0} = Some ` (dom old - dom new)"
    by (auto simp: reports_def)
  show "a \<in> dom (tmApply e us T) \<longleftrightarrow> a \<in> dom new"
  proof (cases "Some a \<in> addrOf e ` set us")
    case True
    then obtain u where u: "u \<in> set us" "addrOf e u = Some a" by (metis imageE)
    have "Power u \<noteq> 0 \<longleftrightarrow> a \<in> dom new"
    proof
      assume "Power u \<noteq> 0"
      with u have "Some a \<in> addrOf e ` {u \<in> set us. Power u \<noteq> 0}" by force
      then show "a \<in> dom new" unfolding pos by blast
    next
      assume "a \<in> dom new"
      moreover have "Power u = 0 \<Longrightarrow> Some a \<in> addrOf e ` {u \<in> set us. Power u = 0}" using u by force
      ultimately show "Power u \<noteq> 0" unfolding zero by blast
    qed
    then show ?thesis using tmApply_hit [OF d u] by auto
  next
    case False
    then have "Some a \<notin> Some ` dom new" "Some a \<notin> Some ` (dom old - dom new)"
      unfolding pos [symmetric] zero [symmetric] by blast+
    then have "a \<notin> dom new" "a \<notin> dom old" by blast+
    with False T tmApply_other [of a e us T] show ?thesis by (metis domIff)
  qed
qed

section \<open>Chains of blocks\<close>

text \<open>A chain: at an end of block the step answers and Tendermint applies the answer; between two
  ends of block the rest of the program changes the state as it likes, but not the recorded
  validators.\<close>

inductive chain ::
  "'x env \<Rightarrow> ('i \<Rightarrow> 's \<Rightarrow> (panic + 's \<times> ResponseEndBlock) option) \<Rightarrow> ('s \<Rightarrow> (string \<rightharpoonup> Validator)) \<Rightarrow>
     ('i \<Rightarrow> 's \<Rightarrow> bool) \<Rightarrow> (string \<rightharpoonup> int) \<Rightarrow> 's \<Rightarrow> bool"
  for e step vals ok where
  start: "keyed e (vals s) \<Longrightarrow> dom T = dom (vals s) \<Longrightarrow> chain e step vals ok T s"
| block: "chain e step vals ok T s \<Longrightarrow> ok i s \<Longrightarrow> step i s = Some (Inr (s', resp)) \<Longrightarrow>
    chain e step vals ok (tmApply e (ValidatorUpdates resp) T) s'"
| between: "chain e step vals ok T s \<Longrightarrow> vals s' = vals s \<Longrightarrow> chain e step vals ok T s'"

inductive_cases chainE: "chain e step vals ok T s"

locale validator_source =
  fixes e :: "'x env"
    and step :: "'i \<Rightarrow> 's \<Rightarrow> (panic + 's \<times> ResponseEndBlock) option"
    and vals :: "'s \<Rightarrow> (string \<rightharpoonup> Validator)"
    and ok :: "'i \<Rightarrow> 's \<Rightarrow> bool"
  assumes progress: "keyed e (vals s) \<Longrightarrow> ok i s \<Longrightarrow> \<exists>s' resp. step i s = Some (Inr (s', resp))"
    and keeps_keyed: "keyed e (vals s) \<Longrightarrow> ok i s \<Longrightarrow> step i s = Some (Inr (s', resp)) \<Longrightarrow> keyed e (vals s')"
    and contract: "keyed e (vals s) \<Longrightarrow> ok i s \<Longrightarrow> step i s = Some (Inr (s', resp)) \<Longrightarrow>
      reports e (vals s) (vals s') (ValidatorUpdates resp)"
begin

lemma chain_synced: "chain e step vals ok T s \<Longrightarrow> keyed e (vals s) \<and> dom T = dom (vals s)"
proof (induction rule: chain.induct)
  case (block T s i s' resp)
  then show ?case using keeps_keyed contract reports_apply by blast
qed auto

lemma chain_answers:
  assumes "chain e step vals ok T s" and "ok i s"
  shows "\<exists>s' resp. step i s = Some (Inr (s', resp)) \<and>
    reports e (vals s) (vals s') (ValidatorUpdates resp) \<and>
    dom (tmApply e (ValidatorUpdates resp) T) = dom (vals s')"
proof -
  from chain_synced [OF assms(1)] have k: "keyed e (vals s)" and T: "dom T = dom (vals s)" by auto
  from progress [OF k assms(2)] obtain s' resp where st: "step i s = Some (Inr (s', resp))" by blast
  with contract [OF k assms(2) st] reports_apply [OF _ T] show ?thesis by blast
qed

lemma removes_only_members:
  assumes "chain e step vals ok T s" and "ok i s" and "step i s = Some (Inr (s', resp))"
    and "u \<in> set (ValidatorUpdates resp)" and "Power u = 0"
  shows "\<exists>a \<in> dom T. addrOf e u = Some a"
proof -
  from chain_synced [OF assms(1)] have k: "keyed e (vals s)" and T: "dom T = dom (vals s)" by auto
  have "addrOf e u \<in> addrOf e ` {u \<in> set (ValidatorUpdates resp). Power u = 0}"
    using assms(4,5) by blast
  also have "\<dots> = Some ` (dom (vals s) - dom (vals s'))"
    using contract [OF k assms(2,3)] by (simp add: reports_def)
  finally show ?thesis using T by blast
qed

end

text \<open>The three laws at once, for a step that always answers on admissible inputs.\<close>

definition answers ::
  "'x env \<Rightarrow> (string \<rightharpoonup> Validator) \<Rightarrow> ('s \<Rightarrow> (string \<rightharpoonup> Validator)) \<Rightarrow>
     (panic + 's \<times> ResponseEndBlock) option \<Rightarrow> bool" where
  "answers e old vals r \<longleftrightarrow>
     (\<exists>s' resp. r = Some (Inr (s', resp)) \<and> keyed e (vals s') \<and>
        reports e old (vals s') (ValidatorUpdates resp))"

lemma validator_sourceI:
  assumes "\<And>s i. keyed e (vals s) \<Longrightarrow> ok i s \<Longrightarrow> answers e (vals s) vals (step i s)"
  shows "validator_source e step vals ok"
proof
  fix s i
  assume "keyed e (vals s)" and "ok i s"
  from assms [OF this] obtain t r where *: "step i s = Some (Inr (t, r))" "keyed e (vals t)"
    "reports e (vals s) (vals t) (ValidatorUpdates r)" by (auto simp: answers_def)
  then show "\<exists>s' resp. step i s = Some (Inr (s', resp))" by blast
  fix s' resp
  assume "step i s = Some (Inr (s', resp))"
  with * show "keyed e (vals s')" and "reports e (vals s) (vals s') (ValidatorUpdates resp)" by simp_all
qed

section \<open>Selection is a validator source\<close>

definition select_ok :: "'x env \<Rightarrow> bytes \<Rightarrow> int \<Rightarrow> 'x Strategy \<Rightarrow> bool" where
  "select_ok e seed height st \<longleftrightarrow>
     s_AuthTable st \<noteq> None \<and>
     (\<exists>pt n want. cev_PosTable (s_CurrEpoch st) = Some pt \<and> selectTarget st pt = int want \<and>
        (if 2 \<le> BlockVersion (s_HF st) then enoughDraws e pt seed height n want
         else enoughDraws e pt seed height want 0))"

lemma select_ok_loop:
  assumes "select_ok e seed height st"
  obtains pt m sl where "cev_PosTable (s_CurrEpoch st) = Some pt"
    and "selectLoop e st pt seed height = Some (Inr sl)"
    and "loop_inv e pt seed height (Validators (s_CurrentHeight st)) m sl"
proof -
  from assms obtain pt n want where pt: "cev_PosTable (s_CurrEpoch st) = Some pt"
    and t: "selectTarget st pt = int want"
    and d: "if 2 \<le> BlockVersion (s_HF st) then enoughDraws e pt seed height n want
            else enoughDraws e pt seed height want 0"
    by (auto simp: select_ok_def)
  show ?thesis
  proof (cases "2 \<le> BlockVersion (s_HF st)")
    case True
    with d enterSelect_selectDistinct [OF True _ t] pt that show ?thesis by metis
  next
    case False
    with d obtain sl where "selectFixed e pt seed height want (int 0) (selectionStart st) = Inr sl"
      and "loop_inv e pt seed height (Validators (s_CurrentHeight st)) (0 + want) sl"
      using selectFixed_total [OF loop_inv_start, of want e pt seed height st]
      by (auto simp: enoughDraws_def)
    with False t pt that show ?thesis by (auto simp: selectLoop_def)
  qed
qed

lemma sel_inv_keyed:
  assumes "sel_inv e V0 sl"
  shows "keyed e (sl_vals sl |` dom (sl_index sl))"
proof -
  have "addrOf e (val_Update v) = Some a" if v: "(sl_vals sl |` dom (sl_index sl)) a = Some v" for a v
  proof -
    from v obtain k where k: "sl_index sl a = Some k" "sl_vals sl a = Some v"
      by (auto simp: restrict_map_def split: if_splits)
    then have "vu_PubKey (val_Update v) = vu_PubKey (sl_slice sl ! k)"
      using sel_inv_selected [OF assms k(1)] by (metis ValidatorUpdate.select_convs(1) option.inject)
    then show ?thesis using sel_inv_index [OF assms] k(1) by (simp add: addrOf_def)
  qed
  then show ?thesis
    unfolding keyed_def sel_inv_vals_dom [OF assms] using sel_inv_finite [OF assms] by blast
qed

lemma zeroUpdates_addr:
  assumes "\<And>a. a \<in> set ks \<Longrightarrow> \<exists>v. vals a = Some v \<and> addrOf e (val_Update v) = Some a"
  shows "map (addrOf e) (zeroUpdates vals ks) = map Some ks"
  using assms by (force simp: zeroUpdates_def addrOf_def)

lemma reportsI:
  assumes "distinct (map (addrOf e) us)" and "addrOf e ` set us = Some ` dom new"
    and "\<forall>u \<in> set us. 0 < Power u"
    and "map (addrOf e) zs = map Some ks" and "\<forall>u \<in> set zs. Power u = 0"
    and "distinct ks" and "set ks = dom old - dom new"
  shows "reports e old new (us @ zs)"
proof -
  have z: "addrOf e ` set zs = Some ` set ks" using assms(4) by (metis list.set_map)
  have dz: "distinct (map (addrOf e) zs)" unfolding assms(4) using assms(6) by (simp add: distinct_map)
  have sets: "{u \<in> set (us @ zs). Power u \<noteq> 0} = set us" "{u \<in> set (us @ zs). Power u = 0} = set zs"
    using assms(3,5) by force+
  have "Some ` dom new \<inter> Some ` set ks = {}" using assms(7) by auto
  moreover have "addrOf e u \<noteq> None \<and> 0 \<le> Power u" if "u \<in> set (us @ zs)" for u
  proof -
    have "addrOf e u \<in> Some ` dom new \<union> Some ` set ks" using that assms(2) z by auto
    moreover have "0 \<le> Power u" using that assms(3,5) by fastforce
    ultimately show ?thesis by auto
  qed
  ultimately show ?thesis
    unfolding reports_def sets using assms(1,2,7) z dz by simp
qed

lemma select_reports:
  assumes si: "sel_inv e V0 sl" and p: "power_inv m sl" and k: "keyed e V0"
    and en: "enumerates ks (sl_vals sl)"
  shows "reports e V0 (sl_vals sl |` dom (sl_index sl))
    (sl_slice sl @ zeroUpdates (sl_vals sl) [a \<leftarrow> ks. sl_index sl a = None])"
proof (rule reportsI)
  let ?zs = "[a \<leftarrow> ks. sl_index sl a = None]"
  show "map (addrOf e) (zeroUpdates (sl_vals sl) ?zs) = map Some ?zs"
  proof (rule zeroUpdates_addr)
    fix a assume "a \<in> set ?zs"
    then have "a \<in> dom (sl_vals sl)" and "sl_index sl a = None" using en by (auto simp: enumerates_def)
    then show "\<exists>v. sl_vals sl a = Some v \<and> addrOf e (val_Update v) = Some a"
      using sel_inv_unselected [OF si] k by (auto simp: keyed_def)
  qed
  have "dom (sl_vals sl) - dom (sl_index sl) = dom V0 - dom (sl_index sl)"
    using sel_inv_unselected [OF si] by (auto simp: domIff)
  then show "set ?zs = dom V0 - dom (sl_vals sl |` dom (sl_index sl))"
    unfolding sel_inv_vals_dom [OF si] using en by (auto simp: enumerates_def)
  show "addrOf e ` set (sl_slice sl) = Some ` dom (sl_vals sl |` dom (sl_index sl))"
    unfolding sel_inv_vals_dom [OF si] by (simp add: sel_inv_dom [OF si])
  show "\<forall>u \<in> set (sl_slice sl). 0 < Power u" using p by (force simp: power_inv_def)
qed (use en sel_inv_distinct [OF si] in \<open>auto simp: enumerates_def zeroUpdates_def\<close>)

lemma select_step:
  assumes k: "keyed e (Validators (s_CurrentHeight st))" and "range_order ordV"
    and "select_ok e seed height st"
  shows "answers e (Validators (s_CurrentHeight st)) (\<lambda>st. Validators (s_CurrentHeight st))
    (enterSelectValidators e ordV ordA seed height st)"
proof -
  from k have fin: "finite (dom (Validators (s_CurrentHeight st)))" by (simp add: keyed_def)
  obtain pt m sl where pt: "cev_PosTable (s_CurrEpoch st) = Some pt"
    and lp: "selectLoop e st pt seed height = Some (Inr sl)"
    and inv: "loop_inv e pt seed height (Validators (s_CurrentHeight st)) m sl"
    by (rule select_ok_loop [OF assms(3)])
  from inv have si: "sel_inv e (Validators (s_CurrentHeight st)) sl" and p: "power_inv m sl"
    by (auto simp: loop_inv_def)
  obtain st' resp where fn: "selectFinish ordV ordA st sl = Inr (st', resp)"
    by (rule selectFinish_ok [OF si fin assms(2)]) (use assms(3) in \<open>auto simp: select_ok_def\<close>)
  note en = range_orderD [OF assms(2) sel_inv_vals_finite [OF si fin]]
  from selectFinish_Inr [OF si fin assms(2) fn] select_reports [OF si p k en] sel_inv_keyed [OF si] fn
    enterSelectValidators_eq [OF pt lp]
  show ?thesis unfolding answers_def by metis
qed

interpretation select: validator_source e
  "\<lambda>(seed, height). enterSelectValidators e ordV ordA seed height"
  "\<lambda>st. Validators (s_CurrentHeight st)"
  "\<lambda>(seed, height) st. range_order ordV \<and> select_ok e seed height st"
  for e :: "'x env" and ordV ordA
  by (rule validator_sourceI) (auto intro: select_step)

section \<open>The end of an epoch is a validator source\<close>

text \<open>A well-formed table: an item carries the address of its own key and has slots, two signers
  have different Tendermint addresses, and the signer lists are duplicate-free lists of signers of
  the table.\<close>

definition postable_ok :: "'x env \<Rightarrow> 'x PosTable \<Rightarrow> bool" where
  "postable_ok e pt \<longleftrightarrow>
     (\<forall>s it. PosItemMap pt s = Some it \<longrightarrow>
        PubKeyAddress e (pi_PubKey it) = Some (TmAddress it) \<and> 0 < Slots it) \<and>
     (\<forall>s t it jt. PosItemMap pt s = Some it \<and> PosItemMap pt t = Some jt \<and> TmAddress it = TmAddress jt \<longrightarrow>
        s = t) \<and>
     distinct (SortedSigners pt) \<and> set (SortedSigners pt) \<subseteq> dom (PosItemMap pt) \<and>
     (\<forall>k. distinct (TopKSigners e pt k) \<and> set (TopKSigners e pt k) \<subseteq> dom (PosItemMap pt))"

definition itemOf :: "'x PosTable \<Rightarrow> address \<Rightarrow> PosItem" where
  "itemOf pt s = the (PosItemMap pt s)"

definition itemUpdate :: "'x PosTable \<Rightarrow> address \<Rightarrow> ValidatorUpdate" where
  "itemUpdate pt s = \<lparr>vu_PubKey = pi_PubKey (itemOf pt s), Power = Slots (itemOf pt s)\<rparr>"

definition epochValidators :: "'x PosTable \<Rightarrow> address list \<Rightarrow> (string \<rightharpoonup> Validator)" where
  "epochValidators pt ss =
     map_of (rev (map (\<lambda>s. (TmAddress (itemOf pt s), \<lparr>val_Update = itemUpdate pt s, val_Signer = s\<rparr>)) ss))"

lemma blsLoop_eq:
  assumes "set ss \<subseteq> dom (PosItemMap pt)"
  shows "blsLoop pt ss cur us bls =
    Inr (cur ++ epochValidators pt ss, us @ map (itemUpdate pt) ss,
         bls @ map (\<lambda>s. pi_BlsKeyString (itemOf pt s)) ss)"
  using assms
  by (induction ss arbitrary: cur us bls)
    (auto simp: epochValidators_def itemUpdate_def itemOf_def Let_def)

lemma epochValidators_dom: "dom (epochValidators pt ss) = (\<lambda>s. TmAddress (itemOf pt s)) ` set ss"
  by (auto simp: epochValidators_def dom_map_of_conv_image_fst image_image)

lemma epochValidators_SomeD:
  "epochValidators pt ss a = Some v \<Longrightarrow>
     \<exists>s \<in> set ss. a = TmAddress (itemOf pt s) \<and> v = \<lparr>val_Update = itemUpdate pt s, val_Signer = s\<rparr>"
  unfolding epochValidators_def by (drule map_of_SomeD) auto

lemma postable_okD:
  assumes "postable_ok e pt" and "s \<in> dom (PosItemMap pt)"
  shows "addrOf e (itemUpdate pt s) = Some (TmAddress (itemOf pt s))" and "0 < Power (itemUpdate pt s)"
  using assms by (auto simp: postable_ok_def addrOf_def itemUpdate_def itemOf_def)

lemma postable_ok_inj:
  assumes "postable_ok e pt" and "S \<subseteq> dom (PosItemMap pt)"
  shows "inj_on (\<lambda>s. TmAddress (itemOf pt s)) S"
proof (rule inj_onI)
  fix x y
  assume "x \<in> S" "y \<in> S" and eq: "TmAddress (itemOf pt x) = TmAddress (itemOf pt y)"
  with assms(2) obtain i j where "PosItemMap pt x = Some i" "PosItemMap pt y = Some j" by blast
  with assms(1) eq show "x = y" unfolding postable_ok_def itemOf_def by (metis option.sel)
qed

lemma epochValidators_keyed:
  assumes "postable_ok e pt" and "set ss \<subseteq> dom (PosItemMap pt)"
  shows "keyed e (epochValidators pt ss)"
  using postable_okD(1) [OF assms(1) subsetD [OF assms(2)]] unfolding keyed_def epochValidators_dom
  by (auto dest!: epochValidators_SomeD)

lemma removedUpdates_eq:
  assumes "set ks \<subseteq> dom old"
  shows "removedUpdates ks old cur = zeroUpdates old [a \<leftarrow> ks. cur a = None]"
  using assms by (induction ks) (auto simp: removedUpdates_def zeroUpdates_def)

lemma epoch_reports:
  assumes pt: "postable_ok e pt" and ss: "set ss \<subseteq> dom (PosItemMap pt)" "distinct ss"
    and k: "keyed e old" and en: "enumerates ks old"
  shows "reports e old (epochValidators pt ss)
    (map (itemUpdate pt) ss @ removedUpdates ks old (epochValidators pt ss))"
proof -
  let ?new = "epochValidators pt ss" and ?zs = "[a \<leftarrow> ks. epochValidators pt ss a = None]"
  have addr: "map (addrOf e) (map (itemUpdate pt) ss) = map Some (map (\<lambda>s. TmAddress (itemOf pt s)) ss)"
    using postable_okD(1) [OF pt subsetD [OF ss(1)]] by auto
  have "distinct (map (\<lambda>s. TmAddress (itemOf pt s)) ss)"
    using postable_ok_inj [OF pt ss(1)] ss(2) by (simp add: distinct_map)
  then have d: "distinct (map (addrOf e) (map (itemUpdate pt) ss))"
    unfolding addr by (simp add: distinct_map inj_on_def)
  have "reports e old ?new (map (itemUpdate pt) ss @ zeroUpdates old ?zs)"
  proof (rule reportsI [OF d])
    show "addrOf e ` set (map (itemUpdate pt) ss) = Some ` dom ?new"
      using arg_cong [OF addr, of set] by (simp add: epochValidators_dom image_image)
    show "\<forall>u \<in> set (map (itemUpdate pt) ss). 0 < Power u"
      using postable_okD(2) [OF pt subsetD [OF ss(1)]] by auto
    show "map (addrOf e) (zeroUpdates old ?zs) = map Some ?zs"
      by (rule zeroUpdates_addr) (use en k in \<open>auto simp: enumerates_def keyed_def\<close>)
    show "set ?zs = dom old - dom ?new" using en by (auto simp: enumerates_def)
  qed (use en in \<open>auto simp: enumerates_def zeroUpdates_def\<close>)
  then show ?thesis using en by (simp add: removedUpdates_eq enumerates_def)
qed

text \<open>The signers whose validators form the set of the new epoch.\<close>

definition epochSigners :: "'x env \<Rightarrow> versionVars \<Rightarrow> int \<Rightarrow> 'x Strategy \<Rightarrow> 'x PosTable \<Rightarrow> address list" where
  "epochSigners e w height st pt =
     (if height = HeightArray w ! 3 then SortedSigners pt else TopKSigners e pt (blsMembers st))"

definition epoch_ok :: "'x env \<Rightarrow> versionVars \<Rightarrow> 'x Strategy \<Rightarrow> bool" where
  "epoch_ok e w st \<longleftrightarrow>
     3 < length (HeightArray w) \<and> s_AuthTable st \<noteq> None \<and>
     (\<exists>pt. cev_PosTable (s_CurrEpoch st) = Some pt \<and> postable_ok e pt)"

definition epochState :: "'x env \<Rightarrow> versionVars \<Rightarrow> int \<Rightarrow> 'x PosTable \<Rightarrow> 'x Strategy \<Rightarrow> 'x Strategy" where
  "epochState e w height pt st =
     st\<lparr>s_CurrentHeight := (s_CurrentHeight st)
          \<lparr>Validators := epochValidators pt (epochSigners e w height st pt)\<rparr>\<rparr>"

text \<open>The answer at the end of an epoch in closed form.\<close>

lemma blsValidators_eq:
  assumes "3 < length (HeightArray w)" and pt: "cev_PosTable (s_CurrEpoch st) = Some pt"
    and ok: "postable_ok e pt" and ss: "ss = epochSigners e w height st pt"
    and g: "getAuthTmItems ordA (epochState e w height pt st) = Inr (st', ev)"
  shows "blsValidators e w ordV ordA height (st, gv) =
    Inr ((st', if height = HeightArray w ! 2 then gv\<lparr>PPChainAdmin := HexToAddress e (PPChainAdminStr w)\<rparr>
               else if height = HeightArray w ! 3 then gv\<lparr>PPChainAdmin := HexToAddress e (PPChainPrivateAdminStr w)\<rparr>
               else gv),
         \<lparr>ValidatorUpdates = map (itemUpdate pt) ss @
            removedUpdates (ordV (Validators (s_CurrentHeight st))) (Validators (s_CurrentHeight st))
              (epochValidators pt ss),
          BlsKeyStrings = map (\<lambda>s. pi_BlsKeyString (itemOf pt s)) ss,
          Events =
            (if height \<noteq> HeightArray w ! 2 \<and> height = HeightArray w ! 3
             then [\<lparr>event_Type = ''AuthTableInit'', Attributes = []\<rparr>] else []) @
            (case ev of None \<Rightarrow> [] | Some x \<Rightarrow> [x]),
          AppVersion = BlockVersion (s_HF st)\<rparr>)"
proof -
  have "set ss \<subseteq> dom (PosItemMap pt)" using ok ss by (auto simp: epochSigners_def postable_ok_def)
  note loop = blsLoop_eq [OF this, of Map.empty "[]" "[]"]
  have "index (HeightArray w) 3 = Inr (HeightArray w ! 3)" "index (HeightArray w) 2 = Inr (HeightArray w ! 2)"
    using assms(1) by (simp_all add: index_def)
  with loop pt g ss show ?thesis
    by (simp add: blsValidators_def Let_def epochState_def flip: epochSigners_def)
qed

lemma epoch_step:
  assumes k: "keyed e (Validators (s_CurrentHeight (fst stg)))" and "range_order ordV"
    and "epoch_ok e w (fst stg)"
  shows "answers e (Validators (s_CurrentHeight (fst stg))) (\<lambda>stg. Validators (s_CurrentHeight (fst stg)))
    (Some (blsValidators e w ordV ordA height stg))"
proof -
  obtain st gv where stg: "stg = (st, gv)" by fastforce
  from assms(3) obtain pt where len: "3 < length (HeightArray w)"
    and pt: "cev_PosTable (s_CurrEpoch st) = Some pt" and ok: "postable_ok e pt"
    by (auto simp: epoch_ok_def stg)
  let ?ss = "epochSigners e w height st pt"
  have ss: "set ?ss \<subseteq> dom (PosItemMap pt)" "distinct ?ss"
    using ok by (auto simp: epochSigners_def postable_ok_def)
  have "s_AuthTable (epochState e w height pt st) \<noteq> None"
    using assms(3) by (simp add: epochState_def epoch_ok_def stg)
  then obtain st' ev where g: "getAuthTmItems ordA (epochState e w height pt st) = Inr (st', ev)"
    using getAuthTmItems_Inr_iff by blast
  have "Validators (s_CurrentHeight st') = epochValidators pt ?ss"
    using getAuthTmItems_frame(1) [OF g] by (simp add: epochState_def)
  moreover have "enumerates (ordV (Validators (s_CurrentHeight st))) (Validators (s_CurrentHeight st))"
    using k assms(2) by (simp add: stg keyed_def range_orderD)
  ultimately show ?thesis
    using blsValidators_eq [OF len pt ok refl g, of ordV gv] epochValidators_keyed [OF ok ss(1)] k
      epoch_reports [OF ok ss, of "Validators (s_CurrentHeight st)"]
    by (simp add: answers_def stg)
qed

interpretation epoch: validator_source e
  "\<lambda>height stg. Some (blsValidators e w ordV ordA height stg)"
  "\<lambda>stg. Validators (s_CurrentHeight (fst stg))"
  "\<lambda>height stg. range_order ordV \<and> epoch_ok e w (fst stg)"
  for e :: "'x env" and w ordV ordA
  by (rule validator_sourceI) (auto intro: epoch_step)

section \<open>GetUpdatedValidators\<close>

text \<open>An admissible end of block: within an epoch the selection can finish, at the end of an epoch
  the table is well-formed.\<close>

definition update_ok ::
  "'x env \<Rightarrow> versionVars \<Rightarrow> int \<Rightarrow> bytes option \<Rightarrow> 'x Strategy \<times> 'x txfilterVars \<Rightarrow> bool" where
  "update_ok e w height seed stg \<longleftrightarrow> EpochBlocks e \<noteq> 0 \<and>
     (if height mod EpochBlocks e = 0 then epoch_ok e w (fst stg)
      else case seed of
        Some s \<Rightarrow> select_ok e s (-1) (fst stg)
      | None \<Rightarrow> select_ok e [] height (fst stg))"

lemma answers_lift:
  assumes "answers e old (\<lambda>st. Validators (s_CurrentHeight st)) r"
  shows "answers e old (\<lambda>stg. Validators (s_CurrentHeight (fst stg)))
    (map_option (\<lambda>r. panic_bind r (\<lambda>(st', resp). Inr ((st', gv), resp))) r)"
  using assms by (auto simp: answers_def)

lemma update_step:
  assumes "keyed e (Validators (s_CurrentHeight (fst stg)))" and "range_order ordV"
    and "update_ok e w height seed stg"
  shows "answers e (Validators (s_CurrentHeight (fst stg))) (\<lambda>stg. Validators (s_CurrentHeight (fst stg)))
    (GetUpdatedValidators e w ordV ordA height seed stg)"
  using assms(3) epoch_step [OF assms(1,2), of w ordA height]
    select_step [OF assms(1,2), THEN answers_lift]
  by (auto simp: update_ok_def GetUpdatedValidators_def atEpochEnd_def split: option.splits if_splits)

interpretation updates: validator_source e
  "\<lambda>(height, seed). GetUpdatedValidators e w ordV ordA height seed"
  "\<lambda>stg. Validators (s_CurrentHeight (fst stg))"
  "\<lambda>(height, seed) stg. range_order ordV \<and> update_ok e w height seed stg"
  for e :: "'x env" and w ordV ordA
  by (rule validator_sourceI) (auto intro: update_step)

section \<open>Properties\<close>

definition tm_chain ::
  "'x env \<Rightarrow> versionVars \<Rightarrow> ((string \<rightharpoonup> Validator) \<Rightarrow> string list) \<Rightarrow> ((string \<rightharpoonup> bool) \<Rightarrow> string list) \<Rightarrow>
     (string \<rightharpoonup> int) \<Rightarrow> 'x Strategy \<times> 'x txfilterVars \<Rightarrow> bool" where
  "tm_chain e w ordV ordA =
     chain e (\<lambda>(height, seed). GetUpdatedValidators e w ordV ordA height seed)
       (\<lambda>stg. Validators (s_CurrentHeight (fst stg)))
       (\<lambda>(height, seed) stg. range_order ordV \<and> update_ok e w height seed stg)"

text \<open>Tendermint and the strategy agree on the validators. Start with equal sets and run any
  sequence of blocks, within epochs and across epoch ends, with any changes of the tables between
  the blocks: at every admissible end of block \<open>GetUpdatedValidators\<close> returns (no panic, no endless
  loop), its updates name no address twice, carry no negative power, remove only current members
  and exactly those that are no longer recorded, and after Tendermint has applied them its validator
  set is again the recorded one.\<close>

lemma GetUpdatedValidators_synced:
  assumes "tm_chain e w ordV ordA T stg" and "range_order ordV" and "update_ok e w height seed stg"
  shows "\<exists>stg' resp. GetUpdatedValidators e w ordV ordA height seed stg = Some (Inr (stg', resp)) \<and>
    reports e (Validators (s_CurrentHeight (fst stg))) (Validators (s_CurrentHeight (fst stg')))
      (ValidatorUpdates resp) \<and>
    dom T = dom (Validators (s_CurrentHeight (fst stg))) \<and>
    dom (tmApply e (ValidatorUpdates resp) T) = dom (Validators (s_CurrentHeight (fst stg')))"
  using updates.chain_answers [of e w ordV ordA T stg "(height, seed)"]
    updates.chain_synced [of e w ordV ordA T stg] assms
  by (auto simp: tm_chain_def)

definition sampleVars :: "unit txfilterVars" where
  "sampleVars =
     \<lparr>tv_AppVersion = 0, PPChainAdmin = 0, Bigguy = 5, CurrentPosTable = None, EthAuthTable = None,
      EthAuthTableCopy = None\<rparr>"

definition sampleVersion :: versionVars where
  "sampleVersion = version_vars\<lparr>HeightArray := [100, 200, 400, 600, 800], VersionArray := [1, 2, 3, 4, 5]\<rparr>"

lemma sample_postable_ok: "postable_ok sampleEnv samplePosTable"
proof -
  have "distinct [1, 2 :: address]" by simp
  then have "distinct (take k [1, 2 :: address])" "set (take k [1, 2 :: address]) \<subseteq> {1, 2}" for k
    using set_take_subset [of k "[1, 2 :: address]"] by (auto intro: distinct_take)
  then show ?thesis by (auto simp: postable_ok_def sample_defs split: if_splits)
qed

lemma sample_update_ok: "update_ok sampleEnv sampleVersion 600 None (sampleStrategy 5 0, sampleVars)"
  using sample_postable_ok
  by (simp add: update_ok_def epoch_ok_def sampleVersion_def sampleStrategy_def NewStrategy_def)
    (simp add: sampleEnv_def)

lemma zeroUpdates_mset:
  assumes "mset ks = mset ks'"
  shows "mset (zeroUpdates V (filter P ks)) = mset (zeroUpdates V (filter P ks'))"
  using assms by (simp add: zeroUpdates_def)

text \<open>Two answers that may differ in the order of their updates only.\<close>

definition same_answer ::
  "(panic + 's \<times> ResponseEndBlock) option \<Rightarrow> (panic + 's \<times> ResponseEndBlock) option \<Rightarrow> bool" where
  "same_answer r r' \<longleftrightarrow>
     (\<exists>s resp resp'. r = Some (Inr (s, resp)) \<and> r' = Some (Inr (s, resp')) \<and>
        mset (ValidatorUpdates resp) = mset (ValidatorUpdates resp') \<and>
        resp' = resp\<lparr>ValidatorUpdates := ValidatorUpdates resp'\<rparr>)"

lemma same_answer_lift:
  assumes "same_answer r r'"
  shows "same_answer (map_option (\<lambda>r. panic_bind r (\<lambda>(st', resp). Inr ((st', gv), resp))) r)
    (map_option (\<lambda>r. panic_bind r (\<lambda>(st', resp). Inr ((st', gv), resp))) r')"
  using assms by (auto simp: same_answer_def)

lemma select_order:
  assumes k: "keyed e (Validators (s_CurrentHeight st))" and o: "range_order ordV" "range_order ordV'"
    and "select_ok e seed height st"
  shows "same_answer (enterSelectValidators e ordV ordA seed height st)
    (enterSelectValidators e ordV' ordA seed height st)"
proof -
  obtain pt m sl where pt: "cev_PosTable (s_CurrEpoch st) = Some pt"
    and lp: "selectLoop e st pt seed height = Some (Inr sl)"
    and inv: "loop_inv e pt seed height (Validators (s_CurrentHeight st)) m sl"
    by (rule select_ok_loop [OF assms(4)])
  from inv have si: "sel_inv e (Validators (s_CurrentHeight st)) sl" by (simp add: loop_inv_def)
  have fin: "finite (dom (sl_vals sl))"
    using sel_inv_vals_finite [OF si] k by (simp add: keyed_def)
  note en = range_orderD [OF o(1) fin] and en' = range_orderD [OF o(2) fin]
  let ?st = "st\<lparr>s_CurrentHeight := (s_CurrentHeight st)\<lparr>Validators := sl_vals sl |` dom (sl_index sl)\<rparr>\<rparr>"
  have "s_AuthTable ?st \<noteq> None" using assms(4) by (simp add: select_ok_def)
  then obtain st' ev where g: "getAuthTmItems ordA ?st = Inr (st', ev)"
    using getAuthTmItems_Inr_iff by blast
  show ?thesis
    unfolding enterSelectValidators_eq [OF pt lp] same_answer_def selectFinish_def
      dropUnselected_selection [OF si en] dropUnselected_selection [OF si en']
    using g zeroUpdates_mset [OF enumerates_mset_eq [OF en en']] by simp
qed

lemma epoch_order:
  assumes k: "keyed e (Validators (s_CurrentHeight (fst stg)))" and o: "range_order ordV" "range_order ordV'"
    and "epoch_ok e w (fst stg)"
  shows "same_answer (Some (blsValidators e w ordV ordA height stg))
    (Some (blsValidators e w ordV' ordA height stg))"
proof -
  obtain st gv where stg: "stg = (st, gv)" by fastforce
  from assms(4) obtain pt where len: "3 < length (HeightArray w)"
    and pt: "cev_PosTable (s_CurrEpoch st) = Some pt" and ok: "postable_ok e pt"
    and at: "s_AuthTable (epochState e w height pt st) \<noteq> None"
    by (auto simp: epoch_ok_def stg epochState_def)
  then obtain st' ev where g: "getAuthTmItems ordA (epochState e w height pt st) = Inr (st', ev)"
    using getAuthTmItems_Inr_iff by blast
  have fin: "finite (dom (Validators (s_CurrentHeight st)))" using k by (simp add: keyed_def stg)
  note en = range_orderD [OF o(1) fin] and en' = range_orderD [OF o(2) fin]
  have "mset (removedUpdates (ordV (Validators (s_CurrentHeight st))) (Validators (s_CurrentHeight st)) cur) =
      mset (removedUpdates (ordV' (Validators (s_CurrentHeight st))) (Validators (s_CurrentHeight st)) cur)" for cur
    using en en' zeroUpdates_mset [OF enumerates_mset_eq [OF en en']]
    by (simp add: removedUpdates_eq enumerates_def)
  then show ?thesis
    unfolding stg blsValidators_eq [OF len pt ok refl g] same_answer_def by simp
qed

lemma update_order:
  assumes "keyed e (Validators (s_CurrentHeight (fst stg)))" and "range_order ordV" and "range_order ordV'"
    and "update_ok e w height seed stg"
  shows "same_answer (GetUpdatedValidators e w ordV ordA height seed stg)
    (GetUpdatedValidators e w ordV' ordA height seed stg)"
  using assms(4) epoch_order [OF assms(1-3), of w ordA height] select_order [OF assms(1-3), THEN same_answer_lift]
  by (auto simp: update_ok_def GetUpdatedValidators_def atEpochEnd_def split: option.splits if_splits)

text \<open>The runtime's iteration order over the map of recorded validators does not matter: two
  nodes that iterate in different orders reach the same state and send the same updates up to their
  order, and Tendermint ends with the same validator powers on both.\<close>

lemma GetUpdatedValidators_order_irrelevant:
  assumes "keyed e (Validators (s_CurrentHeight (fst stg)))" and "range_order ordV" and "range_order ordV'"
    and "update_ok e w height seed stg"
  shows "\<exists>stg' resp resp'.
    GetUpdatedValidators e w ordV ordA height seed stg = Some (Inr (stg', resp)) \<and>
    GetUpdatedValidators e w ordV' ordA height seed stg = Some (Inr (stg', resp')) \<and>
    mset (ValidatorUpdates resp) = mset (ValidatorUpdates resp') \<and>
    (\<forall>T. tmApply e (ValidatorUpdates resp) T = tmApply e (ValidatorUpdates resp') T)"
proof -
  note update_order [OF assms, of ordA]
  moreover have "answers e (Validators (s_CurrentHeight (fst stg)))
      (\<lambda>stg. Validators (s_CurrentHeight (fst stg))) (GetUpdatedValidators e w ordV ordA height seed stg)"
    by (rule update_step [OF assms(1,2,4)])
  ultimately show ?thesis
    unfolding same_answer_def answers_def by (auto simp: reports_def intro!: tmApply_perm)
qed

section \<open>Authorisation events\<close>

lemma getAuthTmItems_spec:
  assumes "getAuthTmItems ordA st = Inr (st', ev)"
  obtains at where "s_AuthTable st = Some at"
    and "s_AuthTable st' = Some (at\<lparr>ThisBlockChangedMap := Map.empty\<rparr>)"
    and "ev = (if 5 \<le> BlockVersion (s_HF st) \<and> ThisBlockChangedMap at \<noteq> Map.empty
      then Some \<lparr>event_Type = ''AuthItem'', Attributes =
        map (authAttribute (ThisBlockChangedMap at)) (ordA (ThisBlockChangedMap at))\<rparr> else None)"
  using assms by (auto simp: getAuthTmItems_def Let_def split: option.splits if_splits)

text \<open>Whatever way \<open>GetUpdatedValidators\<close> takes, its events end with that of \<open>getAuthTmItems\<close>, called
  on a state with the authorisation table and the block version of the call.\<close>

definition initEvents :: "versionVars \<Rightarrow> int \<Rightarrow> Event list" where
  "initEvents w height =
     (if height \<noteq> HeightArray w ! 2 \<and> height = HeightArray w ! 3
      then [\<lparr>event_Type = ''AuthTableInit'', Attributes = []\<rparr>] else [])"

lemma enterSelectValidators_events:
  assumes "enterSelectValidators e ordV ordA seed height st = Some (Inr (st', resp))"
  obtains st1 ev where "getAuthTmItems ordA st1 = Inr (st', ev)" and "s_AuthTable st1 = s_AuthTable st"
    and "s_HF st1 = s_HF st" and "Events resp = (case ev of None \<Rightarrow> [] | Some x \<Rightarrow> [x])"
proof -
  obtain sl where fn: "selectFinish ordV ordA st sl = Inr (st', resp)"
    by (rule enterSelectValidators_InrE [OF assms])
  then obtain vals us ev where
    "getAuthTmItems ordA (st\<lparr>s_CurrentHeight := (s_CurrentHeight st)\<lparr>Validators := vals\<rparr>\<rparr>) = Inr (st', ev)"
    and "Events resp = (case ev of None \<Rightarrow> [] | Some x \<Rightarrow> [x])"
    unfolding selectFinish_def by auto
  with that show ?thesis by fastforce
qed

lemma blsValidators_events:
  assumes "blsValidators e w ordV ordA height stg = Inr (stg', resp)"
  obtains st1 ev where "getAuthTmItems ordA st1 = Inr (fst stg', ev)"
    and "s_AuthTable st1 = s_AuthTable (fst stg)" and "s_HF st1 = s_HF (fst stg)"
    and "Events resp = initEvents w height @ (case ev of None \<Rightarrow> [] | Some x \<Rightarrow> [x])"
proof -
  obtain vals ev where
    "getAuthTmItems ordA ((fst stg)\<lparr>s_CurrentHeight := (s_CurrentHeight (fst stg))\<lparr>Validators := vals\<rparr>\<rparr>) =
      Inr (fst stg', ev)"
    and "Events resp = initEvents w height @ (case ev of None \<Rightarrow> [] | Some x \<Rightarrow> [x])"
    using assms unfolding blsValidators_def Let_def initEvents_def
    by (auto simp: index_Inr_iff)
  with that show ?thesis by fastforce
qed

lemma GetUpdatedValidators_events:
  assumes "GetUpdatedValidators e w ordV ordA height seed stg = Some (Inr (stg', resp))"
  obtains st1 ev where "getAuthTmItems ordA st1 = Inr (fst stg', ev)"
    and "s_AuthTable st1 = s_AuthTable (fst stg)" and "s_HF st1 = s_HF (fst stg)"
    and "Events resp = (if height mod EpochBlocks e = 0 then initEvents w height else []) @
      (case ev of None \<Rightarrow> [] | Some x \<Rightarrow> [x])"
proof (cases "height mod EpochBlocks e = 0")
  case True
  with assms have "blsValidators e w ordV ordA height stg = Inr (stg', resp)"
    by (auto simp: GetUpdatedValidators_def atEpochEnd_def split: if_splits)
  with True that show ?thesis by (auto elim: blsValidators_events)
next
  case False
  with assms obtain s h where
    "enterSelectValidators e ordV ordA s h (fst stg) = Some (Inr (fst stg', resp))"
    by (auto simp: GetUpdatedValidators_def atEpochEnd_def split: if_splits option.splits)
  with False that show ?thesis by (auto elim: enterSelectValidators_events)
qed

text \<open>Every end of block hands over the authorisation changes of the block and forgets them:
  afterwards the map of changes is empty; from block version 5 on, a block with changes yields
  exactly one \<open>AuthItem\<close> event, which lists every changed Tendermint address exactly once, with value
  \<open>1\<close> for a permission and an empty value for a revocation; otherwise there is none.\<close>

lemma GetUpdatedValidators_auth_changes:
  assumes "GetUpdatedValidators e w ordV ordA height seed stg = Some (Inr (stg', resp))"
    and "s_AuthTable (fst stg) = Some at" and "finite (dom (ThisBlockChangedMap at))"
    and "range_order ordA"
  shows "s_AuthTable (fst stg') = Some (at\<lparr>ThisBlockChangedMap := Map.empty\<rparr>) \<and>
    (if 5 \<le> BlockVersion (s_HF (fst stg)) \<and> ThisBlockChangedMap at \<noteq> Map.empty
     then \<exists>kvs. [v \<leftarrow> Events resp. event_Type v = ''AuthItem''] =
            [\<lparr>event_Type = ''AuthItem'', Attributes = kvs\<rparr>] \<and> distinct (map fst kvs) \<and>
          set kvs = (\<lambda>(a, b). (a, if b then ''1'' else [])) ` {(a, b). ThisBlockChangedMap at a = Some b}
     else [v \<leftarrow> Events resp. event_Type v = ''AuthItem''] = [])"
proof -
  let ?m = "ThisBlockChangedMap at"
  obtain st1 ev where g: "getAuthTmItems ordA st1 = Inr (fst stg', ev)"
    and st1: "s_AuthTable st1 = s_AuthTable (fst stg)" "s_HF st1 = s_HF (fst stg)"
    and evs: "Events resp = (if height mod EpochBlocks e = 0 then initEvents w height else []) @
      (case ev of None \<Rightarrow> [] | Some x \<Rightarrow> [x])"
    by (rule GetUpdatedValidators_events [OF assms(1)])
  have no: "[v \<leftarrow> initEvents w height. event_Type v = ''AuthItem''] = []" by (simp add: initEvents_def)
  have en: "enumerates (ordA ?m) ?m" by (rule range_orderD [OF assms(4,3)])
  let ?kvs = "map (authAttribute ?m) (ordA ?m)"
  have k: "distinct (map fst ?kvs)"
    using en by (simp add: enumerates_def authAttribute_def comp_def)
  have "set ?kvs = authAttribute ?m ` dom ?m" using en by (simp add: enumerates_def)
  also have "\<dots> = (\<lambda>(a, b). (a, if b then ''1'' else [])) ` {(a, b). ?m a = Some b}"
    by (force simp: authAttribute_def image_iff)
  finally have v: "set ?kvs = (\<lambda>(a, b). (a, if b then ''1'' else [])) ` {(a, b). ?m a = Some b}" .
  show ?thesis
    by (rule getAuthTmItems_spec [OF g]) (use st1 assms(2) evs no k v in auto)
qed

definition sampleChanged :: "unit Strategy \<times> unit txfilterVars" where
  "sampleChanged =
     ((sampleStrategy 5 0)\<lparr>s_AuthTable := Some (sampleAuthTable\<lparr>ThisBlockChangedMap := [''A1'' \<mapsto> True]\<rparr>)\<rparr>,
      sampleVars)"

lemma sample_changed_run:
  obtains stg' resp where
    "GetUpdatedValidators sampleEnv sampleVersion sortedKeys sortedKeys 600 None sampleChanged =
      Some (Inr (stg', resp))"
proof -
  have "update_ok sampleEnv sampleVersion 600 None sampleChanged"
    using sample_update_ok
    by (simp add: update_ok_def epoch_ok_def sampleChanged_def split: if_splits) (simp add: sampleEnv_def)
  then have "answers sampleEnv (Validators (s_CurrentHeight (fst sampleChanged)))
      (\<lambda>stg. Validators (s_CurrentHeight (fst stg)))
      (GetUpdatedValidators sampleEnv sampleVersion sortedKeys sortedKeys 600 None sampleChanged)"
    by (intro update_step [OF _ range_order_sortedKeys])
      (simp_all add: keyed_def sampleChanged_def sampleStrategy_def NewStrategy_def)
  with that show ?thesis by (auto simp: answers_def)
qed

text \<open>C28. The Tendermint authorisation table is initialised (event \<open>AuthTableInit\<close>) at the fourth fork
  height and nowhere else, and only when that height ends an epoch and differs from the third fork
  height: a fourth fork height that is not a multiple of the epoch length never initialises it.\<close>

theorem GetUpdatedValidators_auth_init:
  assumes "GetUpdatedValidators e w ordV ordA height seed stg = Some (Inr (stg', resp))"
  shows "\<lparr>event_Type = ''AuthTableInit'', Attributes = []\<rparr> \<in> set (Events resp) \<longleftrightarrow>
    height = HeightArray w ! 3 \<and> height \<noteq> HeightArray w ! 2 \<and> height mod EpochBlocks e = 0"
  by (rule GetUpdatedValidators_events [OF assms], erule getAuthTmItems_spec)
    (auto simp: initEvents_def)

theorem GetUpdatedValidators_auth_init_witness:
  "\<exists>stg' resp.
    GetUpdatedValidators sampleEnv sampleVersion sortedKeys sortedKeys 600 None sampleChanged =
      Some (Inr (stg', resp)) \<and>
    \<lparr>event_Type = ''AuthTableInit'', Attributes = []\<rparr> \<in> set (Events resp)"
proof -
  obtain stg' resp where run:
    "GetUpdatedValidators sampleEnv sampleVersion sortedKeys sortedKeys 600 None sampleChanged =
      Some (Inr (stg', resp))" by (rule sample_changed_run)
  have "\<lparr>event_Type = ''AuthTableInit'', Attributes = []\<rparr> \<in> set (Events resp)"
    using GetUpdatedValidators_auth_init [OF run] by (simp add: sampleVersion_def) (simp add: sampleEnv_def)
  with run show ?thesis by blast
qed

end
