(* ===== verification/Punishment.thy ===== *)
theory Punishment
  imports StrategySync
begin

text \<open>
  \<open>src/app/punishment.go\<close>: slashing of validators with evidence against them. The Go interfaces
  \<open>AmountStrategy\<close> and \<open>SubBalanceStrategy\<close> are datatypes with one constructor per dynamic type,
  a pointer and a value being different dynamic types, because \<open>DoPunish\<close> asserts one. The
  locale \<open>balance_taker\<close> is the contract of the method \<open>subBalance\<close>, which burning and
  transferring both meet.
\<close>

section \<open>Strategies\<close>

datatype AmountStrategy =
    FixedAmountStrategy int
  | Percent100AmountStrategy

fun amount :: "'s statedb \<Rightarrow> AmountStrategy \<Rightarrow> 's \<Rightarrow> address \<Rightarrow> int" where
  "amount db (FixedAmountStrategy n) s byzantine = n"
| "amount db Percent100AmountStrategy s byzantine = GetBalance db s byzantine"

text \<open>The dynamic types of a \<open>SubBalanceStrategy\<close>; the address is the field \<open>transferTo\<close>.\<close>

datatype SubBalanceStrategy =
    BurnStrategy
  | TransferStrategy address
  | TransferStrategyPtr address

record Punishment =
  p_AmountStrategy :: AmountStrategy
  p_SubBalanceStrategy :: SubBalanceStrategy

definition NewPunishment :: "AmountStrategy \<Rightarrow> SubBalanceStrategy \<Rightarrow> Punishment" where
  "NewPunishment as ss = \<lparr>p_AmountStrategy = as, p_SubBalanceStrategy = ss\<rparr>"

definition subBalance :: "'s statedb \<Rightarrow> 's \<Rightarrow> address \<Rightarrow> int \<Rightarrow> 's \<times> int" where
  "subBalance db s addr v =
     (if v \<le> 0 then (s, 0)
      else
        (let balance = GetBalance db s addr;
             v' = (if balance < v then balance else v) in
         (SetBalance db s addr (balance - v'), v')))"

definition burn_subBalance :: "'s statedb \<Rightarrow> 's \<Rightarrow> address \<Rightarrow> int \<Rightarrow> 's" where
  "burn_subBalance db s byzantine v = fst (subBalance db s byzantine v)"

definition transfer_subBalance :: "'s statedb \<Rightarrow> address \<Rightarrow> 's \<Rightarrow> address \<Rightarrow> int \<Rightarrow> 's" where
  "transfer_subBalance db transferTo s addr v =
     (let (s', v') = subBalance db s addr v in
      if v' > 0 then AddBalance db s' transferTo v' else s')"

fun ss_subBalance :: "'s statedb \<Rightarrow> SubBalanceStrategy \<Rightarrow> 's \<Rightarrow> address \<Rightarrow> int \<Rightarrow> 's" where
  "ss_subBalance db BurnStrategy s a v = burn_subBalance db s a v"
| "ss_subBalance db (TransferStrategy t) s a v = transfer_subBalance db t s a v"
| "ss_subBalance db (TransferStrategyPtr t) s a v = transfer_subBalance db t s a v"

definition Punish :: "'s statedb \<Rightarrow> Punishment \<Rightarrow> 's \<Rightarrow> address \<Rightarrow> 's" where
  "Punish db p s byzantine =
     ss_subBalance db (p_SubBalanceStrategy p) s byzantine (amount db (p_AmountStrategy p) s byzantine)"

section \<open>Slashing on evidence\<close>

text \<open>The type assertion \<open>p.SubBalanceStrategy.(TransferStrategy)\<close> succeeds for a value only, and
  then yields a copy: the assignment of the coinbase goes to that copy, and \<open>p\<close> stays as it
  is.\<close>

definition setTransferTo :: "Punishment \<Rightarrow> address \<Rightarrow> Punishment" where
  "setTransferTo p coinbase =
     (case p_SubBalanceStrategy p of
        TransferStrategy t \<Rightarrow> (let transferStrategy = TransferStrategy coinbase in p)
      | _ \<Rightarrow> p)"

definition punishOne ::
  "'x env \<Rightarrow> 's statedb \<Rightarrow> Punishment \<Rightarrow> int \<Rightarrow> Evidence \<Rightarrow> 's \<times> 'x Strategy \<Rightarrow> panic + 's \<times> 'x Strategy" where
  "punishOne e db p height ev sst =
     (let (s, st) = sst in
      panic_bind (deref (s_NextPosTable st)) (\<lambda>pt.
      case TmAddressToSignerMap pt (hexKey (evidence_Address ev)) of
        None \<Rightarrow> Inr (s, st)
      | Some signer \<Rightarrow>
          (let s' = Punish db p s signer in
           if PosItemMap pt signer \<noteq> None then
             (let (pt', err) = RemovePosItem e pt signer height True;
                  st' = st\<lparr>s_NextPosTable := Some pt'\<rparr> in
              if err \<noteq> None \<and> UnbondPosItemMap pt' signer = None
              then Inl (PanicMsg ''evil signer in neither map of NextEpochValData.PosTable'')
              else Inr (s', st'))
           else if UnbondPosItemMap pt signer = None
           then Inl (PanicMsg ''evil signer in neither map of CurrEpochValData.PosTable'')
           else Inr (s', st))))"

fun punishAll ::
  "'x env \<Rightarrow> 's statedb \<Rightarrow> Punishment \<Rightarrow> int \<Rightarrow> Evidence list \<Rightarrow> 's \<times> 'x Strategy \<Rightarrow> panic + 's \<times> 'x Strategy" where
  "punishAll e db p height [] sst = Inr sst"
| "punishAll e db p height (ev # evs) sst =
     panic_bind (punishOne e db p height ev sst) (punishAll e db p height evs)"

definition DoPunish ::
  "'x env \<Rightarrow> 's statedb \<Rightarrow> Punishment \<Rightarrow> Evidence list \<Rightarrow> address \<Rightarrow> int \<Rightarrow> 's \<times> 'x Strategy \<Rightarrow>
     panic + 's \<times> 'x Strategy" where
  "DoPunish e db p evidences coinbase currentHeight sst =
     punishAll e db (setTransferTo p coinbase) currentHeight evidences sst"

text \<open>The punishment the application is created with: \<open>NewEthermintApplication\<close> passes pointers to
  zero values.\<close>

definition appPunishment :: Punishment where
  "appPunishment = NewPunishment Percent100AmountStrategy (TransferStrategyPtr 0)"

section \<open>The contract of subBalance\<close>

definition taken :: "'s statedb \<Rightarrow> 's \<Rightarrow> address \<Rightarrow> int \<Rightarrow> int" where
  "taken db s a v = (if v \<le> 0 then 0 else min v (GetBalance db s a))"

definition gain :: "address option \<Rightarrow> address \<Rightarrow> int \<Rightarrow> int" where
  "gain sink b v = (if sink = Some b then max 0 v else 0)"

locale balance_taker =
  fixes db :: "'s statedb"
    and withdraw :: "'s \<Rightarrow> address \<Rightarrow> int \<Rightarrow> 's"
    and sink :: "address option"
  assumes effect: "statedb_laws db \<Longrightarrow>
      GetBalance db (withdraw s a v) b =
        GetBalance db s b - (if b = a then taken db s a v else 0) + gain sink b (taken db s a v)"
    and nonces: "statedb_laws db \<Longrightarrow> GetNonce db (withdraw s a v) b = GetNonce db s b"
begin

lemma withdraw_all:
  assumes "statedb_laws db" and "sink \<noteq> Some a" and "0 \<le> GetBalance db s a"
  shows "GetBalance db (withdraw s a (GetBalance db s a)) a = 0"
  using assms effect [of s a "GetBalance db s a" a] by (simp add: taken_def gain_def)

lemma withdraw_keeps_nonneg:
  assumes "statedb_laws db" and "\<And>b. 0 \<le> GetBalance db s b"
  shows "0 \<le> GetBalance db (withdraw s a v) b"
  using assms(2) [of a] assms(2) [of b] effect [OF assms(1), of s a v b]
  by (auto simp: taken_def gain_def)

lemma withdraw_only_sink_gains:
  assumes "statedb_laws db" and "0 \<le> GetBalance db s a" and "sink \<noteq> Some b"
  shows "GetBalance db (withdraw s a v) b \<le> GetBalance db s b"
  using assms effect [of s a v b] by (auto simp: taken_def gain_def)

lemma withdraw_total:
  assumes "statedb_laws db" and "finite A" and "a \<in> A" and "0 \<le> GetBalance db s a"
    and "set_option sink \<subseteq> A"
  shows "totalBalance db A (withdraw s a v) =
    totalBalance db A s - (if sink = None then taken db s a v else 0)"
proof -
  have t: "0 \<le> taken db s a v" using assms(4) by (simp add: taken_def)
  have "totalBalance db A (withdraw s a v) =
      (\<Sum>b \<in> A. GetBalance db s b - (if b = a then taken db s a v else 0) + gain sink b (taken db s a v))"
    unfolding totalBalance_def by (simp add: effect [OF assms(1)])
  also have "\<dots> = totalBalance db A s - taken db s a v + (\<Sum>b \<in> A. gain sink b (taken db s a v))"
    using assms(2,3) by (simp add: totalBalance_def sum.distrib sum_subtractf)
  also have "(\<Sum>b \<in> A. gain sink b (taken db s a v)) = (if sink = None then 0 else taken db s a v)"
    using assms(2,5) t by (cases sink) (auto simp: gain_def)
  finally show ?thesis by simp
qed

end

interpretation burn: balance_taker db "burn_subBalance db" None
  for db :: "'s statedb"
  by unfold_locales
    (auto simp: burn_subBalance_def subBalance_def Let_def taken_def gain_def statedb_lawsD)

interpretation transfer: balance_taker db "transfer_subBalance db t" "Some t"
  for db :: "'s statedb" and t
  by unfold_locales
    (auto simp: transfer_subBalance_def subBalance_def Let_def taken_def gain_def statedb_lawsD)

fun sinkOf :: "SubBalanceStrategy \<Rightarrow> address option" where
  "sinkOf BurnStrategy = None"
| "sinkOf (TransferStrategy t) = Some t"
| "sinkOf (TransferStrategyPtr t) = Some t"

interpretation punisher: balance_taker db "ss_subBalance db ss" "sinkOf ss"
  for db :: "'s statedb" and ss
  by (cases ss; unfold_locales)
    (simp_all add: burn.effect burn.nonces transfer.effect transfer.nonces)

section \<open>What slashing does to balances\<close>

lemma setTransferTo_id [simp]: "setTransferTo p c = p"
  by (simp add: setTransferTo_def split: SubBalanceStrategy.splits)

text \<open>The balances may be read as amounts of money.\<close>

definition solvent :: "'s statedb \<Rightarrow> 's \<Rightarrow> bool" where
  "solvent db s \<longleftrightarrow> (\<forall>b. 0 \<le> GetBalance db s b)"

lemma Punish_solvent: "statedb_laws db \<Longrightarrow> solvent db s \<Longrightarrow> solvent db (Punish db p s a)"
  unfolding solvent_def Punish_def by (blast intro: punisher.withdraw_keeps_nonneg)

lemma Punish_total:
  assumes "statedb_laws db" and "solvent db s" and "p_SubBalanceStrategy p \<noteq> BurnStrategy"
  shows "totalBalance db UNIV (Punish db p s a) = totalBalance db UNIV s"
proof -
  obtain t where "sinkOf (p_SubBalanceStrategy p) = Some t"
    using assms(3) by (cases "p_SubBalanceStrategy p") auto
  then show ?thesis
    unfolding Punish_def
    using assms(2) punisher.withdraw_total [OF assms(1), of UNIV a s "p_SubBalanceStrategy p"]
    by (simp add: solvent_def)
qed

lemma Punish_no_gain:
  assumes "statedb_laws db" and "solvent db s" and "sinkOf (p_SubBalanceStrategy p) \<noteq> Some b"
  shows "GetBalance db (Punish db p s a) b \<le> GetBalance db s b"
  unfolding Punish_def using assms punisher.withdraw_only_sink_gains by (metis solvent_def)

lemma Punish_empties:
  assumes "statedb_laws db" and "solvent db s" and "p_AmountStrategy p = Percent100AmountStrategy"
    and "sinkOf (p_SubBalanceStrategy p) \<noteq> Some a"
  shows "GetBalance db (Punish db p s a) a = 0"
  unfolding Punish_def using assms by (simp add: solvent_def punisher.withdraw_all)

lemma punishOne_state:
  assumes "punishOne e db p h ev (s, st) = Inr (s', st')"
  shows "s' = s \<or> (\<exists>a. s' = Punish db p s a)"
  using assms by (auto simp: punishOne_def Let_def split: option.splits if_splits prod.splits)

text \<open>A property of the account state that every single punishment keeps is kept by the whole
  run.\<close>

lemma punishAll_state_induct:
  assumes "punishAll e db p h evs (s, st) = Inr (s', st')" and "P s"
    and "\<And>s a. P s \<Longrightarrow> P (Punish db p s a)"
  shows "P s'"
  using assms(1,2)
proof (induction evs arbitrary: s st)
  case (Cons ev evs)
  then obtain s1 st1 where "punishOne e db p h ev (s, st) = Inr (s1, st1)"
    and r: "punishAll e db p h evs (s1, st1) = Inr (s', st')" by auto
  with punishOne_state assms(3) Cons.prems(2) have "P s1" by metis
  with r show ?case by (rule Cons.IH)
qed simp

text \<open>C17. Slashing creates and destroys no money as long as the strategy is a transfer, as the
  application's is: the total balance of all accounts is the same before and after \<open>DoPunish\<close>,
  for every list of evidence.\<close>

theorem DoPunish_conserves:
  assumes "statedb_laws db" and "solvent db s" and "p_SubBalanceStrategy p \<noteq> BurnStrategy"
    and "DoPunish e db p evidences coinbase h (s, st) = Inr (s', st')"
  shows "solvent db s' \<and> totalBalance db UNIV s' = totalBalance db UNIV s"
proof -
  have "punishAll e db p h evidences (s, st) = Inr (s', st')" using assms(4) by (simp add: DoPunish_def)
  then show ?thesis
    by (rule punishAll_state_induct [where P = "\<lambda>x. solvent db x \<and> totalBalance db UNIV x = totalBalance db UNIV s"])
      (use assms in \<open>simp_all add: Punish_solvent Punish_total\<close>)
qed

text \<open>C31. The proposer gets nothing of what is slashed. Under the punishment the application is
  created with, no account but the zero address can gain by \<open>DoPunish\<close>, and the coinbase passed to it
  makes no difference, although the code means to set it as the receiver.\<close>

theorem DoPunish_coinbase_gets_nothing:
  assumes "statedb_laws db" and "solvent db s"
    and "DoPunish e db appPunishment evidences coinbase h (s, st) = Inr (s', st')"
  shows "(\<forall>b. b \<noteq> 0 \<longrightarrow> GetBalance db s' b \<le> GetBalance db s b) \<and>
    (\<forall>c. DoPunish e db appPunishment evidences c h (s, st) = Inr (s', st'))"
proof -
  have run: "punishAll e db appPunishment h evidences (s, st) = Inr (s', st')"
    using assms(3) by (simp add: DoPunish_def)
  have sink: "sinkOf (p_SubBalanceStrategy appPunishment) = Some 0"
    by (simp add: appPunishment_def NewPunishment_def)
  have "solvent db s' \<and> (\<forall>b. b \<noteq> 0 \<longrightarrow> GetBalance db s' b \<le> GetBalance db s b)"
  proof (rule punishAll_state_induct [OF run])
    fix x a
    assume x: "solvent db x \<and> (\<forall>b. b \<noteq> 0 \<longrightarrow> GetBalance db x b \<le> GetBalance db s b)"
    have "GetBalance db (Punish db appPunishment x a) b \<le> GetBalance db s b" if "b \<noteq> 0" for b
      using Punish_no_gain [OF assms(1) conjunct1 [OF x], of appPunishment b a] sink that x
      by (fastforce intro: order_trans)
    with x Punish_solvent [OF assms(1)] show "solvent db (Punish db appPunishment x a) \<and>
        (\<forall>b. b \<noteq> 0 \<longrightarrow> GetBalance db (Punish db appPunishment x a) b \<le> GetBalance db s b)" by blast
  qed (use assms(2) in simp)
  with run show ?thesis by (simp add: DoPunish_def)
qed

section \<open>What slashing does to the table\<close>

text \<open>Every known Tendermint address belongs to a signer that is bonded or unbonding, not both.\<close>

definition table_consistent :: "'x PosTable \<Rightarrow> bool" where
  "table_consistent pt \<longleftrightarrow>
     ran (TmAddressToSignerMap pt) \<subseteq> dom (PosItemMap pt) \<union> dom (UnbondPosItemMap pt) \<and>
     dom (PosItemMap pt) \<inter> dom (UnbondPosItemMap pt) = {}"

text \<open>The contract of \<open>RemovePosItem\<close> on a bonded signer: it moves the item to the unbonding ones and
  leaves the address map alone; it fails on a signer that is already unbonding only, and then
  changes nothing.\<close>

definition removePosItem_laws :: "'x env \<Rightarrow> bool" where
  "removePosItem_laws e \<longleftrightarrow>
     (\<forall>pt a h slash. a \<in> dom (PosItemMap pt) \<longrightarrow>
        (case RemovePosItem e pt a h slash of (pt', err) \<Rightarrow>
           if err = None then
             PosItemMap pt' = (PosItemMap pt)(a := None) \<and>
             dom (UnbondPosItemMap pt') = insert a (dom (UnbondPosItemMap pt)) \<and>
             TmAddressToSignerMap pt' = TmAddressToSignerMap pt
           else a \<in> dom (UnbondPosItemMap pt) \<and> pt' = pt))"

lemma removePosItem_lawsD:
  assumes "removePosItem_laws e" and "a \<in> dom (PosItemMap pt)"
    and "RemovePosItem e pt a h slash = (pt', err)" and "a \<notin> dom (UnbondPosItemMap pt)"
  shows "err = None \<and> PosItemMap pt' = (PosItemMap pt)(a := None) \<and>
    dom (UnbondPosItemMap pt') = insert a (dom (UnbondPosItemMap pt)) \<and>
    TmAddressToSignerMap pt' = TmAddressToSignerMap pt"
  using assms(1) [unfolded removePosItem_laws_def, rule_format, OF assms(2), of h slash] assms(3,4)
  by (simp split: if_splits)

lemma removePosItem_bonded:
  assumes "removePosItem_laws e" and "table_consistent pt" and "a \<in> dom (PosItemMap pt)"
  obtains pt' where "RemovePosItem e pt a h slash = (pt', None)"
    and "PosItemMap pt' = (PosItemMap pt)(a := None)"
    and "dom (UnbondPosItemMap pt') = insert a (dom (UnbondPosItemMap pt))"
    and "TmAddressToSignerMap pt' = TmAddressToSignerMap pt" and "table_consistent pt'"
proof -
  obtain pt' err where r: "RemovePosItem e pt a h slash = (pt', err)" by fastforce
  have "a \<notin> dom (UnbondPosItemMap pt)" using assms(2,3) by (auto simp: table_consistent_def)
  note * = removePosItem_lawsD [OF assms(1,3) r this]
  with assms(2) have "table_consistent pt'" unfolding table_consistent_def by auto
  with r * that show ?thesis by blast
qed

lemma punishOne_consistent:
  assumes laws: "removePosItem_laws e" and pt: "s_NextPosTable st = Some pt" and c: "table_consistent pt"
  obtains s' st' pt' where "punishOne e db p h ev (s, st) = Inr (s', st')"
    and "s_NextPosTable st' = Some pt'" and "table_consistent pt'"
    and "TmAddressToSignerMap pt' = TmAddressToSignerMap pt"
    and "dom (PosItemMap pt') \<subseteq> dom (PosItemMap pt)"
    and "\<And>a. TmAddressToSignerMap pt (hexKey (evidence_Address ev)) = Some a \<Longrightarrow>
      s' = Punish db p s a \<and> a \<notin> dom (PosItemMap pt')"
proof (cases "TmAddressToSignerMap pt (hexKey (evidence_Address ev))")
  case None
  with pt c that [of s st pt] show ?thesis by (simp add: punishOne_def)
next
  case (Some a)
  show ?thesis
  proof (cases "a \<in> dom (PosItemMap pt)")
    case True
    obtain pt' where r: "RemovePosItem e pt a h True = (pt', None)"
      and d: "PosItemMap pt' = (PosItemMap pt)(a := None)"
        "TmAddressToSignerMap pt' = TmAddressToSignerMap pt" "table_consistent pt'"
      by (rule removePosItem_bonded [OF laws c True])
    have "punishOne e db p h ev (s, st) = Inr (Punish db p s a, st\<lparr>s_NextPosTable := Some pt'\<rparr>)"
      using Some True pt r by (auto simp: punishOne_def Let_def)
    then show ?thesis by (rule that [of _ _ pt']) (use Some d in auto)
  next
    case False
    have "a \<in> dom (UnbondPosItemMap pt)"
      using c False ranI [of "TmAddressToSignerMap pt", OF Some] by (auto simp: table_consistent_def)
    then have "punishOne e db p h ev (s, st) = Inr (Punish db p s a, st)"
      using Some False pt by (auto simp: punishOne_def Let_def)
    then show ?thesis by (rule that) (use Some False pt c in auto)
  qed
qed

lemma punishAll_consistent:
  assumes laws: "removePosItem_laws e" "statedb_laws db" and pt: "s_NextPosTable st = Some pt"
    and c: "table_consistent pt" and sv: "solvent db s"
    and p100: "p_AmountStrategy p = Percent100AmountStrategy"
  shows "\<exists>s' st' pt'. punishAll e db p h evs (s, st) = Inr (s', st') \<and>
    s_NextPosTable st' = Some pt' \<and> table_consistent pt' \<and> solvent db s' \<and>
    TmAddressToSignerMap pt' = TmAddressToSignerMap pt \<and> dom (PosItemMap pt') \<subseteq> dom (PosItemMap pt) \<and>
    (\<forall>a. sinkOf (p_SubBalanceStrategy p) \<noteq> Some a \<longrightarrow> GetBalance db s' a \<le> GetBalance db s a) \<and>
    (\<forall>ev a. ev \<in> set evs \<and> TmAddressToSignerMap pt (hexKey (evidence_Address ev)) = Some a \<longrightarrow>
       a \<notin> dom (PosItemMap pt') \<and>
       (sinkOf (p_SubBalanceStrategy p) \<noteq> Some a \<longrightarrow> GetBalance db s' a = 0))"
  using pt c sv
proof (induction evs arbitrary: s st pt)
  case Nil
  then show ?case by simp
next
  case (Cons ev evs)
  obtain s1 st1 pt1 where one: "punishOne e db p h ev (s, st) = Inr (s1, st1)"
    and pt1: "s_NextPosTable st1 = Some pt1" "table_consistent pt1"
    and same: "TmAddressToSignerMap pt1 = TmAddressToSignerMap pt"
      "dom (PosItemMap pt1) \<subseteq> dom (PosItemMap pt)"
    and hit: "\<And>a. TmAddressToSignerMap pt (hexKey (evidence_Address ev)) = Some a \<Longrightarrow>
      s1 = Punish db p s a \<and> a \<notin> dom (PosItemMap pt1)"
    by (rule punishOne_consistent [OF laws(1) Cons.prems(1,2), of db p h ev s]) (rule that, blast+)
  have s1: "solvent db s1" "\<And>a. sinkOf (p_SubBalanceStrategy p) \<noteq> Some a \<Longrightarrow> GetBalance db s1 a \<le> GetBalance db s a"
    using punishOne_state [OF one] Punish_solvent [OF laws(2)] Punish_no_gain [OF laws(2)] Cons.prems(3)
    by auto
  obtain s' st' pt' where rest: "punishAll e db p h evs (s1, st1) = Inr (s', st')"
    "s_NextPosTable st' = Some pt'" "table_consistent pt'" "solvent db s'"
    "TmAddressToSignerMap pt' = TmAddressToSignerMap pt1" "dom (PosItemMap pt') \<subseteq> dom (PosItemMap pt1)"
    and less: "\<And>a. sinkOf (p_SubBalanceStrategy p) \<noteq> Some a \<Longrightarrow> GetBalance db s' a \<le> GetBalance db s1 a"
    and later: "\<And>ev a. ev \<in> set evs \<Longrightarrow> TmAddressToSignerMap pt1 (hexKey (evidence_Address ev)) = Some a \<Longrightarrow>
       a \<notin> dom (PosItemMap pt') \<and> (sinkOf (p_SubBalanceStrategy p) \<noteq> Some a \<longrightarrow> GetBalance db s' a = 0)"
    using Cons.IH [OF pt1 s1(1)] by blast
  have now: "a \<notin> dom (PosItemMap pt') \<and> (sinkOf (p_SubBalanceStrategy p) \<noteq> Some a \<longrightarrow> GetBalance db s' a = 0)"
    if "TmAddressToSignerMap pt (hexKey (evidence_Address ev)) = Some a" for a
  proof
    from hit [OF that] rest(6) show "a \<notin> dom (PosItemMap pt')" by blast
    have "sinkOf (p_SubBalanceStrategy p) \<noteq> Some a \<Longrightarrow> GetBalance db s' a \<le> 0"
      using hit [OF that] Punish_empties [OF laws(2) Cons.prems(3) p100, of a] less [of a] by simp
    with rest(4) show "sinkOf (p_SubBalanceStrategy p) \<noteq> Some a \<longrightarrow> GetBalance db s' a = 0"
      by (simp add: solvent_def order_antisym)
  qed
  have all: "a \<notin> dom (PosItemMap pt') \<and> (sinkOf (p_SubBalanceStrategy p) \<noteq> Some a \<longrightarrow> GetBalance db s' a = 0)"
    if "ev' \<in> set (ev # evs) \<and> TmAddressToSignerMap pt (hexKey (evidence_Address ev')) = Some a" for ev' a
    using that now [of a] later [of ev' a] same(1) by (cases "ev' = ev") auto
  have le: "GetBalance db s' a \<le> GetBalance db s a" if "sinkOf (p_SubBalanceStrategy p) \<noteq> Some a" for a
    using less [OF that] s1(2) [OF that] by linarith
  have "punishAll e db p h (ev # evs) (s, st) = Inr (s', st')" using one rest(1) by simp
  moreover have "dom (PosItemMap pt') \<subseteq> dom (PosItemMap pt)" using rest(6) same(2) by blast
  ultimately show ?case using rest(2-5) same(1) all le by metis
qed

text \<open>C16. Slashing is total and thorough. On a consistent table \<open>DoPunish\<close> never panics, keeps the
  table consistent, and afterwards every signer with evidence against it (found in the address map)
  has left the bonded table, is unbonding, and owns nothing (unless it is the receiving address of
  the transfer).\<close>

theorem DoPunish_slashes:
  assumes "removePosItem_laws e" and "statedb_laws db" and "s_NextPosTable st = Some pt"
    and "table_consistent pt" and "solvent db s"
  shows "\<exists>s' st' pt'. DoPunish e db appPunishment evidences coinbase h (s, st) = Inr (s', st') \<and>
    s_NextPosTable st' = Some pt' \<and> table_consistent pt' \<and>
    (\<forall>ev a. ev \<in> set evidences \<and> TmAddressToSignerMap pt (hexKey (evidence_Address ev)) = Some a \<longrightarrow>
       PosItemMap pt' a = None \<and> UnbondPosItemMap pt' a \<noteq> None \<and> (a \<noteq> 0 \<longrightarrow> GetBalance db s' a = 0))"
proof -
  have p: "p_AmountStrategy appPunishment = Percent100AmountStrategy"
    "sinkOf (p_SubBalanceStrategy appPunishment) = Some 0"
    by (simp_all add: appPunishment_def NewPunishment_def)
  obtain s' st' pt' where r: "punishAll e db appPunishment h evidences (s, st) = Inr (s', st')"
    "s_NextPosTable st' = Some pt'" "table_consistent pt'"
    "TmAddressToSignerMap pt' = TmAddressToSignerMap pt"
    and hit: "\<And>ev a. ev \<in> set evidences \<Longrightarrow> TmAddressToSignerMap pt (hexKey (evidence_Address ev)) = Some a \<Longrightarrow>
       a \<notin> dom (PosItemMap pt') \<and> (Some 0 \<noteq> Some a \<longrightarrow> GetBalance db s' a = 0)"
    using punishAll_consistent [OF assms p(1), of h evidences] unfolding p(2) by blast
  have unb: "UnbondPosItemMap pt' a \<noteq> None" if "TmAddressToSignerMap pt k = Some a" "PosItemMap pt' a = None" for a k
    using r(3,4) that ranI [of "TmAddressToSignerMap pt" k a] by (auto simp: table_consistent_def)
  have "PosItemMap pt' a = None \<and> UnbondPosItemMap pt' a \<noteq> None \<and> (a \<noteq> 0 \<longrightarrow> GetBalance db s' a = 0)"
    if "ev \<in> set evidences \<and> TmAddressToSignerMap pt (hexKey (evidence_Address ev)) = Some a" for ev a
    using hit [of ev a] unb [of "hexKey (evidence_Address ev)" a] that by (auto simp: domIff)
  with r show ?thesis
    by (intro exI [of _ s'] exI [of _ st'] exI [of _ pt']) (simp add: DoPunish_def)
qed

section \<open>Witnesses\<close>

definition sampleState :: "address \<Rightarrow> int \<times> uint64" where
  "sampleState = (\<lambda>a. (if a = 1 then 500 else if a = 3 then 90 else 0, 0))"

definition sampleEvidence :: Evidence where
  "sampleEvidence = \<lparr>evidence_Address = [0xA1]\<rparr>"

lemma sample_solvent: "solvent map_statedb sampleState"
  by (simp add: solvent_def sampleState_def map_statedb_def)

lemma sample_key: "hexKey (evidence_Address sampleEvidence) = ''A1''"
  by (simp add: sampleEvidence_def upper_hextable_def)

lemma sample_consistent: "table_consistent samplePosTable"
  by (auto simp: table_consistent_def samplePosTable_def ran_def split: if_splits)

lemma sample_removePosItem_laws: "removePosItem_laws sampleEnv"
  by (auto simp: removePosItem_laws_def sampleEnv_def)

lemma sample_next: "s_NextPosTable (sampleStrategy v n) = Some samplePosTable"
  by (simp add: sampleStrategy_def)

lemmas sample_punish_facts =
  sample_removePosItem_laws map_statedb_laws sample_next sample_consistent sample_solvent

lemma sample_punish_run:
  obtains s' st' where "DoPunish sampleEnv map_statedb appPunishment [sampleEvidence] 7 5
      (sampleState, sampleStrategy 5 0) = Inr (s', st')"
  using punishAll_consistent [OF sample_punish_facts, of appPunishment 5 "[sampleEvidence]" 5 0] that
  by (auto simp: DoPunish_def appPunishment_def NewPunishment_def)

theorem DoPunish_conserves_witness:
  "\<exists>s' st'. DoPunish sampleEnv map_statedb appPunishment [sampleEvidence] 7 5
      (sampleState, sampleStrategy 5 0) = Inr (s', st') \<and>
    totalBalance map_statedb UNIV s' = totalBalance map_statedb UNIV sampleState"
proof -
  obtain s' st' where run: "DoPunish sampleEnv map_statedb appPunishment [sampleEvidence] 7 5
      (sampleState, sampleStrategy 5 0) = Inr (s', st')" by (rule sample_punish_run)
  from DoPunish_conserves [OF map_statedb_laws sample_solvent _ run] run show ?thesis
    by (auto simp: appPunishment_def NewPunishment_def)
qed

theorem DoPunish_coinbase_gets_nothing_witness:
  "\<exists>s' st'. DoPunish sampleEnv map_statedb appPunishment [sampleEvidence] 7 5
      (sampleState, sampleStrategy 5 0) = Inr (s', st') \<and>
    GetBalance map_statedb s' 7 \<le> GetBalance map_statedb sampleState 7"
proof -
  obtain s' st' where run: "DoPunish sampleEnv map_statedb appPunishment [sampleEvidence] 7 5
      (sampleState, sampleStrategy 5 0) = Inr (s', st')" by (rule sample_punish_run)
  from DoPunish_coinbase_gets_nothing [OF map_statedb_laws sample_solvent run] run show ?thesis
    by auto
qed

theorem DoPunish_slashes_witness:
  "\<exists>s' st' pt'. DoPunish sampleEnv map_statedb appPunishment [sampleEvidence] 7 5
      (sampleState, sampleStrategy 5 0) = Inr (s', st') \<and> s_NextPosTable st' = Some pt' \<and>
    PosItemMap pt' 1 = None \<and> UnbondPosItemMap pt' 1 \<noteq> None \<and> GetBalance map_statedb s' 1 = 0"
proof -
  have "TmAddressToSignerMap samplePosTable (hexKey (evidence_Address sampleEvidence)) = Some 1"
    unfolding sample_key by (simp add: samplePosTable_def)
  with DoPunish_slashes [OF sample_punish_facts, of "[sampleEvidence]" 7 5 5 0] show ?thesis
    by (metis list.set_intros(1) zero_neq_one)
qed

end
