(* ===== verification/Codes.thy ===== *)
theory Codes
  imports Prelude
begin

text \<open>
  The ABCI result codes of \<open>src/types/errors.go\<close> and the responses to \<open>CheckTx\<close> and \<open>DeliverTx\<close>.
  A response is its code and, for the log text, the reason the handler gives, as a value of
  \<open>reason\<close> (the handlers build the text with \<open>fmt.Sprintf\<close>; nothing reads it back).
  The code 0 is success in the ABCI protocol (\<open>abciTypes.CodeTypeOK\<close>).
\<close>

type_synonym CodeType = "32 word"

definition CodeOK :: CodeType where "CodeOK = 0"
definition CodeInternal :: CodeType where "CodeInternal = 1"
definition CodeTxDecode :: CodeType where "CodeTxDecode = 2"
definition CodeInvalidSequence :: CodeType where "CodeInvalidSequence = 3"
definition CodeUnauthorized :: CodeType where "CodeUnauthorized = 4"
definition CodeInsufficientFunds :: CodeType where "CodeInsufficientFunds = 5"
definition CodeUnknownRequest :: CodeType where "CodeUnknownRequest = 6"
definition CodeInvalidAddress :: CodeType where "CodeInvalidAddress = 7"
definition CodeInvalidPubKey :: CodeType where "CodeInvalidPubKey = 8"
definition CodeUnknownAddress :: CodeType where "CodeUnknownAddress = 9"
definition CodeInsufficientCoins :: CodeType where "CodeInsufficientCoins = 10"
definition CodeInvalidCoins :: CodeType where "CodeInvalidCoins = 11"
definition CodeOutOfGas :: CodeType where "CodeOutOfGas = 12"
definition CodeMemoTooLarge :: CodeType where "CodeMemoTooLarge = 13"
definition CodeInsufficientFee :: CodeType where "CodeInsufficientFee = 14"
definition CodeTooManySignatures :: CodeType where "CodeTooManySignatures = 15"

definition IsOK :: "CodeType \<Rightarrow> bool" where
  "IsOK code = (if code = CodeOK then True else False)"

lemmas code_defs = CodeOK_def CodeInternal_def CodeTxDecode_def CodeInvalidSequence_def
  CodeUnauthorized_def CodeInsufficientFunds_def CodeUnknownRequest_def CodeInvalidAddress_def
  CodeInvalidPubKey_def CodeUnknownAddress_def CodeInsufficientCoins_def CodeInvalidCoins_def
  CodeOutOfGas_def CodeMemoTooLarge_def CodeInsufficientFee_def CodeTooManySignatures_def

definition all_codes :: "CodeType list" where
  "all_codes = [CodeOK, CodeInternal, CodeTxDecode, CodeInvalidSequence, CodeUnauthorized,
     CodeInsufficientFunds, CodeUnknownRequest, CodeInvalidAddress, CodeInvalidPubKey,
     CodeUnknownAddress, CodeInsufficientCoins, CodeInvalidCoins, CodeOutOfGas, CodeMemoTooLarge,
     CodeInsufficientFee, CodeTooManySignatures]"

lemma all_codes_distinct: "distinct all_codes"
  by (simp add: all_codes_def code_defs)

lemma IsOK_iff [simp]: "IsOK c \<longleftrightarrow> c = CodeOK"
  by (simp add: IsOK_def)

lemma error_codes_not_OK [simp]:
  "CodeInternal \<noteq> CodeOK" "CodeInvalidSequence \<noteq> CodeOK" "CodeInsufficientFunds \<noteq> CodeOK"
  "CodeInvalidAddress \<noteq> CodeOK" "CodeInsufficientCoins \<noteq> CodeOK" "CodeInvalidCoins \<noteq> CodeOK"
  by (simp_all add: code_defs)

text \<open>The reasons the transaction handlers give in the log of a response.\<close>

datatype reason =
    NoReason
  | DecodeError string
  | ErrOversizedData
  | ErrInvalidSender
  | SubTxDecodeFailed
  | RelayerMismatch string
  | SubTxWithVRSFailed
  | RelayerSignatureFailed
  | ErrNegativeValue
  | ErrGasLimitReached
  | NonceMismatch
  | BalanceTooLow
  | IntrinsicGasError string
  | TxBlocked string
  | AuthTxFailed string
  | MintTxFailed string
  | ApplyError string

record ResponseCheckTx =
  rc_Code :: CodeType
  rc_Log :: reason
  GasWanted :: int

record ResponseDeliverTx =
  rd_Code :: CodeType
  rd_Log :: reason

definition rejectTx :: "CodeType \<Rightarrow> reason \<Rightarrow> ResponseCheckTx" where
  "rejectTx c r = \<lparr>rc_Code = c, rc_Log = r, GasWanted = 0\<rparr>"

lemma rejectTx_code [simp]: "rc_Code (rejectTx c r) = c"
  by (simp add: rejectTx_def)

end
