(* ===== verification/EthState.thy ===== *)
theory EthState
  imports Punishment Codes
begin

text \<open>
  \<open>src/ethereum/eth_state.go\<close>: the working state of the block under construction, delivery of
  transactions to it, block rewards, and commit. The go-ethereum block chain is a state of
  arbitrary type \<open>'c\<close> with blocks of type \<open>'b\<close>; its operations are the fields of \<open>ethenv\<close>.
  A transaction may change the tables of package txfilter while it runs, so
  \<open>ApplyTransactionWithInfo\<close> also threads a world of type \<open>'w\<close>, which the application
  instantiates with those tables. The mutex only serialises the calls and the time stamp \<open>bstart\<close>
  feeds a statistic; neither is modelled.
\<close>

section \<open>Data\<close>

record Header =
  hd_Number :: int
  ParentHash :: hash
  GasLimit :: uint64
  Coinbase :: address
  GasUsed :: uint64
  hd_Time :: uint64
  hd_Difficulty :: int
  Root :: hash

record 'l Log =
  log_BlockHash :: hash
  log_rest :: 'l

record 'l Receipt =
  r_Logs :: "'l Log list"
  r_rest :: 'l

record ('c, 'b, 's, 'l, 'w) ethenv =
  \<comment> \<open>the block chain\<close>
  bc_State :: "'c \<Rightarrow> string + 's"
  CurrentBlock :: "'c \<Rightarrow> 'b"
  PendingBlockNumber :: "'c \<Rightarrow> int"
  WriteBlockWithState :: "'c \<Rightarrow> 'b \<Rightarrow> 'l Receipt list \<Rightarrow> 'l Log list \<Rightarrow> 's \<Rightarrow> 'c \<times> string option"
  \<comment> \<open>blocks\<close>
  b_Number :: "'b \<Rightarrow> int"
  b_Hash :: "'b \<Rightarrow> hash"
  b_Difficulty :: "'b \<Rightarrow> int"
  b_Time :: "'b \<Rightarrow> uint64"
  NewBlock :: "Header \<Rightarrow> Transaction list \<Rightarrow> 'l Receipt list \<Rightarrow> 'b"
  CalcGasLimit :: "'b \<Rightarrow> uint64"
  \<comment> \<open>of the parent: difficulty, number and time\<close>
  CalcDifficulty :: "'c \<Rightarrow> uint64 \<Rightarrow> int \<times> int \<times> uint64 \<Rightarrow> int"
  \<comment> \<open>the account state and the execution of a transaction: gas pool, state, used gas and world
    are changed in place\<close>
  state_Commit :: "'s \<Rightarrow> 's \<times> (string + hash)"
  Prepare :: "'s \<Rightarrow> hash \<Rightarrow> hash \<Rightarrow> int \<Rightarrow> 's"
  GetLogs :: "'s \<Rightarrow> hash \<Rightarrow> 'l Log list"
  ApplyTransactionWithInfo ::
    "'c \<Rightarrow> Header \<Rightarrow> Transaction \<Rightarrow> TxInfo \<Rightarrow> uint64 \<times> 's \<times> uint64 \<times> 'w \<Rightarrow>
       (uint64 \<times> 's \<times> uint64 \<times> 'w) \<times> (string + 'l Receipt)"

record ('b, 's, 'l) workState =
  ws_header :: Header
  parent :: 'b
  ws_height :: int
  ws_state :: 's
  txIndex :: int
  transactions :: "Transaction list"
  receipts :: "'l Receipt list"
  allLogs :: "'l Log list"
  totalUsedGas :: uint64
  gp :: uint64

section \<open>Headers and the reset of the working state\<close>

definition newBlockHeader :: "('c, 'b, 's, 'l, 'w) ethenv \<Rightarrow> address \<Rightarrow> 'b \<Rightarrow> Header" where
  "newBlockHeader en receiver prevBlock =
     \<lparr>hd_Number = b_Number en prevBlock + 1, ParentHash = b_Hash en prevBlock,
      GasLimit = CalcGasLimit en prevBlock, Coinbase = receiver, GasUsed = 0, hd_Time = 0,
      hd_Difficulty = 0, Root = 0\<rparr>"

definition resetWorkState ::
  "('c, 'b, 's, 'l, 'w) ethenv \<Rightarrow> 'c \<Rightarrow> address \<Rightarrow> string + ('b, 's, 'l) workState" where
  "resetWorkState en bc receiver =
     (case bc_State en bc of
        Inl err \<Rightarrow> Inl err
      | Inr s \<Rightarrow>
          (let currentBlock = CurrentBlock en bc;
               ethHeader = newBlockHeader en receiver currentBlock in
           Inr \<lparr>ws_header = ethHeader, parent = currentBlock,
                ws_height = big_Int64 (PendingBlockNumber en bc), ws_state = s, txIndex = 0,
                transactions = [], receipts = [], allLogs = [], totalUsedGas = 0,
                gp = GasLimit ethHeader\<rparr>))"

definition updateHeaderCoinbase :: "address \<Rightarrow> ('b, 's, 'l) workState \<Rightarrow> ('b, 's, 'l) workState" where
  "updateHeaderCoinbase coinbase ws = ws\<lparr>ws_header := (ws_header ws)\<lparr>Coinbase := coinbase\<rparr>\<rparr>"

definition updateHeaderWithTimeInfo ::
  "('c, 'b, 's, 'l, 'w) ethenv \<Rightarrow> 'c \<Rightarrow> uint64 \<Rightarrow> ('b, 's, 'l) workState \<Rightarrow> ('b, 's, 'l) workState" where
  "updateHeaderWithTimeInfo en bc parentTime ws =
     ws\<lparr>ws_header := (ws_header ws)
          \<lparr>hd_Time := parentTime,
           hd_Difficulty := CalcDifficulty en bc parentTime
             (b_Difficulty en (parent ws), b_Number en (parent ws), b_Time en (parent ws))\<rparr>,
        transactions := [], receipts := [], allLogs := []\<rparr>"

definition es_GasLimit :: "('b, 's, 'l) workState \<Rightarrow> uint64" where
  "es_GasLimit ws = gp ws"

section \<open>Delivery of a transaction\<close>

definition errorCode :: CodeType where "errorCode = 1"

definition deliverTx ::
  "('c, 'b, 's, 'l, 'w) ethenv \<Rightarrow> 'c \<Rightarrow> Transaction \<Rightarrow> TxInfo \<Rightarrow> ('b, 's, 'l) workState \<times> 'w \<Rightarrow>
     (('b, 's, 'l) workState \<times> 'w) \<times> ResponseDeliverTx" where
  "deliverTx en bc tx txInfo wsw =
     (let (ws, w) = wsw;
          s0 = Prepare en (ws_state ws) (tx_Hash tx) 0 (txIndex ws);
          ((gp', s', used', w'), res) =
            ApplyTransactionWithInfo en bc (ws_header ws) tx txInfo (gp ws, s0, totalUsedGas ws, w);
          ws' = ws\<lparr>gp := gp', ws_state := s', totalUsedGas := used'\<rparr> in
      case res of
        Inl err \<Rightarrow> ((ws', w'), \<lparr>rd_Code = errorCode, rd_Log = ApplyError err\<rparr>)
      | Inr receipt \<Rightarrow>
          ((ws'\<lparr>txIndex := i64 (txIndex ws + 1), transactions := transactions ws @ [tx],
               receipts := receipts ws @ [receipt],
               allLogs := allLogs ws @ GetLogs en s' (tx_Hash tx)\<rparr>, w'),
           \<lparr>rd_Code = CodeOK, rd_Log = NoReason\<rparr>))"

section \<open>Block rewards\<close>

text \<open>1 percent of the total balance per year, at a block every five seconds.\<close>

definition yearlyDivisor :: int where
  "yearlyDivisor = 100 * (365 * 24 * 60 * 60 div 5)"

definition voteWeight :: "VoteInfo list \<Rightarrow> int" where
  "voteWeight vs =
     fold (\<lambda>v w. if SignedLastBlock v then i64 (w + vi_Power v) else w) vs 0"

definition voteBeneficiary :: "'x Strategy \<Rightarrow> VoteInfo \<Rightarrow> panic + address" where
  "voteBeneficiary st v =
     panic_bind (deref (cev_PosTable (s_CurrEpoch st))) (\<lambda>pt.
       case TmAddressToSignerMap pt (hexKey (vi_Address v)) of
         None \<Rightarrow> Inl (PanicMsg ''address not exist in TmAddressToSignerMap'')
       | Some signer \<Rightarrow>
           (case PosItemMap pt signer of
              Some posItem \<Rightarrow> Inr (Beneficiary posItem)
            | None \<Rightarrow>
                (case UnbondPosItemMap pt signer of
                   Some posItem \<Rightarrow> Inr (Beneficiary posItem)
                 | None \<Rightarrow> Inl (PanicMsg ''not found in either posItemMap or UnbondPosItemMap''))))"

fun rewardLoop ::
  "'s statedb \<Rightarrow> 'x Strategy \<Rightarrow> int \<Rightarrow> int \<Rightarrow> VoteInfo list \<Rightarrow> 's \<Rightarrow> panic + 's" where
  "rewardLoop db st minerBonus weightSum [] s = Inr s"
| "rewardLoop db st minerBonus weightSum (v # vs) s =
     (if \<not> SignedLastBlock v \<or> vi_Power v = 0 then rewardLoop db st minerBonus weightSum vs s
      else if vi_Power v < 0 then Inl (PanicMsg ''Validator.Power < 0'')
      else
        panic_bind (big_Div minerBonus weightSum) (\<lambda>bonusAverage.
        panic_bind (voteBeneficiary st v) (\<lambda>beneficiary.
          rewardLoop db st minerBonus weightSum vs
            (AddBalance db s beneficiary
               (if BlockVersion (s_HF st) \<ge> 3 then vi_Power v * bonusAverage else bonusAverage)))))"

definition accumulateRewards ::
  "'s statedb \<Rightarrow> 'x Strategy \<Rightarrow> ('b, 's, 'l) workState \<Rightarrow> panic + ('b, 's, 'l) workState" where
  "accumulateRewards db st ws =
     panic_bind
       (if chv_Height (s_CurrentHeight st) \<le> 3588000 then
          panic_bind (deref (TotalBalance (s_CurrEpoch st))) (\<lambda>total.
          panic_bind (big_Div total yearlyDivisor) (\<lambda>bonus. Inr (bonus, ws_state ws)))
        else
          panic_bind (deref (MinorBonus (s_CurrEpoch st))) (\<lambda>bonus.
            Inr (bonus, AddBalance db (ws_state ws) (Coinbase (ws_header ws)) bonus)))
       (\<lambda>(minerBonus, s).
          let votes = LastVoteInfo (s_CurrentHeight st) in
          panic_bind (rewardLoop db st minerBonus (voteWeight votes) votes s) (\<lambda>s'.
            Inr (ws\<lparr>ws_state := s', ws_header := (ws_header ws)\<lparr>GasUsed := totalUsedGas ws\<rparr>\<rparr>)))"

definition AccumulateRewards ::
  "'s statedb \<Rightarrow> 'x Strategy \<Rightarrow> ('b, 's, 'l) workState \<Rightarrow> panic + ('b, 's, 'l) workState" where
  "AccumulateRewards db st ws =
     (if BlockVersion (s_HF st) \<ge> 4
      then Inr (ws\<lparr>ws_header := (ws_header ws)\<lparr>GasUsed := totalUsedGas ws\<rparr>\<rparr>)
      else accumulateRewards db st ws)"

section \<open>Commit\<close>

text \<open>\<open>commit\<close> writes the block; an error leaves the chain as the write left it.\<close>

definition commit ::
  "('c, 'b, 's, 'l, 'w) ethenv \<Rightarrow> 'c \<Rightarrow> ('b, 's, 'l) workState \<Rightarrow>
     ('c \<times> ('b, 's, 'l) workState) \<times> (string + hash)" where
  "commit en bc ws =
     (let (s', r) = state_Commit en (ws_state ws) in
      case r of
        Inl err \<Rightarrow> ((bc, ws\<lparr>ws_state := s'\<rparr>), Inl err)
      | Inr hashArray \<Rightarrow>
          (let ws' = ws\<lparr>ws_state := s', ws_header := (ws_header ws)\<lparr>Root := hashArray\<rparr>,
                 allLogs := map (\<lambda>l. l\<lparr>log_BlockHash := hashArray\<rparr>) (allLogs ws),
                 receipts := map (\<lambda>r. r\<lparr>r_Logs := map (\<lambda>l. l\<lparr>log_BlockHash := hashArray\<rparr>) (r_Logs r)\<rparr>)
                   (receipts ws)\<rparr>;
               block = NewBlock en (ws_header ws') (transactions ws') (receipts ws');
               (bc', err) = WriteBlockWithState en bc block (receipts ws') (allLogs ws') s' in
           ((bc', ws'), case err of Some msg \<Rightarrow> Inl msg | None \<Rightarrow> Inr (b_Hash en block))))"

definition es_Commit ::
  "('c, 'b, 's, 'l, 'w) ethenv \<Rightarrow> 'c \<Rightarrow> ('b, 's, 'l) workState \<Rightarrow>
     ('c \<times> ('b, 's, 'l) workState) \<times> (string + hash)" where
  "es_Commit en bc ws =
     (let ((bc', ws'), r) = commit en bc ws in
      case r of
        Inl err \<Rightarrow> ((bc', ws'), Inl err)
      | Inr blockHash \<Rightarrow>
          (case resetWorkState en bc' (Coinbase (ws_header ws')) of
             Inl err \<Rightarrow> ((bc', ws'), Inl err)
           | Inr ws'' \<Rightarrow> ((bc', ws''), Inr blockHash)))"

section \<open>The votes that are paid\<close>

definition paidVotes :: "VoteInfo list \<Rightarrow> VoteInfo list" where
  "paidVotes vs = [v \<leftarrow> vs. SignedLastBlock v \<and> vi_Power v \<noteq> 0]"

definition signedPower :: "VoteInfo list \<Rightarrow> int" where
  "signedPower vs = (\<Sum>v \<leftarrow> paidVotes vs. vi_Power v)"

definition beneficiaryOf :: "'x Strategy \<Rightarrow> VoteInfo \<Rightarrow> address" where
  "beneficiaryOf st v = (case voteBeneficiary st v of Inr b \<Rightarrow> b | Inl p \<Rightarrow> 0)"

lemma signedPower_Cons:
  "signedPower (v # vs) = (if SignedLastBlock v then vi_Power v else 0) + signedPower vs"
  by (simp add: signedPower_def paidVotes_def)

lemma voteWeight_fold:
  "fold (\<lambda>v w. if SignedLastBlock v then i64 (w + vi_Power v) else w) vs (i64 x) = i64 (x + signedPower vs)"
proof (induction vs arbitrary: x)
  case Nil
  then show ?case by (simp add: signedPower_def paidVotes_def)
next
  case (Cons v vs)
  then show ?case by (simp add: signedPower_Cons ac_simps)
qed

lemma voteWeight_wraps: "voteWeight vs = i64 (signedPower vs)"
  using voteWeight_fold [of vs 0] by (simp add: voteWeight_def i64_id is_i64_def)

text \<open>The votes of a commit as Tendermint guarantees them: no negative power, a total that fits in
  63 bits, and voters that the table knows.\<close>

definition votes_ok :: "'x Strategy \<Rightarrow> VoteInfo list \<Rightarrow> bool" where
  "votes_ok st vs \<longleftrightarrow>
     (\<forall>v \<in> set (paidVotes vs). 0 < vi_Power v \<and> (\<exists>b. voteBeneficiary st v = Inr b)) \<and>
     signedPower vs < 2 ^ 63"

lemma signedPower_pos:
  assumes "\<forall>v \<in> set (paidVotes vs). 0 < vi_Power v"
  shows "0 \<le> signedPower vs" and "paidVotes vs \<noteq> [] \<Longrightarrow> 0 < signedPower vs"
proof -
  have "0 \<le> (\<Sum>v \<leftarrow> xs. vi_Power v) \<and> (xs \<noteq> [] \<longrightarrow> 0 < (\<Sum>v \<leftarrow> xs. vi_Power v))"
    if "\<forall>v \<in> set xs. 0 < vi_Power v" for xs
    using that by (induction xs) (auto intro: add_pos_nonneg)
  from this [OF assms] show "0 \<le> signedPower vs" and "paidVotes vs \<noteq> [] \<Longrightarrow> 0 < signedPower vs"
    by (simp_all add: signedPower_def)
qed

lemma voteWeight_exact:
  assumes "votes_ok st vs"
  shows "voteWeight vs = signedPower vs"
  using assms signedPower_pos(1) [of vs]
  by (auto simp: voteWeight_wraps votes_ok_def is_i64_def intro!: i64_id)

definition voteShare :: "'x Strategy \<Rightarrow> int \<Rightarrow> VoteInfo \<Rightarrow> int" where
  "voteShare st average v = (if BlockVersion (s_HF st) \<ge> 3 then vi_Power v * average else average)"

definition payments :: "'x Strategy \<Rightarrow> int \<Rightarrow> VoteInfo list \<Rightarrow> (address \<times> int) list" where
  "payments st average vs = map (\<lambda>v. (beneficiaryOf st v, voteShare st average v)) (paidVotes vs)"

text \<open>The loop credits the paid votes, one after the other.\<close>

lemma rewardLoop_eq:
  assumes "\<forall>v \<in> set (paidVotes vs). 0 < vi_Power v \<and> (\<exists>b. voteBeneficiary st v = Inr b)"
    and "paidVotes vs \<noteq> [] \<Longrightarrow> 0 < W"
  shows "rewardLoop db st B W vs s = Inr (creditAll db (payments st (B div W) vs) s)"
  using assms
proof (induction vs arbitrary: s)
  case Nil
  then show ?case by (simp add: payments_def paidVotes_def)
next
  case (Cons v vs)
  show ?case
  proof (cases "SignedLastBlock v \<and> vi_Power v \<noteq> 0")
    case True
    with Cons.prems have "0 < W" "0 < vi_Power v" and b: "voteBeneficiary st v = Inr (beneficiaryOf st v)"
      by (auto simp: paidVotes_def beneficiaryOf_def)
    with True Cons show ?thesis by (simp add: payments_def paidVotes_def voteShare_def)
  next
    case False
    with Cons show ?thesis by (simp add: payments_def paidVotes_def) (metis (mono_tags, lifting))
  qed
qed

section \<open>How much is minted\<close>

definition minerBonusOf :: "'x Strategy \<Rightarrow> int" where
  "minerBonusOf st =
     (if chv_Height (s_CurrentHeight st) \<le> 3588000 then the (TotalBalance (s_CurrEpoch st)) div yearlyDivisor
      else the (MinorBonus (s_CurrEpoch st)))"

definition proposerBonusOf :: "'x Strategy \<Rightarrow> int" where
  "proposerBonusOf st =
     (if chv_Height (s_CurrentHeight st) \<le> 3588000 then 0 else the (MinorBonus (s_CurrEpoch st)))"

definition bonus_ok :: "'x Strategy \<Rightarrow> bool" where
  "bonus_ok st \<longleftrightarrow>
     (if chv_Height (s_CurrentHeight st) \<le> 3588000 then TotalBalance (s_CurrEpoch st) \<noteq> None
      else MinorBonus (s_CurrEpoch st) \<noteq> None) \<and>
     0 \<le> minerBonusOf st"

definition rewardedState :: "'s statedb \<Rightarrow> 'x Strategy \<Rightarrow> int \<Rightarrow> ('b, 's, 'l) workState \<Rightarrow> 's" where
  "rewardedState db st avg ws =
     creditAll db (payments st avg (LastVoteInfo (s_CurrentHeight st)))
       (if chv_Height (s_CurrentHeight st) \<le> 3588000 then ws_state ws
        else AddBalance db (ws_state ws) (Coinbase (ws_header ws)) (proposerBonusOf st))"

lemma accumulateRewards_eq:
  assumes b: "bonus_ok st" and v: "votes_ok st (LastVoteInfo (s_CurrentHeight st))"
    and W: "W = signedPower (LastVoteInfo (s_CurrentHeight st))"
  shows "accumulateRewards db st ws =
    Inr (ws\<lparr>ws_state := rewardedState db st (minerBonusOf st div W) ws,
      ws_header := (ws_header ws)\<lparr>GasUsed := totalUsedGas ws\<rparr>\<rparr>)"
proof -
  let ?vs = "LastVoteInfo (s_CurrentHeight st)"
  have p: "\<forall>v \<in> set (paidVotes ?vs). 0 < vi_Power v \<and> (\<exists>b. voteBeneficiary st v = Inr b)"
    using v by (simp add: votes_ok_def)
  then have "paidVotes ?vs \<noteq> [] \<Longrightarrow> 0 < signedPower ?vs" by (simp add: signedPower_pos(2))
  note loop = rewardLoop_eq [OF p this]
  have "0 < yearlyDivisor" by (simp add: yearlyDivisor_def)
  then show ?thesis
    using b by (auto simp: accumulateRewards_def bonus_ok_def minerBonusOf_def proposerBonusOf_def Let_def
        voteWeight_exact [OF v] loop W rewardedState_def split: if_splits)
qed

lemma floor_share:
  assumes "0 \<le> (B :: int)" and "0 \<le> W"
  shows "W * (B div W) \<le> B \<and> (0 < W \<longrightarrow> B - W < W * (B div W))"
proof (cases "W = 0")
  case False
  with assms(2) have "0 \<le> B mod W" "B mod W < W" by auto
  with mult_div_mod_eq [of W B] show ?thesis by linarith
qed (use assms in simp)

lemma minted_total:
  assumes "statedb_laws db"
  shows "totalBalance db UNIV (rewardedState db st avg ws) =
    totalBalance db UNIV (ws_state ws) + proposerBonusOf st +
    sum_list (map (voteShare st avg) (paidVotes (LastVoteInfo (s_CurrentHeight st))))"
  by (simp add: creditAll_totalBalance [OF assms] totalBalance_AddBalance [OF assms] proposerBonusOf_def
      payments_def comp_def rewardedState_def)

text \<open>C18. In block version 3 the voters share the bonus in proportion to their power and no more than
  the bonus is paid out: the rewards never panic on votes of known validators, the money minted is
  the proposer's bonus plus the total power times the rounded-down bonus per unit, which is at most
  the bonus and misses it by less than the total power.\<close>

theorem AccumulateRewards_proportional:
  assumes "statedb_laws db" and "BlockVersion (s_HF st) = 3" and "bonus_ok st"
    and "votes_ok st (LastVoteInfo (s_CurrentHeight st))"
    and "W = signedPower (LastVoteInfo (s_CurrentHeight st))"
  shows "\<exists>ws'. AccumulateRewards db st ws = Inr ws' \<and>
    totalBalance db UNIV (ws_state ws') =
      totalBalance db UNIV (ws_state ws) + proposerBonusOf st + W * (minerBonusOf st div W) \<and>
    W * (minerBonusOf st div W) \<le> minerBonusOf st \<and>
    (0 < W \<longrightarrow> minerBonusOf st - W < W * (minerBonusOf st div W))"
proof -
  let ?vs = "LastVoteInfo (s_CurrentHeight st)" and ?B = "minerBonusOf st"
  note r = accumulateRewards_eq [OF assms(3,4,5), of db ws]
  have "0 \<le> ?B" "0 \<le> W"
    using assms(3,4) signedPower_pos(1) [of ?vs] by (auto simp: bonus_ok_def assms(5) votes_ok_def)
  note share = floor_share [OF this]
  have shares: "map (voteShare st a) xs = map (\<lambda>v. vi_Power v * a) xs" for a xs
    using assms(2) by (simp add: voteShare_def)
  have "sum_list (map (voteShare st a) (paidVotes ?vs)) = W * a" for a
    unfolding shares assms(5) signedPower_def by (simp add: sum_list_mult_const)
  with r share minted_total [OF assms(1), of st "?B div W" ws] assms(2) show ?thesis
    by (simp add: AccumulateRewards_def)
qed

text \<open>C30. Before block version 3 every paid vote is worth the same, the bonus divided by the total power,
  whatever the power of the voter: all voters together receive their number, not their power, times
  that quotient (the source marks the line as a bug).\<close>

theorem AccumulateRewards_flat:
  assumes "statedb_laws db" and "BlockVersion (s_HF st) < 3" and "bonus_ok st"
    and "votes_ok st (LastVoteInfo (s_CurrentHeight st))"
    and "vs = LastVoteInfo (s_CurrentHeight st)"
  shows "\<exists>ws'. AccumulateRewards db st ws = Inr ws' \<and>
    totalBalance db UNIV (ws_state ws') =
      totalBalance db UNIV (ws_state ws) + proposerBonusOf st +
      int (length (paidVotes vs)) * (minerBonusOf st div signedPower vs)"
proof -
  note r = accumulateRewards_eq [OF assms(3,4) refl, of db ws]
  have ver: "\<not> 3 \<le> BlockVersion (s_HF st)" "\<not> 4 \<le> BlockVersion (s_HF st)"
    using assms(2) by (auto simp: word_le_nat_alt word_less_nat_alt)
  then have shares: "map (voteShare st a) xs = map (\<lambda>v. a) xs" for a xs
    by (simp add: voteShare_def)
  have "sum_list (map (voteShare st a) xs) = int (length xs) * a" for a xs
    unfolding shares by (simp add: sum_list_triv)
  with r minted_total [OF assms(1), of st "minerBonusOf st div signedPower vs" ws] ver(2) assms(5) show ?thesis
    by (simp add: AccumulateRewards_def)
qed

section \<open>The block under construction\<close>

text \<open>One receipt per transaction, and the index counts them.\<close>

definition block_inv :: "('b, 's, 'l) workState \<Rightarrow> bool" where
  "block_inv ws \<longleftrightarrow>
     length (receipts ws) = length (transactions ws) \<and> txIndex ws = int (length (transactions ws))"

fun deliverTxs ::
  "('c, 'b, 's, 'l, 'w) ethenv \<Rightarrow> 'c \<Rightarrow> (Transaction \<times> TxInfo) list \<Rightarrow> ('b, 's, 'l) workState \<times> 'w \<Rightarrow>
     (('b, 's, 'l) workState \<times> 'w) \<times> ResponseDeliverTx list" where
  "deliverTxs en bc [] wsw = (wsw, [])"
| "deliverTxs en bc ((tx, i) # txs) wsw =
     (let (wsw1, r) = deliverTx en bc tx i wsw; (wsw2, rs) = deliverTxs en bc txs wsw1 in (wsw2, r # rs))"

lemma deliverTx_cases:
  assumes "deliverTx en bc tx i (ws, w) = ((ws', w'), r)"
  shows "rd_Code r = CodeOK \<and> transactions ws' = transactions ws @ [tx] \<and>
      (\<exists>rec. receipts ws' = receipts ws @ [rec]) \<and> txIndex ws' = i64 (txIndex ws + 1) \<or>
    rd_Code r \<noteq> CodeOK \<and> transactions ws' = transactions ws \<and> receipts ws' = receipts ws \<and>
      txIndex ws' = txIndex ws \<and> allLogs ws' = allLogs ws"
    and "ws_header ws' = ws_header ws \<and> parent ws' = parent ws"
  using assms
  by (auto simp: deliverTx_def Let_def errorCode_def CodeOK_def split: prod.splits sum.splits)

text \<open>C24. The block is built from the transactions that were accepted. For every sequence of
  deliveries, failing ones included, the block afterwards holds exactly the transactions answered
  with code 0, in the order of delivery, with one receipt each, and the transaction index is their
  number.\<close>

theorem deliverTxs_block:
  assumes "block_inv ws" and "int (length (transactions ws) + length txs) < 2 ^ 63"
    and "deliverTxs en bc txs (ws, w) = ((ws', w'), rs)"
  shows "block_inv ws' \<and> length rs = length txs \<and>
    transactions ws' = transactions ws @ map (fst \<circ> fst) [p \<leftarrow> zip txs rs. rd_Code (snd p) = CodeOK]"
  using assms
proof (induction txs arbitrary: ws w rs)
  case Nil
  then show ?case by simp
next
  case (Cons t txs)
  obtain tx i where t: "t = (tx, i)" by fastforce
  obtain ws1 w1 r where d: "deliverTx en bc tx i (ws, w) = ((ws1, w1), r)" by (metis surj_pair)
  obtain rs' where rs: "rs = r # rs'" and d': "deliverTxs en bc txs (ws1, w1) = ((ws', w'), rs')"
    using Cons.prems(3) d t by (auto split: prod.splits)
  have "i64 (int (length (transactions ws)) + 1) = int (length (transactions ws)) + 1"
    using Cons.prems(2) by (intro i64_id) (simp add: is_i64_def)
  with deliverTx_cases(1) [OF d] Cons.prems(1,2) have b: "block_inv ws1"
    "int (length (transactions ws1) + length txs) < 2 ^ 63"
    "transactions ws1 = transactions ws @ (if rd_Code r = CodeOK then [tx] else [])"
    by (auto simp: block_inv_def)
  from Cons.IH [OF b(1,2) d'] b(3) rs t show ?case by simp
qed

section \<open>Commit\<close>

text \<open>The contract of the block chain: a written block becomes the current one, and a block has the
  number of its header.\<close>

definition blockchain_laws :: "('c, 'b, 's, 'l, 'w) ethenv \<Rightarrow> bool" where
  "blockchain_laws en \<longleftrightarrow>
     (\<forall>bc b rs ls s bc'. WriteBlockWithState en bc b rs ls s = (bc', None) \<longrightarrow> CurrentBlock en bc' = b) \<and>
     (\<forall>h txs rs. b_Number en (NewBlock en h txs rs) = hd_Number h)"

lemma es_Commit_facts:
  assumes "blockchain_laws en" and "es_Commit en bc ws = ((bc', ws'), Inr blockHash)"
  shows "blockHash = b_Hash en (CurrentBlock en bc') \<and>
    hd_Number (ws_header ws') = hd_Number (ws_header ws) + 1 \<and>
    ParentHash (ws_header ws') = blockHash \<and> transactions ws' = []"
    and "b_Number en (CurrentBlock en bc') = hd_Number (ws_header ws) \<and>
    Coinbase (ws_header ws') = Coinbase (ws_header ws) \<and>
    block_inv ws' \<and> totalUsedGas ws' = 0 \<and> gp ws' = GasLimit (ws_header ws')"
proof -
  let ?hdr = "\<lambda>root. (ws_header ws)\<lparr>Root := root\<rparr>"
  from assms(2) obtain root s' bc1 ws1 where c: "commit en bc ws = ((bc1, ws1), Inr blockHash)"
    and r: "resetWorkState en bc1 (Coinbase (ws_header ws1)) = Inr ws'" and [simp]: "bc1 = bc'"
    by (auto simp: es_Commit_def Let_def split: prod.splits sum.splits)
  from c obtain root txs rs ls s' where
    w: "WriteBlockWithState en bc (NewBlock en (?hdr root) txs rs) rs ls s' = (bc', None)"
    and h: "blockHash = b_Hash en (NewBlock en (?hdr root) txs rs)" and hd: "ws_header ws1 = ?hdr root"
    by (auto simp: commit_def Let_def split: prod.splits sum.splits option.splits)
  from assms(1) w have cur: "CurrentBlock en bc' = NewBlock en (?hdr root) txs rs"
    and num: "b_Number en (NewBlock en (?hdr root) txs rs) = hd_Number (ws_header ws)"
    by (auto simp: blockchain_laws_def)
  from r show "blockHash = b_Hash en (CurrentBlock en bc') \<and>
    hd_Number (ws_header ws') = hd_Number (ws_header ws) + 1 \<and>
    ParentHash (ws_header ws') = blockHash \<and> transactions ws' = []"
    and "b_Number en (CurrentBlock en bc') = hd_Number (ws_header ws) \<and>
    Coinbase (ws_header ws') = Coinbase (ws_header ws) \<and>
    block_inv ws' \<and> totalUsedGas ws' = 0 \<and> gp ws' = GasLimit (ws_header ws')"
    using cur num h hd
    by (auto simp: resetWorkState_def newBlockHeader_def Let_def block_inv_def split: sum.splits)
qed

text \<open>A successful commit chains the blocks: the hash it answers is the hash of the block that is
  now current, the next working state starts with a header numbered one higher whose parent hash is
  that hash, keeps the coinbase, and has no transactions, no gas used and a full gas pool.\<close>

lemma es_Commit_next_block:
  assumes "blockchain_laws en" and "es_Commit en bc ws = ((bc', ws'), Inr blockHash)"
  shows "blockHash = b_Hash en (CurrentBlock en bc') \<and>
    b_Number en (CurrentBlock en bc') = hd_Number (ws_header ws) \<and>
    hd_Number (ws_header ws') = hd_Number (ws_header ws) + 1 \<and>
    ParentHash (ws_header ws') = blockHash \<and> Coinbase (ws_header ws') = Coinbase (ws_header ws) \<and>
    block_inv ws' \<and> transactions ws' = [] \<and> totalUsedGas ws' = 0 \<and> gp ws' = GasLimit (ws_header ws')"
  using es_Commit_facts [OF assms] by blast

section \<open>Witnesses\<close>

text \<open>A block chain that is the list of its headers, the newest first, and whose transactions each cost
  21000 gas; a transaction with nonce 9 fails.\<close>

definition sampleHeader :: Header where
  "sampleHeader = \<lparr>hd_Number = 0, ParentHash = 0, GasLimit = 8000000, Coinbase = 7, GasUsed = 0, hd_Time = 0,
     hd_Difficulty = 1, Root = 0\<rparr>"

definition sampleEth :: "(Header list, Header, address \<Rightarrow> int \<times> uint64, unit, 'w) ethenv" where
  "sampleEth =
     \<lparr>bc_State = (\<lambda>bc. Inr sampleState), CurrentBlock = hd, PendingBlockNumber = (\<lambda>bc. hd_Number (hd bc) + 1),
      WriteBlockWithState = (\<lambda>bc b rs ls s. (b # bc, None)),
      b_Number = hd_Number, b_Hash = (\<lambda>b. word_of_int (hd_Number b)), b_Difficulty = hd_Difficulty,
      b_Time = hd_Time, NewBlock = (\<lambda>h txs rs. h), CalcGasLimit = GasLimit,
      CalcDifficulty = (\<lambda>bc t p. 1), state_Commit = (\<lambda>s. (s, Inr 5)), Prepare = (\<lambda>s a b i. s),
      GetLogs = (\<lambda>s a. []),
      ApplyTransactionWithInfo = (\<lambda>bc h tx i (g, s, u, w).
        if tx_Nonce tx = 9 then ((g, s, u, w), Inl ''nonce too high'')
        else ((g - 21000, s, u + 21000, w), Inr \<lparr>r_Logs = [], r_rest = ()\<rparr>))\<rparr>"

definition sampleWork :: "(Header, address \<Rightarrow> int \<times> uint64, unit) workState" where
  "sampleWork =
     \<lparr>ws_header = sampleHeader\<lparr>hd_Number := 1\<rparr>, parent = sampleHeader, ws_height = 1, ws_state = sampleState,
      txIndex = 0, transactions = [], receipts = [], allLogs = [], totalUsedGas = 0, gp = 8000000\<rparr>"

definition sampleVoted :: "uint64 \<Rightarrow> unit Strategy" where
  "sampleVoted v =
     (let st = sampleStrategy v 0 in
      st\<lparr>s_CurrEpoch := (s_CurrEpoch st)\<lparr>TotalBalance := Some 10000000000000\<rparr>,
         s_CurrentHeight := (s_CurrentHeight st)\<lparr>LastVoteInfo :=
           [\<lparr>vi_Address = [0xA1], vi_Power = 1003, SignedLastBlock = True\<rparr>,
            \<lparr>vi_Address = [0xB0], vi_Power = 55, SignedLastBlock = False\<rparr>,
            \<lparr>vi_Address = [0xA2], vi_Power = 1000, SignedLastBlock = True\<rparr>]\<rparr>\<rparr>)"

lemmas sample_eth_defs =
  sampleHeader_def sampleEth_def sampleWork_def sampleVoted_def sampleState_def Let_def

lemma sample_votes_ok: "votes_ok (sampleVoted v) (LastVoteInfo (s_CurrentHeight (sampleVoted v)))"
  by (simp add: votes_ok_def paidVotes_def signedPower_def voteBeneficiary_def upper_hextable_def
      sample_eth_defs sample_defs)

lemma sample_signedPower: "signedPower (LastVoteInfo (s_CurrentHeight (sampleVoted v))) = 2003"
  by (simp add: paidVotes_def signedPower_def sample_eth_defs)

lemma sample_bonus: "minerBonusOf (sampleVoted v) = 15854" "proposerBonusOf (sampleVoted v) = 0"
  by (simp_all add: minerBonusOf_def proposerBonusOf_def yearlyDivisor_def sample_eth_defs sample_defs)

lemma sample_bonus_ok: "bonus_ok (sampleVoted v)"
  by (simp add: bonus_ok_def sample_bonus) (simp add: sample_eth_defs sample_defs)

lemma sample_voted_version: "BlockVersion (s_HF (sampleVoted v)) = v"
  by (simp add: sample_eth_defs sample_defs)

theorem AccumulateRewards_proportional_witness:
  "\<exists>ws'. AccumulateRewards map_statedb (sampleVoted 3) sampleWork = Inr ws' \<and>
    totalBalance map_statedb UNIV (ws_state ws') = totalBalance map_statedb UNIV sampleState + 2003 * 7"
  using AccumulateRewards_proportional [OF map_statedb_laws sample_voted_version sample_bonus_ok
      sample_votes_ok sample_signedPower [symmetric], of sampleWork]
  by (simp add: sample_bonus) (simp add: sampleWork_def)

theorem AccumulateRewards_flat_witness:
  "\<exists>ws'. AccumulateRewards map_statedb (sampleVoted 1) sampleWork = Inr ws' \<and>
    totalBalance map_statedb UNIV (ws_state ws') = totalBalance map_statedb UNIV sampleState + 2 * 7"
proof -
  have "BlockVersion (s_HF (sampleVoted 1)) < 3" by (simp add: sample_voted_version)
  moreover have "length (paidVotes (LastVoteInfo (s_CurrentHeight (sampleVoted 1)))) = 2"
    by (simp add: paidVotes_def sampleVoted_def Let_def)
  ultimately show ?thesis
    using AccumulateRewards_flat [OF map_statedb_laws _ sample_bonus_ok sample_votes_ok refl, of 1 sampleWork]
    by (simp add: sample_bonus sample_signedPower) (simp add: sampleWork_def)
qed

definition sampleTx :: "uint64 \<Rightarrow> Transaction" where
  "sampleTx n =
     \<lparr>tx_Hash = word_of_int (uint n), tx_Size = 100, tx_Protected = True, tx_To = Some 3, tx_Data = [],
      tx_Value = 20, tx_Gas = 21000, tx_Nonce = n, tx_Cost = 41, tx_VRS = (1, 2, 3), tx_from = None\<rparr>"

definition sampleTxInfo :: "uint64 \<Rightarrow> TxInfo" where
  "sampleTxInfo n = \<lparr>ti_Tx = Some (sampleTx n), ti_From = 1, ti_SubTx = None, ti_RelayFrom = 0\<rparr>"

lemma sample_deliveries:
  "deliverTxs sampleEth [sampleHeader] [(sampleTx 0, sampleTxInfo 0), (sampleTx 9, sampleTxInfo 9),
      (sampleTx 1, sampleTxInfo 1)] (sampleWork, ()) =
   ((sampleWork\<lparr>txIndex := 2, transactions := [sampleTx 0, sampleTx 1],
       receipts := [\<lparr>r_Logs = [], r_rest = ()\<rparr>, \<lparr>r_Logs = [], r_rest = ()\<rparr>], totalUsedGas := 42000,
       gp := 7958000\<rparr>, ()),
    [\<lparr>rd_Code = CodeOK, rd_Log = NoReason\<rparr>, \<lparr>rd_Code = errorCode, rd_Log = ApplyError ''nonce too high''\<rparr>,
     \<lparr>rd_Code = CodeOK, rd_Log = NoReason\<rparr>])"
  by (simp add: deliverTx_def sampleEth_def sampleWork_def sampleTx_def i64_def)

theorem deliverTxs_block_witness:
  "\<exists>ws' rs. deliverTxs sampleEth [sampleHeader] [(sampleTx 0, sampleTxInfo 0), (sampleTx 9, sampleTxInfo 9),
      (sampleTx 1, sampleTxInfo 1)] (sampleWork, ()) = ((ws', ()), rs) \<and>
    block_inv ws' \<and> transactions ws' = [sampleTx 0, sampleTx 1]"
proof -
  have "block_inv sampleWork" by (simp add: block_inv_def sampleWork_def)
  note r = deliverTxs_block [OF this _ sample_deliveries]
  have "transactions sampleWork = []" by (simp add: sampleWork_def)
  with conjunct1 [OF r] show ?thesis unfolding sample_deliveries by simp
qed

lemma sample_blockchain_laws: "blockchain_laws sampleEth"
  by (simp add: blockchain_laws_def sampleEth_def)

end
