(* ===== verification/Backend.thy ===== *)
theory Backend
  imports EthState
begin

text \<open>
  \<open>src/ethereum/backend.go\<close>, \<open>txs.go\<close> and \<open>api.go\<close>: the backend that holds the working state, the
  transaction being broadcast and the cache of transaction infos (sender, relayer, inner
  transaction) that \<open>CheckTx\<close> fills and \<open>DeliverTx\<close> empties; the loop that forwards transactions of
  the local pool to Tendermint; and the selection of RPC services. The locale \<open>tx_info_cache\<close> is
  the contract of the cache.
\<close>

section \<open>State\<close>

record ('c, 'b, 's, 'l) Backend =
  be_chain :: 'c
  be_work :: "('b, 's, 'l) workState"
  currentTxInfo :: "TxInfo"
  cachedTxInfo :: "hash \<rightharpoonup> TxInfo"

definition FetchCachedTxInfo :: "hash \<Rightarrow> ('c, 'b, 's, 'l) Backend \<Rightarrow> TxInfo option" where
  "FetchCachedTxInfo h b = cachedTxInfo b h"

definition DeleteCachedTxInfo :: "hash \<Rightarrow> ('c, 'b, 's, 'l) Backend \<Rightarrow> ('c, 'b, 's, 'l) Backend" where
  "DeleteCachedTxInfo h b = b\<lparr>cachedTxInfo := (cachedTxInfo b)(h := None)\<rparr>"

definition InsertCachedTxInfo ::
  "hash \<Rightarrow> TxInfo \<Rightarrow> ('c, 'b, 's, 'l) Backend \<Rightarrow> ('c, 'b, 's, 'l) Backend" where
  "InsertCachedTxInfo h i b = b\<lparr>cachedTxInfo := (cachedTxInfo b)(h \<mapsto> i)\<rparr>"

section \<open>Block processing\<close>

definition be_DeliverTx ::
  "('c, 'b, 's, 'l, 'w) ethenv \<Rightarrow> Transaction \<Rightarrow> TxInfo \<Rightarrow> ('c, 'b, 's, 'l) Backend \<times> 'w \<Rightarrow>
     (('c, 'b, 's, 'l) Backend \<times> 'w) \<times> ResponseDeliverTx" where
  "be_DeliverTx en tx txInfo bw =
     (let (b, w) = bw;
          ((ws', w'), res) = deliverTx en (be_chain b) tx txInfo (be_work b, w) in
      ((b\<lparr>be_work := ws'\<rparr>, w'), res))"

definition be_AccumulateRewards ::
  "'s statedb \<Rightarrow> 'x Strategy \<Rightarrow> ('c, 'b, 's, 'l) Backend \<Rightarrow> panic + ('c, 'b, 's, 'l) Backend" where
  "be_AccumulateRewards db st b =
     panic_bind (AccumulateRewards db st (be_work b)) (\<lambda>ws'. Inr (b\<lparr>be_work := ws'\<rparr>))"

definition be_Commit ::
  "('c, 'b, 's, 'l, 'w) ethenv \<Rightarrow> ('c, 'b, 's, 'l) Backend \<Rightarrow>
     ('c, 'b, 's, 'l) Backend \<times> (string + hash)" where
  "be_Commit en b =
     (let ((bc', ws'), r) = es_Commit en (be_chain b) (be_work b) in
      (b\<lparr>be_chain := bc', be_work := ws'\<rparr>, r))"

definition InitReceiver :: string where
  "InitReceiver = ''0000000000000000000000000000000000000002''"

definition InitEthState ::
  "('c, 'b, 's, 'l, 'w) ethenv \<Rightarrow> address \<Rightarrow> ('c, 'b, 's, 'l) Backend \<Rightarrow>
     string + ('c, 'b, 's, 'l) Backend" where
  "InitEthState en receiver b =
     (case resetWorkState en (be_chain b) receiver of
        Inl err \<Rightarrow> Inl err
      | Inr ws \<Rightarrow> Inr (b\<lparr>be_work := ws\<rparr>))"

text \<open>The time of the Tendermint header is its Unix time, converted to unsigned.\<close>

definition be_UpdateHeaderWithTimeInfo ::
  "('c, 'b, 's, 'l, 'w) ethenv \<Rightarrow> int \<Rightarrow> ('c, 'b, 's, 'l) Backend \<Rightarrow> ('c, 'b, 's, 'l) Backend" where
  "be_UpdateHeaderWithTimeInfo en unixTime b =
     b\<lparr>be_work := updateHeaderWithTimeInfo en (be_chain b) (word_of_int unixTime) (be_work b)\<rparr>"

definition be_GasLimit :: "('c, 'b, 's, 'l) Backend \<Rightarrow> uint64" where
  "be_GasLimit b = es_GasLimit (be_work b)"

section \<open>RPC services\<close>

record NetRPCService =
  networkVersion :: uint64

definition NewNetRPCService :: "uint64 \<Rightarrow> NetRPCService" where
  "NewNetRPCService v = \<lparr>networkVersion = v\<rparr>"

definition Listening :: "NetRPCService \<Rightarrow> bool" where
  "Listening n = True"

definition PeerCount :: "NetRPCService \<Rightarrow> nat" where
  "PeerCount n = 0"

definition net_Version :: "NetRPCService \<Rightarrow> string" where
  "net_Version n = show_nat (unat (networkVersion n))"

text \<open>A service is the backend's own net service or one of go-ethereum's.\<close>

datatype 'v Service = NetService NetRPCService | EthService 'v

record 'v API =
  Namespace :: string
  api_Service :: "'v Service"

definition isPublicMinerAPI :: "('v \<Rightarrow> bool) \<Rightarrow> 'v Service \<Rightarrow> bool" where
  "isPublicMinerAPI isMiner v = (case v of NetService n \<Rightarrow> False | EthService x \<Rightarrow> isMiner x)"

fun filterAPIs :: "('v \<Rightarrow> bool) \<Rightarrow> uint64 \<Rightarrow> 'v API list \<Rightarrow> 'v API list \<Rightarrow> 'v API list" where
  "filterAPIs isMiner networkId [] retApis = retApis"
| "filterAPIs isMiner networkId (v # apis) retApis =
     (let v' = (if Namespace v = ''net'' then v\<lparr>api_Service := NetService (NewNetRPCService networkId)\<rparr> else v) in
      if Namespace v' = ''miner'' then filterAPIs isMiner networkId apis retApis
      else if isPublicMinerAPI isMiner (api_Service v') then filterAPIs isMiner networkId apis retApis
      else filterAPIs isMiner networkId apis (retApis @ [v']))"

definition APIs :: "('v \<Rightarrow> bool) \<Rightarrow> uint64 \<Rightarrow> 'v API list \<Rightarrow> 'v API list" where
  "APIs isMiner networkId apis = filterAPIs isMiner networkId apis []"

section \<open>Broadcasting transactions\<close>

text \<open>The codec and the mempool are third-party: \<open>encode\<close> is \<open>rlp.EncodeToBytes\<close>, \<open>checkLocal\<close> runs
  \<open>CheckTxLocal\<close> on the whole program state and yields its error or the response.\<close>

datatype broadcastError = EncodeError string | BroadcastFailed string | CheckTxFailed ResponseCheckTx

definition BroadcastTx ::
  "(Transaction \<Rightarrow> string + bytes) \<Rightarrow> (bytes \<Rightarrow> 'p \<Rightarrow> 'p \<times> (string + ResponseCheckTx)) \<Rightarrow>
     Transaction \<Rightarrow> 'p \<Rightarrow> 'p \<times> broadcastError option" where
  "BroadcastTx encode checkLocal tx p =
     (case encode tx of
        Inl err \<Rightarrow> (p, Some (EncodeError err))
      | Inr txBytes \<Rightarrow>
          (case checkLocal txBytes p of
             (p', Inl err) \<Rightarrow> (p', Some (BroadcastFailed err))
           | (p', Inr r) \<Rightarrow> (p', if rc_Code r \<noteq> CodeOK then Some (CheckTxFailed r) else None)))"

text \<open>The events of the pool, and one round of the forwarding loop: the transaction becomes the current
  one, it is broadcast, a failed one is removed from the pool, and every 1025 rounds the flow limit
  is set. \<open>setCurrent\<close> stores the current transaction in the program state. What other goroutines do
  meanwhile is the subject of theory \<open>Forwarding\<close>.\<close>

record TxPreEvent =
  ev_Tx :: Transaction
  ev_From :: address
  ev_Relayer :: address
  ev_SubTx :: "Transaction option"

record 'p broadcastLoop =
  bl_program :: 'p
  txCount :: int
  bl_results :: "broadcastError option list"
  bl_removed :: "hash list"
  bl_flowSets :: nat

definition eventInfo :: "TxPreEvent \<Rightarrow> TxInfo" where
  "eventInfo obj =
     \<lparr>ti_Tx = Some (ev_Tx obj), ti_From = ev_From obj, ti_SubTx = ev_SubTx obj, ti_RelayFrom = ev_Relayer obj\<rparr>"

definition broadcastDone ::
  "TxPreEvent \<Rightarrow> 'p \<times> broadcastError option \<Rightarrow> 'p broadcastLoop \<Rightarrow> 'p broadcastLoop" where
  "broadcastDone obj pe bl =
     (let (p, err) = pe;
          bl1 = bl\<lparr>bl_program := p, bl_results := bl_results bl @ [err],
                   bl_removed := bl_removed bl @ (if err \<noteq> None then [tx_Hash (ev_Tx obj)] else [])\<rparr>;
          bl2 = (if txCount bl1 > 1024 then bl1\<lparr>bl_flowSets := bl_flowSets bl1 + 1, txCount := 0\<rparr> else bl1) in
      bl2\<lparr>txCount := i64 (txCount bl2 + 1)\<rparr>)"

definition broadcastStep ::
  "(Transaction \<Rightarrow> string + bytes) \<Rightarrow> (bytes \<Rightarrow> 'p \<Rightarrow> 'p \<times> (string + ResponseCheckTx)) \<Rightarrow>
     (TxInfo \<Rightarrow> 'p \<Rightarrow> 'p) \<Rightarrow> TxPreEvent \<Rightarrow> 'p broadcastLoop \<Rightarrow> 'p broadcastLoop" where
  "broadcastStep encode checkLocal setCurrent obj bl =
     broadcastDone obj
       (BroadcastTx encode checkLocal (ev_Tx obj) (setCurrent (eventInfo obj) (bl_program bl))) bl"

definition setCurrentTxInfo :: "TxInfo \<Rightarrow> ('c, 'b, 's, 'l) Backend \<Rightarrow> ('c, 'b, 's, 'l) Backend" where
  "setCurrentTxInfo i b = b\<lparr>currentTxInfo := i\<rparr>"

section \<open>The contract of the cache\<close>

locale tx_info_cache =
  fixes fetch :: "'h \<Rightarrow> 'm \<Rightarrow> 'i option"
    and insert_info :: "'h \<Rightarrow> 'i \<Rightarrow> 'm \<Rightarrow> 'm"
    and delete_info :: "'h \<Rightarrow> 'm \<Rightarrow> 'm"
  assumes fetch_insert: "fetch h (insert_info k i m) = (if h = k then Some i else fetch h m)"
    and fetch_delete: "fetch h (delete_info k m) = (if h = k then None else fetch h m)"
begin

definition cached :: "'m \<Rightarrow> 'h set" where
  "cached m = {h. fetch h m \<noteq> None}"

lemma cached_insert [simp]: "cached (insert_info k i m) = insert k (cached m)"
  by (auto simp: cached_def fetch_insert)

lemma cached_delete [simp]: "cached (delete_info k m) = cached m - {k}"
  by (auto simp: cached_def fetch_delete)

lemma cached_mono_insert: "P \<subseteq> cached m \<Longrightarrow> insert k P \<subseteq> cached (insert_info k i m)"
  by auto

lemma cached_mono_delete: "P \<subseteq> cached m \<Longrightarrow> P - {k} \<subseteq> cached (delete_info k m)"
  by auto

end

interpretation backend_cache: tx_info_cache FetchCachedTxInfo InsertCachedTxInfo DeleteCachedTxInfo
  by unfold_locales
    (simp_all add: FetchCachedTxInfo_def InsertCachedTxInfo_def DeleteCachedTxInfo_def)

section \<open>Properties\<close>

lemma filterAPIs_eq:
  "filterAPIs isMiner nid apis acc = acc @
     [v \<leftarrow> map (\<lambda>v. if Namespace v = ''net'' then v\<lparr>api_Service := NetService (NewNetRPCService nid)\<rparr> else v) apis.
       Namespace v \<noteq> ''miner'' \<and> \<not> isPublicMinerAPI isMiner (api_Service v)]"
  by (induction apis arbitrary: acc) (simp_all add: Let_def)

text \<open>The RPC services offered are those of go-ethereum, in their order, without the mining ones:
  no service of namespace miner and no public miner API is among them, every service of namespace
  net is the backend's own with the configured network id, and every other service is kept as it
  is.\<close>

lemma APIs_without_mining:
  "(\<forall>v. v \<in> set (APIs isMiner nid apis) \<longrightarrow> Namespace v \<noteq> ''miner'' \<and> \<not> isPublicMinerAPI isMiner (api_Service v) \<and>
      (Namespace v = ''net'' \<longrightarrow> api_Service v = NetService \<lparr>networkVersion = nid\<rparr>)) \<and>
   [v \<leftarrow> APIs isMiner nid apis. Namespace v \<noteq> ''net''] =
     [v \<leftarrow> apis. Namespace v \<noteq> ''net'' \<and> Namespace v \<noteq> ''miner'' \<and> \<not> isPublicMinerAPI isMiner (api_Service v)] \<and>
   length [v \<leftarrow> APIs isMiner nid apis. Namespace v = ''net''] = length [v \<leftarrow> apis. Namespace v = ''net'']"
proof -
  have "length [v \<leftarrow> APIs isMiner nid apis. Namespace v = ''net''] = length [v \<leftarrow> apis. Namespace v = ''net'']"
    unfolding APIs_def filterAPIs_eq
    by (induction apis) (auto simp: isPublicMinerAPI_def)
  moreover have "[v \<leftarrow> APIs isMiner nid apis. Namespace v \<noteq> ''net''] =
     [v \<leftarrow> apis. Namespace v \<noteq> ''net'' \<and> Namespace v \<noteq> ''miner'' \<and> \<not> isPublicMinerAPI isMiner (api_Service v)]"
    unfolding APIs_def filterAPIs_eq by (induction apis) auto
  moreover have "Namespace v \<noteq> ''miner'' \<and> \<not> isPublicMinerAPI isMiner (api_Service v) \<and>
      (Namespace v = ''net'' \<longrightarrow> api_Service v = NetService \<lparr>networkVersion = nid\<rparr>)"
    if "v \<in> set (APIs isMiner nid apis)" for v
    using that unfolding APIs_def filterAPIs_eq
    by (auto simp: NewNetRPCService_def split: if_splits)
  ultimately show ?thesis by blast
qed

end
