(* ===== verification/AppTx.thy ===== *)
theory AppTx
  imports Backend
begin

text \<open>
  \<open>src/app/app.go\<close>, the handlers of transactions: \<open>CheckTx\<close> with \<open>validateTx\<close>, and \<open>DeliverTx\<close>.
  The application state is the record \<open>EthermintApplication\<close>, with the package variables of
  txfilter and \<open>core.EvmErrHardForkHeight\<close> that the application assigns; the strategy is the one the node
  starts the application with, never nil. Three things can happen to a transaction: the handler
  panics, it rejects the transaction with a code and a reason, or it goes on; a \<open>verdict\<close> is one of
  the three.

  The state that \<open>getCurrentState\<close> returns is that of the working block (\<open>backend.Es().State\<close>).
  \<open>types.Sender\<close> keeps a cache inside the transaction, which changes its running time and not its
  result; what \<open>SetFrom\<close> stores there is the field \<open>tx_from\<close>.
\<close>

section \<open>State\<close>

record ('c, 'b, 's, 'l, 'x) EthermintApplication =
  a_backend :: "('c, 'b, 's, 'l) Backend"
  a_checkTxState :: 's
  a_strategy :: "'x Strategy"
  a_punishment :: Punishment
  a_vars :: "'x txfilterVars"
  a_evmErrHeight :: int

definition maxTransactionSize :: int where
  "maxTransactionSize = 32768"

datatype CheckTxType = CheckTxType_New | CheckTxType_Recheck | CheckTxType_Local

section \<open>Verdicts\<close>

type_synonym 'a verdict = "panic + ((CodeType \<times> reason) + 'a)"

definition reject :: "CodeType \<Rightarrow> reason \<Rightarrow> 'a verdict" where
  "reject c r = Inr (Inl (c, r))"

definition goOn :: "'a \<Rightarrow> 'a verdict" where
  "goOn x = Inr (Inr x)"

definition verdict_bind :: "'a verdict \<Rightarrow> ('a \<Rightarrow> 'b verdict) \<Rightarrow> 'b verdict" where
  "verdict_bind m f =
     (case m of Inl p \<Rightarrow> Inl p | Inr (Inl cr) \<Rightarrow> Inr (Inl cr) | Inr (Inr x) \<Rightarrow> f x)"

definition orReject :: "CodeType \<Rightarrow> reason \<Rightarrow> 'a option \<Rightarrow> 'a verdict" where
  "orReject c r q = (case q of None \<Rightarrow> reject c r | Some x \<Rightarrow> goOn x)"

definition unlessErr :: "(string \<Rightarrow> CodeType \<times> reason) \<Rightarrow> string option \<Rightarrow> unit verdict" where
  "unlessErr f err = (case err of None \<Rightarrow> goOn () | Some msg \<Rightarrow> Inr (Inl (f msg)))"

lemma verdict_bind_simps [simp]:
  "verdict_bind (Inl p) f = Inl p"
  "verdict_bind (reject c r) f = reject c r"
  "verdict_bind (goOn x) f = f x"
  "verdict_bind (Inr (Inl cr)) f = Inr (Inl cr)"
  by (simp_all add: verdict_bind_def reject_def goOn_def)

lemma verdict_bind_goOn_iff:
  "verdict_bind m f = goOn y \<longleftrightarrow> (\<exists>x. m = goOn x \<and> f x = goOn y)"
  by (auto simp: verdict_bind_def goOn_def split: sum.splits)

lemma goOn_inject [simp]: "goOn x = goOn y \<longleftrightarrow> x = y"
  by (simp add: goOn_def)

lemma verdict_distinct [simp]:
  "reject c r \<noteq> goOn x" "goOn x \<noteq> reject c r" "Inl p \<noteq> goOn x" "goOn x \<noteq> Inl p"
  "Inr (Inl cr) \<noteq> goOn x" "goOn x \<noteq> Inr (Inl cr)" "Inl p \<noteq> reject c r" "reject c r \<noteq> Inl p"
  by (simp_all add: reject_def goOn_def)

lemma orReject_goOn_iff [simp]: "orReject c r q = goOn x \<longleftrightarrow> q = Some x"
  by (cases q) (auto simp: orReject_def)

lemma unlessErr_goOn_iff [simp]: "unlessErr f err = goOn u \<longleftrightarrow> err = None"
  by (cases err) (auto simp: unlessErr_def)

section \<open>Who sent a transaction\<close>

definition txSigner :: "'x Strategy \<Rightarrow> Transaction \<Rightarrow> Signer option" where
  "txSigner st tx = (if tx_Protected tx then s_signer st else Some HomesteadSigner)"

text \<open>A nil signer is dereferenced by \<open>types.Sender\<close>.\<close>

definition senderOf :: "'x txenv \<Rightarrow> Signer option \<Rightarrow> Transaction \<Rightarrow> address verdict" where
  "senderOf te signer tx =
     (case signer of
        None \<Rightarrow> Inl NilDeref
      | Some s \<Rightarrow> orReject CodeInternal ErrInvalidSender (Sender te s tx))"

definition decodeSubTx :: "'x txenv \<Rightarrow> Transaction \<Rightarrow> Transaction verdict" where
  "decodeSubTx te tx = orReject CodeInternal SubTxDecodeFailed (DecodeTxFromHexBytes te (tx_Data tx))"

definition checkRelayer :: "'x txenv \<Rightarrow> Transaction \<Rightarrow> Transaction \<Rightarrow> unit verdict" where
  "checkRelayer te tx subTx =
     unlessErr (\<lambda>m. (CodeInvalidSequence, RelayerMismatch m)) (CheckRelayerTx te tx subTx)"

definition deriveRelayer :: "'x txenv \<Rightarrow> address \<Rightarrow> Transaction \<Rightarrow> address verdict" where
  "deriveRelayer te from subTx = orReject CodeInternal RelayerSignatureFailed (DeriveRelayer te from subTx)"

definition txForVerify :: "'x txenv \<Rightarrow> Transaction \<Rightarrow> Transaction \<Rightarrow> Transaction verdict" where
  "txForVerify te subTx tx = orReject CodeInternal SubTxWithVRSFailed (WithVRS te subTx (tx_VRS tx))"

definition SetFrom :: "Signer option \<Rightarrow> address \<Rightarrow> Transaction \<Rightarrow> Transaction" where
  "SetFrom signer from tx = tx\<lparr>tx_from := map_option (\<lambda>s. (s, from)) signer\<rparr>"

definition plainTxInfo :: "'x txenv \<Rightarrow> Signer option \<Rightarrow> Transaction \<Rightarrow> TxInfo verdict" where
  "plainTxInfo te signer tx =
     verdict_bind (senderOf te signer tx) (\<lambda>from.
       goOn \<lparr>ti_Tx = Some tx, ti_From = from, ti_SubTx = None, ti_RelayFrom = 0\<rparr>)"

text \<open>\<open>validateTx\<close>, a transaction of another node.\<close>

definition remoteTxInfo :: "'x txenv \<Rightarrow> 'x Strategy \<Rightarrow> Transaction \<Rightarrow> TxInfo verdict" where
  "remoteTxInfo te st tx =
     (let signer = txSigner st tx in
      case tx_To tx of
        None \<Rightarrow> plainTxInfo te signer tx
      | Some to \<Rightarrow>
          if IsRelayTxFromClient te to then
            verdict_bind (senderOf te signer tx) (\<lambda>from.
            verdict_bind (decodeSubTx te tx) (\<lambda>subTx.
            verdict_bind (deriveRelayer te from subTx) (\<lambda>relayer.
            verdict_bind (checkRelayer te tx subTx) (\<lambda>_.
              goOn \<lparr>ti_Tx = Some tx, ti_From = from, ti_SubTx = Some subTx, ti_RelayFrom = relayer\<rparr>))))
          else if IsRelayTxFromRelayer te to then
            verdict_bind (decodeSubTx te tx) (\<lambda>subTx.
            verdict_bind (checkRelayer te tx subTx) (\<lambda>_.
            verdict_bind (txForVerify te subTx tx) (\<lambda>vtx.
            verdict_bind (senderOf te signer vtx) (\<lambda>from.
            verdict_bind (deriveRelayer te from subTx) (\<lambda>relayer.
              goOn \<lparr>ti_Tx = Some (SetFrom signer from tx), ti_From = from, ti_SubTx = Some subTx,
                    ti_RelayFrom = relayer\<rparr>)))))
          else plainTxInfo te signer tx)"

text \<open>\<open>DeliverTx\<close>, a transaction that is not in the cache. The tests come in another order.\<close>

definition deliverTxInfo :: "'x txenv \<Rightarrow> 'x Strategy \<Rightarrow> Transaction \<Rightarrow> TxInfo verdict" where
  "deliverTxInfo te st tx =
     (let signer = txSigner st tx in
      case tx_To tx of
        None \<Rightarrow> plainTxInfo te signer tx
      | Some to \<Rightarrow>
          if IsRelayTxFromRelayer te to then
            verdict_bind (decodeSubTx te tx) (\<lambda>subTx.
            verdict_bind (checkRelayer te tx subTx) (\<lambda>_.
            verdict_bind (txForVerify te subTx tx) (\<lambda>vtx.
            verdict_bind (senderOf te signer vtx) (\<lambda>from.
            verdict_bind (deriveRelayer te from subTx) (\<lambda>relayer.
              goOn \<lparr>ti_Tx = Some (SetFrom signer from tx), ti_From = from, ti_SubTx = Some subTx,
                    ti_RelayFrom = relayer\<rparr>)))))
          else
            verdict_bind (plainTxInfo te signer tx) (\<lambda>txInfo.
              if IsRelayTxFromClient te to then
                verdict_bind (decodeSubTx te tx) (\<lambda>subTx.
                verdict_bind (checkRelayer te tx subTx) (\<lambda>_.
                verdict_bind (deriveRelayer te (ti_From txInfo) subTx) (\<lambda>relayer.
                  goOn (txInfo\<lparr>ti_SubTx := Some subTx, ti_RelayFrom := relayer\<rparr>))))
              else goOn txInfo))"

section \<open>validateTx\<close>

definition isRelayInfo :: "TxInfo \<Rightarrow> bool" where
  "isRelayInfo i \<longleftrightarrow> ti_SubTx i \<noteq> None"

text \<open>The info a check works with: that of the transaction being broadcast, the cached one, or one
  computed from the transaction.\<close>

definition txInfoFor ::
  "'x txenv \<Rightarrow> 'x Strategy \<Rightarrow> ('c, 'b, 's, 'l) Backend \<Rightarrow> Transaction \<Rightarrow> CheckTxType \<Rightarrow> TxInfo verdict" where
  "txInfoFor te st b tx checkType =
     (case checkType of
        CheckTxType_Local \<Rightarrow> goOn (currentTxInfo b)
      | CheckTxType_Recheck \<Rightarrow>
          (case FetchCachedTxInfo (tx_Hash tx) b of
             None \<Rightarrow> Inl (PanicMsg ''The from address of tx should stay in cached'')
           | Some i \<Rightarrow> goOn i)
      | CheckTxType_New \<Rightarrow> remoteTxInfo te st tx)"

text \<open>Who pays the cost of the transaction in the check state. An ordinary transfer is charged to
  nobody.\<close>

definition chargeCost ::
  "'x txenv \<Rightarrow> 's statedb \<Rightarrow> 'x txfilterVars \<Rightarrow> int \<Rightarrow> Transaction \<Rightarrow> TxInfo \<Rightarrow> 's \<Rightarrow> 's verdict" where
  "chargeCost te db gv height tx i s =
     (case tx_To tx of
        None \<Rightarrow> goOn (SubBalance db s (ti_From i) (tx_Cost tx))
      | Some to \<Rightarrow>
          if IsAuthTx te to then
            verdict_bind (unlessErr (\<lambda>m. (CodeInvalidSequence, AuthTxFailed m))
                            (IsAuthBlocked te gv (ti_From i) (tx_Data tx) height False))
              (\<lambda>_. goOn (SubBalance db s (ti_From i) (tx_Cost tx)))
          else if isRelayInfo i then goOn (SubBalance db s (ti_RelayFrom i) (tx_Cost tx))
          else if IsMintTx te to then
            verdict_bind (unlessErr (\<lambda>m. (CodeInvalidSequence, MintTxFailed m))
                            (IsMintBlocked te gv (ti_From i)))
              (\<lambda>_. goOn (SubBalance db s (ti_From i) (tx_Cost tx)))
          else goOn s)"

definition creditValue :: "'x txenv \<Rightarrow> 's statedb \<Rightarrow> Transaction \<Rightarrow> 's \<Rightarrow> 's" where
  "creditValue te db tx s =
     (case tx_To tx of
        Some to \<Rightarrow> if IsMintTx te to then s else AddBalance db s to (tx_Value tx)
      | None \<Rightarrow> s)"

definition payerBalance :: "'s statedb \<Rightarrow> TxInfo \<Rightarrow> 's \<Rightarrow> int" where
  "payerBalance db i s = GetBalance db s (if isRelayInfo i then ti_RelayFrom i else ti_From i)"

text \<open>The checks and effects on the check state, once the sender is known; the result carries the
  intrinsic gas.\<close>

definition checkState ::
  "'x txenv \<Rightarrow> 's statedb \<Rightarrow> 'x txfilterVars \<Rightarrow> uint64 \<Rightarrow> int \<Rightarrow> Transaction \<Rightarrow> TxInfo \<Rightarrow> 's \<Rightarrow>
     ('s \<times> uint64) verdict" where
  "checkState te db gv gasLimit height tx i s =
     (if tx_Value tx < 0 then reject CodeInvalidCoins ErrNegativeValue
      else if gasLimit < tx_Gas tx then reject CodeInternal ErrGasLimitReached
      else if GetNonce db s (ti_From i) \<noteq> tx_Nonce tx then reject CodeInvalidSequence NonceMismatch
      else if payerBalance db i s < tx_Cost tx then reject CodeInsufficientFunds BalanceTooLow
      else
        (let (intrGas, gasErr) = IntrinsicGas te (tx_Data tx) (tx_To tx = None) in
         if gasErr \<noteq> None \<and> tx_Gas tx < intrGas
         then reject CodeInsufficientCoins (IntrinsicGasError (the gasErr))
         else
           verdict_bind (unlessErr (\<lambda>m. (CodeInvalidAddress, TxBlocked m))
               (IsBetBlocked te gv (ti_From i) (tx_To tx) (payerBalance db i s) (tx_Data tx) height False))
             (\<lambda>_. verdict_bind (chargeCost te db gv height tx i s)
             (\<lambda>s1. goOn (SetNonce db (creditValue te db tx s1) (ti_From i) (tx_Nonce tx + 1), intrGas)))))"

definition validateTx ::
  "'x txenv \<Rightarrow> 's statedb \<Rightarrow> Transaction \<Rightarrow> CheckTxType \<Rightarrow> ('c, 'b, 's, 'l, 'x) EthermintApplication \<Rightarrow>
     panic + ('c, 'b, 's, 'l, 'x) EthermintApplication \<times> ResponseCheckTx" where
  "validateTx te db tx checkType app =
     (if tx_Size tx > maxTransactionSize then Inr (app, rejectTx CodeInternal ErrOversizedData)
      else
        (let b = a_backend app in
         case txInfoFor te (a_strategy app) b tx checkType of
           Inl p \<Rightarrow> Inl p
         | Inr (Inl (c, r)) \<Rightarrow> Inr (app, rejectTx c r)
         | Inr (Inr i) \<Rightarrow>
             (case checkState te db (a_vars app) (be_GasLimit b) (ws_height (be_work b)) tx i
                     (a_checkTxState app) of
                Inl p \<Rightarrow> Inl p
              | Inr (Inl (c, r)) \<Rightarrow>
                  Inr (if checkType = CheckTxType_Recheck
                       then app\<lparr>a_backend := DeleteCachedTxInfo (tx_Hash tx) b\<rparr> else app, rejectTx c r)
              | Inr (Inr (s', intrGas)) \<Rightarrow>
                  Inr (app\<lparr>a_checkTxState := s',
                           a_backend := (if checkType = CheckTxType_Recheck then b
                                         else InsertCachedTxInfo (tx_Hash tx) i b)\<rparr>,
                       \<lparr>rc_Code = CodeOK, rc_Log = NoReason, GasWanted = sint intrGas\<rparr>))))"

definition CheckTx ::
  "'x txenv \<Rightarrow> 's statedb \<Rightarrow> bytes \<Rightarrow> CheckTxType \<Rightarrow> ('c, 'b, 's, 'l, 'x) EthermintApplication \<Rightarrow>
     panic + ('c, 'b, 's, 'l, 'x) EthermintApplication \<times> ResponseCheckTx" where
  "CheckTx te db txBytes checkType app =
     (if checkType = CheckTxType_Local
      then panic_bind (deref (ti_Tx (currentTxInfo (a_backend app)))) (\<lambda>tx. validateTx te db tx checkType app)
      else case DecodeRLP te txBytes of
        Inl err \<Rightarrow> Inr (app, rejectTx CodeInternal (DecodeError err))
      | Inr tx \<Rightarrow> validateTx te db tx checkType app)"

section \<open>DeliverTx\<close>

text \<open>The tables that a running transaction may change: those of the strategy and the package
  variables of txfilter.\<close>

type_synonym 'x world = "'x PosTable option \<times> 'x AuthTable option \<times> 'x txfilterVars"

definition worldOf :: "('c, 'b, 's, 'l, 'x) EthermintApplication \<Rightarrow> 'x world" where
  "worldOf app = (s_NextPosTable (a_strategy app), s_AuthTable (a_strategy app), a_vars app)"

definition setWorld ::
  "'x world \<Rightarrow> ('c, 'b, 's, 'l, 'x) EthermintApplication \<Rightarrow> ('c, 'b, 's, 'l, 'x) EthermintApplication" where
  "setWorld w app =
     (let (pt, at, gv) = w in
      app\<lparr>a_strategy := (a_strategy app)\<lparr>s_NextPosTable := pt, s_AuthTable := at\<rparr>, a_vars := gv\<rparr>)"

text \<open>The transaction that is handed on. An info that was just computed points to the transaction itself,
  which \<open>SetFrom\<close> has changed in place if it came from a relayer; the info of the cache points to the one
  its check decoded, and the one of this call is handed on as it was decoded.\<close>

definition deliveredTx :: "TxInfo option \<Rightarrow> Transaction \<Rightarrow> TxInfo \<Rightarrow> Transaction" where
  "deliveredTx found tx i = (case (found, ti_Tx i) of (None, Some t) \<Rightarrow> t | _ \<Rightarrow> tx)"

definition app_DeliverTx ::
  "('c, 'b, 's, 'l, 'x world) ethenv \<Rightarrow> 'x txenv \<Rightarrow> bytes \<Rightarrow> ('c, 'b, 's, 'l, 'x) EthermintApplication \<Rightarrow>
     panic + ('c, 'b, 's, 'l, 'x) EthermintApplication \<times> ResponseDeliverTx" where
  "app_DeliverTx en te txBytes app =
     (case DecodeRLP te txBytes of
        Inl err \<Rightarrow> Inr (app, \<lparr>rd_Code = CodeInternal, rd_Log = DecodeError err\<rparr>)
      | Inr tx \<Rightarrow>
          (let b = a_backend app;
               found = FetchCachedTxInfo (tx_Hash tx) b in
           case (case found of Some i \<Rightarrow> goOn i | None \<Rightarrow> deliverTxInfo te (a_strategy app) tx) of
             Inl p \<Rightarrow> Inl p
           | Inr (Inl (c, r)) \<Rightarrow> Inr (app, \<lparr>rd_Code = c, rd_Log = r\<rparr>)
           | Inr (Inr i) \<Rightarrow>
               (let b1 = (if found \<noteq> None then DeleteCachedTxInfo (tx_Hash tx) b else b);
                    ((b2, w2), res) = be_DeliverTx en (deliveredTx found tx i) i (b1, worldOf app);
                    app2 = setWorld w2 (app\<lparr>a_backend := b2\<rparr>) in
                if rd_Code res \<noteq> CodeOK then Inr (app2, res)
                else Inr (app2, \<lparr>rd_Code = CodeOK, rd_Log = NoReason\<rparr>))))"

end
