(* ===== verification/AppTxProps.thy ===== *)
theory AppTxProps
  imports AppTx
begin

text \<open>
  Correctness of the transaction handlers: what an accepted check guarantees and changes, that a
  rejected one changes nothing, replay protection, the mempool invariant behind the panic of a
  recheck, agreement of the cached and the recomputed transaction info, and three behaviours of
  the checks that a reader of the code might not expect.
\<close>

section \<open>Rejections carry an error code\<close>

definition rejects_ok :: "'a verdict \<Rightarrow> bool" where
  "rejects_ok v \<longleftrightarrow> (\<forall>r. v \<noteq> Inr (Inl (CodeOK, r)))"

lemma rejects_ok_simps [simp]:
  "rejects_ok (goOn x)" "rejects_ok (Inl p)" "rejects_ok (reject c r) \<longleftrightarrow> c \<noteq> CodeOK"
  "rejects_ok (orReject c r q) \<longleftrightarrow> c \<noteq> CodeOK \<or> q \<noteq> None"
  by (auto simp: rejects_ok_def goOn_def reject_def orReject_def split: option.splits)

lemma rejects_ok_unlessErr [simp]: "(\<And>m. fst (f m) \<noteq> CodeOK) \<Longrightarrow> rejects_ok (unlessErr f err)"
  by (cases err) (auto simp: unlessErr_def rejects_ok_def goOn_def prod_eq_iff dest: arg_cong [of _ _ fst])

lemma rejects_ok_bind [intro]:
  "rejects_ok m \<Longrightarrow> (\<And>x. m = goOn x \<Longrightarrow> rejects_ok (f x)) \<Longrightarrow> rejects_ok (verdict_bind m f)"
  by (auto simp: verdict_bind_def rejects_ok_def goOn_def split: sum.splits)

lemmas identify_defs = senderOf_def decodeSubTx_def checkRelayer_def deriveRelayer_def txForVerify_def

lemma rejects_ok_senderOf [simp]: "rejects_ok (senderOf te sg tx)"
  by (simp add: senderOf_def split: option.splits)

lemma rejects_ok_plain [simp]: "rejects_ok (plainTxInfo te sg tx)"
  unfolding plainTxInfo_def by (intro rejects_ok_bind) simp_all

lemma rejects_ok_remote: "rejects_ok (remoteTxInfo te st tx)"
  unfolding remoteTxInfo_def Let_def
  by (auto split: option.splits intro!: rejects_ok_bind simp: decodeSubTx_def checkRelayer_def
      deriveRelayer_def txForVerify_def)

lemma rejects_ok_txInfoFor: "rejects_ok (txInfoFor te st b tx ct)"
  by (simp add: txInfoFor_def rejects_ok_remote split: CheckTxType.splits option.splits)

lemma rejects_ok_chargeCost: "rejects_ok (chargeCost te db gv h tx i s)"
  unfolding chargeCost_def by (auto split: option.splits intro!: rejects_ok_bind)

lemma rejects_ok_checkState: "rejects_ok (checkState te db gv g h tx i s)"
  unfolding checkState_def Let_def
  by (auto split: option.splits prod.splits intro!: rejects_ok_bind rejects_ok_chargeCost)

lemma checkState_no_panic: "checkState te db gv g h tx i s \<noteq> Inl p"
  unfolding checkState_def chargeCost_def unlessErr_def reject_def goOn_def verdict_bind_def Let_def
  by (auto split: option.splits prod.splits sum.splits if_splits)

section \<open>The three outcomes of a check\<close>

lemma checkState_goOn:
  assumes "checkState te db gv g h tx i s = goOn (s', gas)"
  shows "0 \<le> tx_Value tx" and "tx_Gas tx \<le> g" and "GetNonce db s (ti_From i) = tx_Nonce tx"
    and "tx_Cost tx \<le> payerBalance db i s"
    and "IsBetBlocked te gv (ti_From i) (tx_To tx) (payerBalance db i s) (tx_Data tx) h False = None"
    and "\<exists>s1. chargeCost te db gv h tx i s = goOn s1 \<and>
      s' = SetNonce db (creditValue te db tx s1) (ti_From i) (tx_Nonce tx + 1)"
  using assms by (auto simp: checkState_def Let_def verdict_bind_goOn_iff split: if_splits prod.splits)

inductive validated ::
  "'x txenv \<Rightarrow> 's statedb \<Rightarrow> Transaction \<Rightarrow> CheckTxType \<Rightarrow> ('c, 'b, 's, 'l, 'x) EthermintApplication \<Rightarrow>
     ('c, 'b, 's, 'l, 'x) EthermintApplication \<Rightarrow> ResponseCheckTx \<Rightarrow> bool"
  for te db tx ct app where
  early: "c \<noteq> CodeOK \<Longrightarrow> validated te db tx ct app app (rejectTx c r)"
| failed: "txInfoFor te (a_strategy app) (a_backend app) tx ct = goOn i \<Longrightarrow> c \<noteq> CodeOK \<Longrightarrow>
    validated te db tx ct app
      (if ct = CheckTxType_Recheck then app\<lparr>a_backend := DeleteCachedTxInfo (tx_Hash tx) (a_backend app)\<rparr> else app)
      (rejectTx c r)"
| passed: "tx_Size tx \<le> maxTransactionSize \<Longrightarrow>
    txInfoFor te (a_strategy app) (a_backend app) tx ct = goOn i \<Longrightarrow>
    checkState te db (a_vars app) (be_GasLimit (a_backend app)) (ws_height (be_work (a_backend app))) tx i
      (a_checkTxState app) = goOn (s', gas) \<Longrightarrow>
    validated te db tx ct app
      (app\<lparr>a_checkTxState := s', a_backend := (if ct = CheckTxType_Recheck then a_backend app
         else InsertCachedTxInfo (tx_Hash tx) i (a_backend app))\<rparr>)
      \<lparr>rc_Code = CodeOK, rc_Log = NoReason, GasWanted = sint gas\<rparr>"

inductive_cases validatedE: "validated te db tx ct app app' resp"

lemma validateTx_validated:
  assumes "validateTx te db tx ct app = Inr (app', resp)"
  shows "validated te db tx ct app app' resp"
proof (cases "tx_Size tx > maxTransactionSize")
  case True
  with assms show ?thesis by (auto simp: validateTx_def intro: validated.early)
next
  case False
  let ?i = "txInfoFor te (a_strategy app) (a_backend app) tx ct"
  show ?thesis
  proof (cases "?i")
    case (Inl p)
    with assms False show ?thesis by (simp add: validateTx_def)
  next
    case (Inr v)
    show ?thesis
    proof (cases v)
      case (Inl cr)
      obtain c r where cr: "cr = (c, r)" by fastforce
      have "c \<noteq> CodeOK" using rejects_ok_txInfoFor [of te "a_strategy app" "a_backend app" tx ct] Inr Inl cr
        by (auto simp: rejects_ok_def)
      with assms False Inr Inl cr show ?thesis by (auto simp: validateTx_def Let_def intro: validated.early)
    next
      case (Inr i)
      with \<open>?i = Inr v\<close> have i: "?i = goOn i" by (simp add: goOn_def)
      let ?c = "checkState te db (a_vars app) (be_GasLimit (a_backend app))
        (ws_height (be_work (a_backend app))) tx i (a_checkTxState app)"
      consider c r where "?c = Inr (Inl (c, r))" "c \<noteq> CodeOK" | s' gas where "?c = goOn (s', gas)"
        using rejects_ok_checkState checkState_no_panic unfolding rejects_ok_def goOn_def
        by (metis obj_sumE surj_pair)
      then show ?thesis
      proof cases
        case (1 c r)
        with assms False i have "app' = (if ct = CheckTxType_Recheck
            then app\<lparr>a_backend := DeleteCachedTxInfo (tx_Hash tx) (a_backend app)\<rparr> else app)"
          "resp = rejectTx c r"
          by (auto simp: validateTx_def Let_def goOn_def)
        with validated.failed [OF i 1(2)] show ?thesis by simp
      next
        case (2 s' gas)
        with assms False i have "app' = app\<lparr>a_checkTxState := s',
            a_backend := (if ct = CheckTxType_Recheck then a_backend app
              else InsertCachedTxInfo (tx_Hash tx) i (a_backend app))\<rparr>"
          "resp = \<lparr>rc_Code = CodeOK, rc_Log = NoReason, GasWanted = sint gas\<rparr>"
          by (auto simp: validateTx_def Let_def goOn_def)
        with validated.passed [OF _ i 2] False show ?thesis by simp
      qed
    qed
  qed
qed

lemma validateTx_OK:
  assumes "validateTx te db tx ct app = Inr (app', resp)" and "rc_Code resp = CodeOK"
  obtains i s' gas where "tx_Size tx \<le> maxTransactionSize"
    and "txInfoFor te (a_strategy app) (a_backend app) tx ct = goOn i"
    and "checkState te db (a_vars app) (be_GasLimit (a_backend app)) (ws_height (be_work (a_backend app))) tx i
      (a_checkTxState app) = goOn (s', gas)"
    and "app' = app\<lparr>a_checkTxState := s', a_backend := (if ct = CheckTxType_Recheck then a_backend app
         else InsertCachedTxInfo (tx_Hash tx) i (a_backend app))\<rparr>"
  using validateTx_validated [OF assms(1)] assms(2) that by (auto elim: validatedE)

lemma txInfoFor_Recheck_goOn:
  "txInfoFor te st b tx CheckTxType_Recheck = goOn i \<longleftrightarrow> FetchCachedTxInfo (tx_Hash tx) b = Some i"
  by (auto simp: txInfoFor_def split: option.splits)

section \<open>Effects on the check state\<close>

lemma chargeCost_nonce:
  assumes "statedb_laws db" and "chargeCost te db gv h tx i s = goOn s1"
  shows "GetNonce db s1 a = GetNonce db s a"
  using assms(2) statedb_lawsD [OF assms(1)]
  by (auto simp: chargeCost_def verdict_bind_goOn_iff split: option.splits if_splits)

lemma creditValue_nonce:
  "statedb_laws db \<Longrightarrow> GetNonce db (creditValue te db tx s) a = GetNonce db s a"
  by (auto simp: creditValue_def statedb_lawsD split: option.splits)

lemma checkState_nonce:
  assumes "statedb_laws db" and "checkState te db gv g h tx i s = goOn (s', gas)"
  shows "GetNonce db s' a = (if a = ti_From i then tx_Nonce tx + 1 else GetNonce db s a)"
  using checkState_goOn(6) [OF assms(2)] statedb_lawsD(5) [OF assms(1)]
  by (auto simp: creditValue_nonce [OF assms(1)] chargeCost_nonce [OF assms(1)])

text \<open>C9. A transaction passes the check only if it deserves to: whatever the kind of check, an answer
  with code 0 means that it is at most 32 KB, transfers no negative value, fits in the remaining gas
  of the block, carries exactly the sender's nonce, can be paid by the payer (the relayer of a relayed
  transaction, else the sender) and is not blocked. The check then advances the sender's nonce by
  one, leaves every other nonce alone, and the transaction's info is in the cache.\<close>

theorem validateTx_accepts:
  assumes "statedb_laws db" and "validateTx te db tx ct app = Inr (app', resp)" and "rc_Code resp = CodeOK"
  shows "\<exists>i. txInfoFor te (a_strategy app) (a_backend app) tx ct = goOn i \<and>
    tx_Size tx \<le> 32768 \<and> 0 \<le> tx_Value tx \<and> tx_Gas tx \<le> gp (be_work (a_backend app)) \<and>
    GetNonce db (a_checkTxState app) (ti_From i) = tx_Nonce tx \<and>
    tx_Cost tx \<le> payerBalance db i (a_checkTxState app) \<and>
    IsBetBlocked te (a_vars app) (ti_From i) (tx_To tx) (payerBalance db i (a_checkTxState app)) (tx_Data tx)
      (ws_height (be_work (a_backend app))) False = None \<and>
    (\<forall>a. GetNonce db (a_checkTxState app') a =
       (if a = ti_From i then tx_Nonce tx + 1 else GetNonce db (a_checkTxState app) a)) \<and>
    FetchCachedTxInfo (tx_Hash tx) (a_backend app') = Some i"
proof -
  obtain i s' gas where sz: "tx_Size tx \<le> maxTransactionSize"
    and i: "txInfoFor te (a_strategy app) (a_backend app) tx ct = goOn i"
    and c: "checkState te db (a_vars app) (be_GasLimit (a_backend app)) (ws_height (be_work (a_backend app))) tx i
      (a_checkTxState app) = goOn (s', gas)"
    and app': "app' = app\<lparr>a_checkTxState := s', a_backend := (if ct = CheckTxType_Recheck then a_backend app
         else InsertCachedTxInfo (tx_Hash tx) i (a_backend app))\<rparr>"
    by (rule validateTx_OK [OF assms(2,3)])
  have "FetchCachedTxInfo (tx_Hash tx) (a_backend app') = Some i"
    using i by (auto simp: app' txInfoFor_Recheck_goOn backend_cache.fetch_insert)
  with checkState_goOn [OF c] checkState_nonce [OF assms(1) c] sz i show ?thesis
    by (auto simp: app' maxTransactionSize_def be_GasLimit_def es_GasLimit_def)
qed

text \<open>C23. A rejected transaction leaves no trace: when a check does not answer with code 0, the check
  state, the strategy, the tables and the working block are as before; the one thing that may change
  is the cache, from which a failed recheck drops the transaction's own entry.\<close>

theorem validateTx_rejects:
  assumes "validateTx te db tx ct app = Inr (app', resp)" and "rc_Code resp \<noteq> CodeOK"
  shows "app' = app \<or>
    ct = CheckTxType_Recheck \<and> app' = app\<lparr>a_backend := DeleteCachedTxInfo (tx_Hash tx) (a_backend app)\<rparr>"
  using validateTx_validated [OF assms(1)] assms(2) by (auto elim!: validatedE split: if_splits)

section \<open>Replay and order\<close>

text \<open>A transaction is not accepted twice: a second check of an accepted transaction is rejected
  because of its nonce, and changes nothing.\<close>

lemma validateTx_no_replay:
  assumes "statedb_laws db" and "validateTx te db tx CheckTxType_New app = Inr (app', resp)"
    and "rc_Code resp = CodeOK"
  shows "validateTx te db tx CheckTxType_New app' = Inr (app', rejectTx CodeInvalidSequence NonceMismatch)"
proof -
  obtain i s' gas where sz: "tx_Size tx \<le> maxTransactionSize"
    and i: "txInfoFor te (a_strategy app) (a_backend app) tx CheckTxType_New = goOn i"
    and c: "checkState te db (a_vars app) (be_GasLimit (a_backend app)) (ws_height (be_work (a_backend app))) tx i
      (a_checkTxState app) = goOn (s', gas)"
    and app': "app' = app\<lparr>a_checkTxState := s',
      a_backend := (if CheckTxType_New = CheckTxType_Recheck then a_backend app
         else InsertCachedTxInfo (tx_Hash tx) i (a_backend app))\<rparr>"
    by (rule validateTx_OK [OF assms(2,3)])
  have "GetNonce db s' (ti_From i) \<noteq> tx_Nonce tx"
    using checkState_nonce [OF assms(1) c, of "ti_From i"] by simp
  then have "checkState te db gv (be_GasLimit (a_backend app)) h tx i s' =
      reject CodeInvalidSequence NonceMismatch" for gv h
    using checkState_goOn(1,2) [OF c] unfolding checkState_def by (simp flip: not_le)
  with sz i show ?thesis
    by (simp add: validateTx_def app' Let_def txInfoFor_def InsertCachedTxInfo_def be_GasLimit_def
        goOn_def reject_def)
qed

text \<open>A run of checks of new transactions, with their answers.\<close>

fun validateTxs ::
  "'x txenv \<Rightarrow> 's statedb \<Rightarrow> Transaction list \<Rightarrow> ('c, 'b, 's, 'l, 'x) EthermintApplication \<Rightarrow>
     panic + ('c, 'b, 's, 'l, 'x) EthermintApplication \<times> ResponseCheckTx list" where
  "validateTxs te db [] app = Inr (app, [])"
| "validateTxs te db (tx # txs) app =
     panic_bind (validateTx te db tx CheckTxType_New app) (\<lambda>(app1, r).
     panic_bind (validateTxs te db txs app1) (\<lambda>(app2, rs). Inr (app2, r # rs)))"

definition sentBy :: "'x txenv \<Rightarrow> 'x Strategy \<Rightarrow> address \<Rightarrow> Transaction \<Rightarrow> bool" where
  "sentBy te st a tx \<longleftrightarrow> (case remoteTxInfo te st tx of Inr (Inr i) \<Rightarrow> ti_From i = a | _ \<Rightarrow> False)"

lemma validateTx_strategy:
  "validateTx te db tx ct app = Inr (app', resp) \<Longrightarrow> a_strategy app' = a_strategy app"
  by (drule validateTx_validated) (auto elim!: validatedE)

lemma validateTx_New_nonce:
  assumes "statedb_laws db" and "validateTx te db tx CheckTxType_New app = Inr (app', r)"
  shows "if rc_Code r = CodeOK \<and> sentBy te (a_strategy app) a tx
    then tx_Nonce tx = GetNonce db (a_checkTxState app) a \<and>
      GetNonce db (a_checkTxState app') a = GetNonce db (a_checkTxState app) a + 1
    else GetNonce db (a_checkTxState app') a = GetNonce db (a_checkTxState app) a"
  using validateTx_validated [OF assms(2)]
proof (cases rule: validated.cases)
  case (passed i s' gas)
  then have "sentBy te (a_strategy app) a tx \<longleftrightarrow> a = ti_From i"
    by (auto simp: txInfoFor_def sentBy_def goOn_def)
  with passed checkState_nonce [OF assms(1) passed(5), of a] checkState_goOn(3) [OF passed(5)]
  show ?thesis by auto
qed auto

text \<open>C12. The accepted transactions of one sender have consecutive nonces: in every run of checks of
  new transactions, of any senders, interleaved and with rejections in between, the accepted
  transactions of a sender carry the sender's nonce at the start of the run, the next one, and so on
  without gap or repetition.\<close>

theorem validateTxs_consecutive_nonces:
  assumes "statedb_laws db" and "validateTxs te db txs app = Inr (app', rs)"
    and "acc = map fst [p \<leftarrow> zip txs rs. rc_Code (snd p) = CodeOK \<and> sentBy te (a_strategy app) a (fst p)]"
  shows "map tx_Nonce acc = map (\<lambda>k. GetNonce db (a_checkTxState app) a + of_nat k) [0..<length acc] \<and>
    GetNonce db (a_checkTxState app') a = GetNonce db (a_checkTxState app) a + of_nat (length acc)"
  using assms(2,3)
proof (induction txs arbitrary: app rs acc)
  case Nil
  then show ?case by simp
next
  case (Cons tx txs)
  then obtain app1 r rs' where v: "validateTx te db tx CheckTxType_New app = Inr (app1, r)"
    and vs: "validateTxs te db txs app1 = Inr (app', rs')" and rs: "rs = r # rs'" by auto
  let ?acc = "map fst [p \<leftarrow> zip txs rs'. rc_Code (snd p) = CodeOK \<and> sentBy te (a_strategy app) a (fst p)]"
  have st: "a_strategy app1 = a_strategy app" by (rule validateTx_strategy [OF v])
  note IH = Cons.IH [OF vs refl, unfolded st]
  note n = validateTx_New_nonce [OF assms(1) v, of a]
  show ?case
  proof (cases "rc_Code r = CodeOK \<and> sentBy te (a_strategy app) a tx")
    case True
    then have acc: "acc = tx # ?acc" using Cons.prems(2) rs by simp
    have "map (\<lambda>k. GetNonce db (a_checkTxState app) a + of_nat k) [0..<Suc (length ?acc)] =
        GetNonce db (a_checkTxState app) a #
        map (\<lambda>k. GetNonce db (a_checkTxState app1) a + of_nat k) [0..<length ?acc]"
      using n True by (simp add: upt_conv_Cons map_Suc_upt [symmetric] comp_def ac_simps del: upt_Suc)
    with IH n True show ?thesis unfolding acc by (simp del: upt_Suc)
  next
    case False
    with IH n Cons.prems(2) rs show ?thesis by auto
  qed
qed

section \<open>The mempool and the cache\<close>

text \<open>The life of the mempool: a new or local transaction that passes its check enters it, a recheck is
  made of a member only and drops it when it fails, a delivered transaction leaves it, and the rest
  of the program leaves the cache alone.\<close>

inductive mempool ::
  "('c, 'b, 's, 'l, 'x world) ethenv \<Rightarrow> 'x txenv \<Rightarrow> 's statedb \<Rightarrow> hash set \<Rightarrow>
     ('c, 'b, 's, 'l, 'x) EthermintApplication \<Rightarrow> bool"
  for en te db where
  start: "mempool en te db {} app"
| enter: "mempool en te db M app \<Longrightarrow> ct \<noteq> CheckTxType_Recheck \<Longrightarrow>
    validateTx te db tx ct app = Inr (app', r) \<Longrightarrow>
    mempool en te db (if rc_Code r = CodeOK then insert (tx_Hash tx) M else M) app'"
| recheck: "mempool en te db M app \<Longrightarrow> tx_Hash tx \<in> M \<Longrightarrow>
    validateTx te db tx CheckTxType_Recheck app = Inr (app', r) \<Longrightarrow>
    mempool en te db (if rc_Code r = CodeOK then M else M - {tx_Hash tx}) app'"
| deliver: "mempool en te db M app \<Longrightarrow> DecodeRLP te txBytes = Inr tx \<Longrightarrow>
    app_DeliverTx en te txBytes app = Inr (app', d) \<Longrightarrow> mempool en te db (M - {tx_Hash tx}) app'"
| other: "mempool en te db M app \<Longrightarrow> cachedTxInfo (a_backend app') = cachedTxInfo (a_backend app) \<Longrightarrow>
    mempool en te db M app'"

lemma cached_eq: "backend_cache.cached b = dom (cachedTxInfo b)"
  by (auto simp: backend_cache.cached_def FetchCachedTxInfo_def)

lemma validateTx_cached:
  assumes "validateTx te db tx ct app = Inr (app', r)"
  shows "if rc_Code r = CodeOK
    then backend_cache.cached (a_backend app') = insert (tx_Hash tx) (backend_cache.cached (a_backend app))
    else backend_cache.cached (a_backend app) - (if ct = CheckTxType_Recheck then {tx_Hash tx} else {}) \<subseteq>
      backend_cache.cached (a_backend app')"
  using validateTx_validated [OF assms]
proof (cases rule: validated.cases)
  case (passed i s' gas)
  then show ?thesis
    by (auto simp: txInfoFor_Recheck_goOn backend_cache.cached_def backend_cache.fetch_insert)
qed auto

lemma be_DeliverTx_cache:
  "be_DeliverTx en tx i (b, w) = ((b', w'), r) \<Longrightarrow> cachedTxInfo b' = cachedTxInfo b"
  by (auto simp: be_DeliverTx_def Let_def split: prod.splits)

lemma setWorld_backend [simp]: "a_backend (setWorld w app) = a_backend app"
  by (simp add: setWorld_def Let_def split: prod.splits)

lemma app_DeliverTx_cached:
  assumes "app_DeliverTx en te txBytes app = Inr (app', d)" and "DecodeRLP te txBytes = Inr tx"
  shows "backend_cache.cached (a_backend app) - {tx_Hash tx} \<subseteq> backend_cache.cached (a_backend app')"
  using assms unfolding app_DeliverTx_def
  by (auto simp: Let_def cached_eq DeleteCachedTxInfo_def split: sum.splits prod.splits if_splits
      dest!: be_DeliverTx_cache)

lemma mempool_cached: "mempool en te db M app \<Longrightarrow> M \<subseteq> backend_cache.cached (a_backend app)"
proof (induction rule: mempool.induct)
  case (enter M app ct tx app' r)
  with validateTx_cached [OF enter(3)] show ?case by (auto split: if_splits)
next
  case (recheck M app tx app' r)
  with validateTx_cached [OF recheck(3)] show ?case by (auto split: if_splits)
next
  case (deliver M app txBytes tx app' d)
  with app_DeliverTx_cached [OF deliver(3,2)] show ?case by blast
qed (auto simp: cached_eq)


section \<open>Checked and delivered info agree\<close>

text \<open>The two relay addresses of txfilter are different.\<close>

definition relay_disjoint :: "'x txenv \<Rightarrow> bool" where
  "relay_disjoint te \<longleftrightarrow> (\<forall>a. \<not> (IsRelayTxFromClient te a \<and> IsRelayTxFromRelayer te a))"

lemma remote_deliver_info:
  assumes "relay_disjoint te"
  shows "remoteTxInfo te st tx = goOn i \<longleftrightarrow> deliverTxInfo te st tx = goOn i"
proof (cases "tx_To tx")
  case None
  then show ?thesis by (simp add: remoteTxInfo_def deliverTxInfo_def)
next
  case (Some to)
  have "\<not> (IsRelayTxFromClient te to \<and> IsRelayTxFromRelayer te to)"
    using assms by (simp add: relay_disjoint_def)
  with Some show ?thesis
    by (auto simp: remoteTxInfo_def deliverTxInfo_def Let_def verdict_bind_goOn_iff plainTxInfo_def
        decodeSubTx_def checkRelayer_def deriveRelayer_def)
qed

text \<open>A transaction without the sender that \<open>SetFrom\<close> may have stored in it. Two transactions that agree up to
  this field have the same bytes and the same hash.\<close>

definition unsent :: "Transaction \<Rightarrow> Transaction" where
  "unsent tx = tx\<lparr>tx_from := None\<rparr>"

lemma unsent_simps [simp]:
  "unsent (tx\<lparr>tx_from := f\<rparr>) = unsent tx" "unsent (SetFrom signer from tx) = unsent tx" "tx_Hash (unsent tx) = tx_Hash tx"
  by (simp_all add: unsent_def SetFrom_def)

lemma unsent_cong: "unsent tx = unsent tx' \<longleftrightarrow> tx = tx'\<lparr>tx_from := tx_from tx\<rparr>"
  by (cases tx; cases tx') (auto simp: unsent_def)

text \<open>go-ethereum does not look at the stored sender: the execution takes the sender from the info it is
  given, and a block is what its header and the encoded transactions say.\<close>

definition sender_unseen :: "('c, 'b, 's, 'l, 'w) ethenv \<Rightarrow> bool" where
  "sender_unseen en \<longleftrightarrow>
     (\<forall>bc h tx i x. ApplyTransactionWithInfo en bc h (unsent tx) i x = ApplyTransactionWithInfo en bc h tx i x) \<and>
     (\<forall>h txs rs. NewBlock en h (map unsent txs) rs = NewBlock en h txs rs)"

lemma sender_unseenD:
  assumes "sender_unseen en"
  shows "unsent tx = unsent tx' \<Longrightarrow> ApplyTransactionWithInfo en bc h tx i x = ApplyTransactionWithInfo en bc h tx' i x"
    and "map unsent txs = map unsent txs' \<Longrightarrow> NewBlock en h txs rs = NewBlock en h txs' rs"
  using assms unfolding sender_unseen_def by metis+

text \<open>The application with the stored senders left out of the block under construction.\<close>

definition sealed :: "('b, 's, 'l) workState \<Rightarrow> ('b, 's, 'l) workState" where
  "sealed ws = ws\<lparr>transactions := map unsent (transactions ws)\<rparr>"

definition sealedApp :: "('c, 'b, 's, 'l, 'x) EthermintApplication \<Rightarrow> ('c, 'b, 's, 'l, 'x) EthermintApplication" where
  "sealedApp app = app\<lparr>a_backend := (a_backend app)\<lparr>be_work := sealed (be_work (a_backend app))\<rparr>\<rparr>"

text \<open>The info that \<open>DeliverTx\<close> computes points to the transaction itself, with the sender stored in it when a
  relayer sent it.\<close>

definition fromRelayer :: "'x txenv \<Rightarrow> Transaction \<Rightarrow> bool" where
  "fromRelayer te tx \<longleftrightarrow> (\<exists>to. tx_To tx = Some to \<and> IsRelayTxFromRelayer te to)"

lemma deliverTxInfo_tx:
  assumes "deliverTxInfo te st tx = goOn i"
  obtains t where "ti_Tx i = Some t" and "unsent t = unsent tx" and "\<not> fromRelayer te tx \<Longrightarrow> t = tx"
proof -
  have p: "ti_Tx j = Some tx" if "plainTxInfo te s tx = goOn j" for s j
    using that by (auto simp: plainTxInfo_def verdict_bind_goOn_iff)
  have "\<exists>t. ti_Tx i = Some t \<and> unsent t = unsent tx \<and> (\<not> fromRelayer te tx \<longrightarrow> t = tx)"
    using assms
    by (auto simp: deliverTxInfo_def Let_def fromRelayer_def verdict_bind_goOn_iff split: option.splits if_splits dest!: p)
  with that show ?thesis by blast
qed

lemma deliverTx_sealed:
  assumes "sender_unseen en" and "unsent tx = unsent tx'"
  shows "map_prod (map_prod sealed id) id (deliverTx en bc tx i wsw) = map_prod (map_prod sealed id) id (deliverTx en bc tx' i wsw)"
proof -
  have "tx_Hash tx = tx_Hash tx'" using assms(2) by (metis unsent_simps(3))
  then show ?thesis
    using sender_unseenD(1) [OF assms]
    by (simp add: deliverTx_def Let_def sealed_def assms(2) split: prod.splits sum.splits)
qed

text \<open>C21. What the cache of transaction infos changes. When \<open>CheckTx\<close> has computed and cached the info of a
  transaction, \<open>DeliverTx\<close> finds the entry; without it, it recomputes the info by a different sequence of tests.
  For a transaction that no relayer sent, both ways give the same result and the same state. For one from a
  relayer they give the same answer and the same state except for one field: the recomputation stores the
  sender in the transaction it hands on (\<open>SetFrom\<close>), the other way hands it on as decoded. This equality
  relies on go-ethereum not looking at that field (\<open>sender_unseen\<close>).\<close>

theorem DeliverTx_cache_transparent:
  assumes "relay_disjoint te" and "DecodeRLP te txBytes = Inr tx"
    and "remoteTxInfo te (a_strategy app) tx = goOn i"
    and "FetchCachedTxInfo (tx_Hash tx) (a_backend app) = Some i"
    and "app0 = app\<lparr>a_backend := DeleteCachedTxInfo (tx_Hash tx) (a_backend app)\<rparr>"
  shows "(\<not> fromRelayer te tx \<longrightarrow> app_DeliverTx en te txBytes app = app_DeliverTx en te txBytes app0) \<and>
    (sender_unseen en \<longrightarrow>
       (\<exists>a a0 r. app_DeliverTx en te txBytes app = Inr (a, r) \<and> app_DeliverTx en te txBytes app0 = Inr (a0, r) \<and>
          sealedApp a = sealedApp a0))"
proof -
  have d: "deliverTxInfo te (a_strategy app) tx = goOn i"
    using assms(3) remote_deliver_info [OF assms(1)] by blast
  obtain t where t: "ti_Tx i = Some t" "unsent t = unsent tx" "\<not> fromRelayer te tx \<Longrightarrow> t = tx"
    by (rule deliverTxInfo_tx [OF d]) blast
  have none: "FetchCachedTxInfo (tx_Hash tx) (DeleteCachedTxInfo (tx_Hash tx) (a_backend app)) = None"
    by (simp add: backend_cache.fetch_delete)
  let ?b = "DeleteCachedTxInfo (tx_Hash tx) (a_backend app)" and ?deliver = "\<lambda>t w.
    deliverTx en (be_chain (a_backend app)) t i (be_work (a_backend app), w)"
  have b: "be_chain ?b = be_chain (a_backend app)" "be_work ?b = be_work (a_backend app)"
    by (simp_all add: DeleteCachedTxInfo_def)
  have "app_DeliverTx en te txBytes app = app_DeliverTx en te txBytes app0" if "t = tx"
    using assms(2,4) d none t(1) that by (simp add: app_DeliverTx_def Let_def worldOf_def goOn_def deliveredTx_def assms(5))
  moreover have "\<exists>a a0 r. app_DeliverTx en te txBytes app = Inr (a, r) \<and> app_DeliverTx en te txBytes app0 = Inr (a0, r) \<and>
      sealedApp a = sealedApp a0" if "sender_unseen en"
  proof -
    obtain ws w r ws' w' r' where run: "?deliver tx (worldOf app) = ((ws, w), r)" "?deliver t (worldOf app) = ((ws', w'), r')"
      by (metis surj_pair)
    have "sealed ws = sealed ws' \<and> w = w' \<and> r = r'"
      using deliverTx_sealed [OF that t(2), of "be_chain (a_backend app)" i "(be_work (a_backend app), worldOf app)"] run by simp
    then show ?thesis
      using assms(2,4) d none t(1) run
      by (auto simp: app_DeliverTx_def Let_def worldOf_def goOn_def deliveredTx_def assms(5) be_DeliverTx_def b
          sealedApp_def setWorld_def split: prod.splits)
  qed
  ultimately show ?thesis using t(3) by blast
qed

section \<open>Unexpected behaviour of the checks\<close>

definition ordinaryTransfer :: "'x txenv \<Rightarrow> Transaction \<Rightarrow> bool" where
  "ordinaryTransfer te tx \<longleftrightarrow>
     (case tx_To tx of
        None \<Rightarrow> False
      | Some to \<Rightarrow> \<not> IsAuthTx te to \<and> \<not> IsMintTx te to \<and> \<not> IsRelayTxFromClient te to \<and>
          \<not> IsRelayTxFromRelayer te to)"

lemma remoteTxInfo_ordinary:
  assumes "ordinaryTransfer te tx" and "remoteTxInfo te st tx = goOn i"
  shows "\<not> isRelayInfo i"
  using assms by (auto simp: ordinaryTransfer_def remoteTxInfo_def plainTxInfo_def verdict_bind_goOn_iff
      isRelayInfo_def split: option.splits)

text \<open>C33. The check state inflates: an accepted ordinary transfer credits its value to the receiver and
  charges the sender nothing, so the total balance of the check state grows by the value of every
  such transaction. A sender with a balance of \<open>c\<close> can thus pass any number of checks of transactions
  that cost \<open>c\<close> each.\<close>

theorem CheckTx_transfer_inflates:
  assumes "statedb_laws db" and "ordinaryTransfer te tx"
    and "validateTx te db tx CheckTxType_New app = Inr (app', resp)" and "rc_Code resp = CodeOK"
  shows "totalBalance db UNIV (a_checkTxState app') = totalBalance db UNIV (a_checkTxState app) + tx_Value tx \<and>
    (\<forall>a. GetBalance db (a_checkTxState app) a \<le> GetBalance db (a_checkTxState app') a)"
proof -
  obtain i s' gas where i: "txInfoFor te (a_strategy app) (a_backend app) tx CheckTxType_New = goOn i"
    and c: "checkState te db (a_vars app) (be_GasLimit (a_backend app)) (ws_height (be_work (a_backend app))) tx i
      (a_checkTxState app) = goOn (s', gas)" and app': "a_checkTxState app' = s'"
    by (rule validateTx_OK [OF assms(3,4)]) auto
  from assms(2) obtain to where to: "tx_To tx = Some to" "\<not> IsAuthTx te to" "\<not> IsMintTx te to"
    by (auto simp: ordinaryTransfer_def split: option.splits)
  have "\<not> isRelayInfo i" using remoteTxInfo_ordinary [OF assms(2)] i by (simp add: txInfoFor_def)
  with to checkState_goOn(6) [OF c] have s': "s' = SetNonce db (AddBalance db (a_checkTxState app) to (tx_Value tx))
      (ti_From i) (tx_Nonce tx + 1)"
    by (simp add: chargeCost_def creditValue_def)
  show ?thesis
    unfolding app' s' using checkState_goOn(1) [OF c]
    by (simp add: totalBalance_SetNonce [OF assms(1)] totalBalance_AddBalance [OF assms(1)]
        statedb_lawsD [OF assms(1)])
qed

text \<open>The intrinsic gas is not enforced: whenever it can be computed, the verdict on a transaction
  of a given cost is the same for every gas amount within the block's remaining gas, even for none at
  all.\<close>

lemma checkState_ignores_intrinsic_gas:
  assumes "snd (IntrinsicGas te (tx_Data tx) (tx_To tx = None)) = None" and "g \<le> gasLimit" and "tx_Gas tx \<le> gasLimit"
  shows "checkState te db gv gasLimit h (tx\<lparr>tx_Gas := g\<rparr>) i s = checkState te db gv gasLimit h tx i s"
proof -
  have "\<not> gasLimit < g" "\<not> gasLimit < tx_Gas tx" using assms(2,3) by (simp_all add: not_less)
  moreover obtain ig where "IntrinsicGas te (tx_Data tx) (tx_To tx = None) = (ig, None)"
    using assms(1) by (metis prod.collapse)
  moreover have "chargeCost te db gv h (tx\<lparr>tx_Gas := g\<rparr>) i s = chargeCost te db gv h tx i s"
    "creditValue te db (tx\<lparr>tx_Gas := g\<rparr>) = creditValue te db tx"
    by (simp_all add: chargeCost_def creditValue_def fun_eq_iff split: option.splits)
  ultimately show ?thesis by (simp add: checkState_def Let_def)
qed

section \<open>Witnesses\<close>

definition sampleTxEnv :: "unit txenv" where
  "sampleTxEnv =
     \<lparr>IsRelayTxFromClient = (\<lambda>a. a = 200), IsRelayTxFromRelayer = (\<lambda>a. a = 201), IsAuthTx = (\<lambda>a. a = 102),
      IsMintTx = (\<lambda>a. a = 103), IsBetBlocked = (\<lambda>gv a to b d h c. None), IsAuthBlocked = (\<lambda>gv a d h c. None),
      IsMintBlocked = (\<lambda>gv a. None),
      DecodeRLP = (\<lambda>bs. case bs of [b] \<Rightarrow> Inr (sampleTx (ucast b)) | _ \<Rightarrow> Inl ''rlp''),
      DecodeTxFromHexBytes = (\<lambda>bs. None), CheckRelayerTx = (\<lambda>a b. None), WithVRS = (\<lambda>t v. Some t),
      Sender = (\<lambda>sg t. Some 1), DeriveRelayer = (\<lambda>a t. None), IntrinsicGas = (\<lambda>d c. (21000, None))\<rparr>"

definition sampleBackend :: "(Header list, Header, address \<Rightarrow> int \<times> uint64, unit) Backend" where
  "sampleBackend =
     \<lparr>be_chain = [sampleHeader], be_work = sampleWork, currentTxInfo = sampleTxInfo 0, cachedTxInfo = Map.empty\<rparr>"

definition sampleApp :: "(Header list, Header, address \<Rightarrow> int \<times> uint64, unit, unit) EthermintApplication" where
  "sampleApp =
     \<lparr>a_backend = sampleBackend, a_checkTxState = sampleState,
      a_strategy = SetSigner 9 (sampleStrategy 5 0), a_punishment = appPunishment, a_vars = sampleVars,
      a_evmErrHeight = 0\<rparr>"

lemma sample_remote: "remoteTxInfo sampleTxEnv (a_strategy sampleApp) (sampleTx n) = goOn (sampleTxInfo n)"
  by (simp add: remoteTxInfo_def plainTxInfo_def senderOf_def txSigner_def sampleApp_def SetSigner_def
      sampleTx_def sampleTxInfo_def sampleTxEnv_def orReject_def)

definition sampleChecked :: "(Header list, Header, address \<Rightarrow> int \<times> uint64, unit, unit) EthermintApplication" where
  "sampleChecked =
     sampleApp\<lparr>a_checkTxState := sampleState(3 := (110, 0), 1 := (500, 1)),
       a_backend := InsertCachedTxInfo (tx_Hash (sampleTx 0)) (sampleTxInfo 0) sampleBackend\<rparr>"

lemma sample_checkState:
  "checkState sampleTxEnv map_statedb gv 8000000 h (sampleTx 0) (sampleTxInfo 0) sampleState =
   goOn (sampleState(3 := (110, 0), 1 := (500, 1)), 21000)"
  by (simp add: checkState_def chargeCost_def creditValue_def payerBalance_def isRelayInfo_def unlessErr_def
      sampleTx_def sampleTxInfo_def sampleTxEnv_def map_statedb_def sampleState_def)

lemma sample_check:
  "validateTx sampleTxEnv map_statedb (sampleTx 0) CheckTxType_New sampleApp =
   Inr (sampleChecked, \<lparr>rc_Code = CodeOK, rc_Log = NoReason, GasWanted = 21000\<rparr>)"
proof -
  have "be_GasLimit (a_backend sampleApp) = 8000000"
    by (simp add: be_GasLimit_def es_GasLimit_def sampleApp_def sampleBackend_def sampleWork_def)
  moreover have "tx_Size (sampleTx 0) \<le> maxTransactionSize" by (simp add: sampleTx_def maxTransactionSize_def)
  moreover have "a_checkTxState sampleApp = sampleState" "a_backend sampleApp = sampleBackend"
    by (simp_all add: sampleApp_def)
  ultimately show ?thesis
    using sample_remote [of 0] sample_checkState
    by (simp add: validateTx_def Let_def txInfoFor_def goOn_def sampleChecked_def)
qed

theorem validateTx_accepts_witness:
  "\<exists>app' resp. validateTx sampleTxEnv map_statedb (sampleTx 0) CheckTxType_New sampleApp = Inr (app', resp) \<and>
    GetNonce map_statedb (a_checkTxState app') 1 = 1"
proof -
  have i: "txInfoFor sampleTxEnv (a_strategy sampleApp) (a_backend sampleApp) (sampleTx 0) CheckTxType_New =
      goOn (sampleTxInfo 0)"
    by (simp add: txInfoFor_def sample_remote)
  from validateTx_accepts [OF map_statedb_laws sample_check] i
  have "GetNonce map_statedb (a_checkTxState sampleChecked) 1 = 1"
    by (auto simp: sampleTxInfo_def sampleTx_def)
  with sample_check show ?thesis by blast
qed

theorem validateTx_rejects_witness:
  "\<exists>app' resp. validateTx sampleTxEnv map_statedb (sampleTx 5) CheckTxType_New sampleChecked = Inr (app', resp) \<and>
    rc_Code resp = CodeInvalidSequence \<and> app' = sampleChecked"
proof -
  have st: "a_strategy sampleChecked = a_strategy sampleApp" "be_GasLimit (a_backend sampleChecked) = 8000000"
    by (simp_all add: sampleChecked_def be_GasLimit_def es_GasLimit_def InsertCachedTxInfo_def
        sampleBackend_def sampleWork_def)
  have "checkState sampleTxEnv map_statedb gv 8000000 h (sampleTx 5) (sampleTxInfo 5)
      (a_checkTxState sampleChecked) = reject CodeInvalidSequence NonceMismatch" for gv h
    by (simp add: checkState_def sampleTx_def sampleTxInfo_def map_statedb_def sampleChecked_def)
  moreover have "tx_Size (sampleTx 5) \<le> maxTransactionSize" by (simp add: sampleTx_def maxTransactionSize_def)
  ultimately have r: "validateTx sampleTxEnv map_statedb (sampleTx 5) CheckTxType_New sampleChecked =
      Inr (sampleChecked, rejectTx CodeInvalidSequence NonceMismatch)"
    using sample_remote [of 5] by (simp add: validateTx_def Let_def txInfoFor_def st goOn_def reject_def)
  from validateTx_rejects [OF r] r show ?thesis by simp
qed

theorem validateTxs_consecutive_nonces_witness:
  "\<exists>app' rs. validateTxs sampleTxEnv map_statedb [sampleTx 0] sampleApp = Inr (app', rs) \<and>
    GetNonce map_statedb (a_checkTxState app') 1 = GetNonce map_statedb (a_checkTxState sampleApp) 1 + 1"
proof -
  have run: "validateTxs sampleTxEnv map_statedb [sampleTx 0] sampleApp =
      Inr (sampleChecked, [\<lparr>rc_Code = CodeOK, rc_Log = NoReason, GasWanted = 21000\<rparr>])"
    by (simp add: sample_check)
  have "sentBy sampleTxEnv (a_strategy sampleApp) 1 (sampleTx 0)"
    using sample_remote [of 0] by (simp add: sentBy_def goOn_def sampleTxInfo_def)
  with validateTxs_consecutive_nonces [OF map_statedb_laws run refl, of 1] run show ?thesis by simp
qed


text \<open>A transaction from a relayer, first with its info in the cache and then without.\<close>

definition relayTxEnv :: "unit txenv" where
  "relayTxEnv = sampleTxEnv\<lparr>IsRelayTxFromRelayer := (\<lambda>a. a = 3), DecodeTxFromHexBytes := (\<lambda>bs. Some (sampleTx 7)),
     DeriveRelayer := (\<lambda>a t. Some 5)\<rparr>"

definition relayInfo :: TxInfo where
  "relayInfo = \<lparr>ti_Tx = Some (SetFrom (Some (EIP155Signer 9)) 1 (sampleTx 0)), ti_From = 1, ti_SubTx = Some (sampleTx 7),
     ti_RelayFrom = 5\<rparr>"

definition relayApp :: "(Header list, Header, address \<Rightarrow> int \<times> uint64, unit, unit) EthermintApplication" where
  "relayApp = sampleApp\<lparr>a_backend := InsertCachedTxInfo (tx_Hash (sampleTx 0)) relayInfo sampleBackend\<rparr>"

theorem DeliverTx_cache_transparent_witness:
  "\<exists>a a0 r. app_DeliverTx sampleEth relayTxEnv [0] relayApp = Inr (a, r) \<and>
    app_DeliverTx sampleEth relayTxEnv [0]
      (relayApp\<lparr>a_backend := DeleteCachedTxInfo (tx_Hash (sampleTx 0)) (a_backend relayApp)\<rparr>) = Inr (a0, r) \<and>
    sealedApp a = sealedApp a0"
proof -
  have rel: "relay_disjoint relayTxEnv" by (simp add: relay_disjoint_def relayTxEnv_def sampleTxEnv_def)
  have dec: "DecodeRLP relayTxEnv [0] = Inr (sampleTx 0)" by (simp add: relayTxEnv_def sampleTxEnv_def)
  have info: "remoteTxInfo relayTxEnv (a_strategy relayApp) (sampleTx 0) = goOn relayInfo"
    by (simp add: remoteTxInfo_def relayApp_def sampleApp_def SetSigner_def txSigner_def relayTxEnv_def sampleTxEnv_def
        sampleTx_def relayInfo_def decodeSubTx_def checkRelayer_def txForVerify_def senderOf_def deriveRelayer_def
        orReject_def unlessErr_def)
  have fetch: "FetchCachedTxInfo (tx_Hash (sampleTx 0)) (a_backend relayApp) = Some relayInfo"
    by (simp add: relayApp_def backend_cache.fetch_insert)
  have "sender_unseen (sampleEth :: (Header list, Header, address \<Rightarrow> int \<times> uint64, unit, unit world) ethenv)"
    by (simp add: sender_unseen_def sampleEth_def unsent_def)
  with DeliverTx_cache_transparent [OF rel dec info fetch refl] show ?thesis by blast
qed

theorem CheckTx_transfer_inflates_witness:
  "totalBalance map_statedb UNIV (a_checkTxState sampleChecked) =
    totalBalance map_statedb UNIV (a_checkTxState sampleApp) + 20"
proof -
  have "ordinaryTransfer sampleTxEnv (sampleTx 0)"
    by (simp add: ordinaryTransfer_def sampleTx_def sampleTxEnv_def)
  from CheckTx_transfer_inflates [OF map_statedb_laws this sample_check] show ?thesis
    by (simp add: sampleTx_def)
qed

end
