(* ===== verification/AppBlock.thy ===== *)
theory AppBlock
  imports AppTxProps
begin

text \<open>
  The block handlers of \<open>src/app/app.go\<close> (\<open>NewEthermintApplication\<close>, \<open>Info\<close>, \<open>InitChain\<close>,
  \<open>BeginBlock\<close>, \<open>EndBlock\<close>, \<open>Commit\<close>) and \<open>src/app/utils.go\<close> (\<open>SetPosTableThreshold\<close>, persistence
  of the strategy in the account state). The storage methods of the account state and the JSON
  codec are the fields of \<open>persist\<close>.

  Two pointers of the Go code share one table after the table was copied: \<open>txfilter.CurrentPosTable\<close>
  and the table of the current epoch. Where the code mutates the table after sharing it, both
  fields of the model get the final value.
\<close>

section \<open>Storage\<close>

record ('s, 'x) persist =
  GetCode :: "'s \<Rightarrow> address \<Rightarrow> bytes"
  SetCode :: "'s \<Rightarrow> address \<Rightarrow> bytes \<Rightarrow> 's"
  GetState :: "'s \<Rightarrow> address \<Rightarrow> hash \<Rightarrow> hash"
  SetState :: "'s \<Rightarrow> address \<Rightarrow> hash \<Rightarrow> hash \<Rightarrow> 's"
  TryGet :: "'s \<Rightarrow> address \<Rightarrow> string \<Rightarrow> string + bytes"
  TryUpdate :: "'s \<Rightarrow> address \<Rightarrow> string \<Rightarrow> bytes \<Rightarrow> 's"
  BytesToHash :: "string \<Rightarrow> hash"
  Keccak256Hash :: "bytes \<Rightarrow> hash"
  InitPosTable :: "'s \<Rightarrow> 'x PosTable"
  InitAuthTable :: "'s \<Rightarrow> 'x AuthTable"
  MarshalPosTable :: "'x PosTable \<Rightarrow> bytes"
  MarshalAuthTable :: "'x AuthTable \<Rightarrow> bytes"
  MarshalExtendAuthTable :: "'x AuthTable \<Rightarrow> bytes"
  MarshalCurrEpoch :: "'x CurrEpochValData \<Rightarrow> bytes"
  \<comment> \<open>\<open>json.Unmarshal\<close> into an existing value\<close>
  UnmarshalCurrEpoch :: "bytes \<Rightarrow> 'x CurrEpochValData \<Rightarrow> string + 'x CurrEpochValData"
  MarshalHeight :: "CurrentHeightValData \<Rightarrow> bytes"
  UnmarshalHeight :: "bytes \<Rightarrow> CurrentHeightValData \<Rightarrow> string + CurrentHeightValData"

section \<open>Access to the state\<close>

definition currentState :: "('c, 'b, 's, 'l, 'x) EthermintApplication \<Rightarrow> 's" where
  "currentState app = ws_state (be_work (a_backend app))"

definition setCurrentState ::
  "'s \<Rightarrow> ('c, 'b, 's, 'l, 'x) EthermintApplication \<Rightarrow> ('c, 'b, 's, 'l, 'x) EthermintApplication" where
  "setCurrentState s app =
     app\<lparr>a_backend := (a_backend app)\<lparr>be_work := (be_work (a_backend app))\<lparr>ws_state := s\<rparr>\<rparr>\<rparr>"

definition mapStrategy ::
  "('x Strategy \<Rightarrow> 'x Strategy) \<Rightarrow> ('c, 'b, 's, 'l, 'x) EthermintApplication \<Rightarrow>
     ('c, 'b, 's, 'l, 'x) EthermintApplication" where
  "mapStrategy f app = app\<lparr>a_strategy := f (a_strategy app)\<rparr>"

definition mapBackend ::
  "(('c, 'b, 's, 'l) Backend \<Rightarrow> ('c, 'b, 's, 'l) Backend) \<Rightarrow> ('c, 'b, 's, 'l, 'x) EthermintApplication \<Rightarrow>
     ('c, 'b, 's, 'l, 'x) EthermintApplication" where
  "mapBackend f app = app\<lparr>a_backend := f (a_backend app)\<rparr>"

section \<open>Creation and Info\<close>

text \<open>The check state starts as the state of the chain's head; the working state is reset with the
  initial receiver.\<close>

definition NewEthermintApplication ::
  "'x env \<Rightarrow> ('c, 'b, 's, 'l, 'w) ethenv \<Rightarrow> ('c, 'b, 's, 'l) Backend \<Rightarrow> 'x Strategy \<Rightarrow> 'x txfilterVars \<Rightarrow>
     string + ('c, 'b, 's, 'l, 'x) EthermintApplication" where
  "NewEthermintApplication e en b st gv =
     (case bc_State en (be_chain b) of
        Inl err \<Rightarrow> Inl err
      | Inr s \<Rightarrow>
          (case InitEthState en (HexToAddress e InitReceiver) b of
             Inl err \<Rightarrow> Inl err
           | Inr b' \<Rightarrow>
               Inr \<lparr>a_backend = b', a_checkTxState = s, a_strategy = st,
                    a_punishment = NewPunishment Percent100AmountStrategy (TransferStrategyPtr 0),
                    a_vars = gv, a_evmErrHeight = 0\<rparr>))"

record ResponseInfo =
  ri_Data :: string
  LastBlockHeight :: int
  LastBlockAppHash :: "hash option"
  ri_AppVersion :: uint64

text \<open>Half the yearly bonus per block for the proposer, half for the voters.\<close>

definition halfYearlyDivisor :: int where
  "halfYearlyDivisor = 100 * (365 * 24 * 60 * 60 div 5 div 2)"

definition versionAt :: "versionVars \<Rightarrow> 'x Strategy \<Rightarrow> int \<Rightarrow> uint64 \<Rightarrow> panic + uint64" where
  "versionAt w st height cur =
     (if IsHarfForkPassed (s_HF st)
      then forkVersion (HeightArray w) (VersionArray w) (length (HeightArray w)) height cur
      else Inr cur)"

definition Info ::
  "versionVars \<Rightarrow> ('c, 'b, 's, 'l, 'w) ethenv \<Rightarrow> ('c, 'b, 's, 'l, 'x) EthermintApplication \<Rightarrow>
     panic + ('c, 'b, 's, 'l, 'x) EthermintApplication \<times> ResponseInfo" where
  "Info w en app =
     (let currentBlock = CurrentBlock en (be_chain (a_backend app));
          height = b_Number en currentBlock in
      panic_bind (versionAt w (a_strategy app) (big_Int64 height) 1) (\<lambda>appVersion.
      panic_bind (deref (TotalBalance (s_CurrEpoch (a_strategy app)))) (\<lambda>total.
      panic_bind (big_Div total halfYearlyDivisor) (\<lambda>minerBonus.
        Inr (mapStrategy (\<lambda>st. st\<lparr>s_CurrEpoch := (s_CurrEpoch st)\<lparr>MinorBonus := Some minerBonus\<rparr>\<rparr>) app,
             \<lparr>ri_Data = ''ABCIEthereum'', LastBlockHeight = big_Int64 height,
              LastBlockAppHash = (if height = 0 then None else Some (b_Hash en currentBlock)),
              ri_AppVersion = appVersion\<rparr>)))))"

section \<open>Persistence\<close>

definition heightKey :: string where "heightKey = ''CurrentHeightData''"
definition extendKey :: string where "extendKey = ''ExtendAuthTable''"

definition persistAuth ::
  "'x env \<Rightarrow> ('s, 'x) persist \<Rightarrow> 'x Strategy \<Rightarrow> 's \<Rightarrow> panic + 's" where
  "persistAuth e ps st s =
     (if BlockVersion (s_HF st) \<ge> 4 then
        (case s_AuthTable st of
           None \<Rightarrow>
             (if BlockVersion (s_HF st) \<ge> 5 then Inl NilDeref
              else Inr (SetCode ps s (SendToAuth e) (map (\<lambda>c. of_char c) ''null'')))
         | Some at \<Rightarrow>
             (let s1 = SetCode ps s (SendToAuth e) (MarshalAuthTable ps at) in
              if BlockVersion (s_HF st) \<ge> 5 then
                (let valBytes = MarshalExtendAuthTable ps at;
                     s2 = TryUpdate ps s1 (SendToAuth e) extendKey valBytes in
                 Inr (SetState ps s2 (SendToAuth e) (BytesToHash ps extendKey) (Keccak256Hash ps valBytes)))
              else Inr s1))
      else Inr s)"

definition persistNext ::
  "'x env \<Rightarrow> ('s, 'x) persist \<Rightarrow> 'x Strategy \<Rightarrow> 's \<Rightarrow> panic + 's" where
  "persistNext e ps st s =
     panic_bind (deref (s_NextPosTable st)) (\<lambda>pt.
     panic_bind (if ChangedFlagThisBlock pt then Inr True
                 else atEpochEnd e (chv_Height (s_CurrentHeight st))) (\<lambda>write.
       if write then persistAuth e ps st (SetCode ps s (SendToUnlock e) (MarshalPosTable ps pt))
       else Inr s))"

definition persistHeight :: "'x env \<Rightarrow> ('s, 'x) persist \<Rightarrow> 'x Strategy \<Rightarrow> 's \<Rightarrow> 's" where
  "persistHeight e ps st s =
     (let valBytes = MarshalHeight ps (s_CurrentHeight st) in
      SetState ps (TryUpdate ps s (SendToLock e) heightKey valBytes) (SendToLock e)
        (BytesToHash ps heightKey) (Keccak256Hash ps valBytes))"

definition SetPersistenceData ::
  "'x env \<Rightarrow> ('s, 'x) persist \<Rightarrow> ('c, 'b, 's, 'l, 'x) EthermintApplication \<Rightarrow>
     panic + ('c, 'b, 's, 'l, 'x) EthermintApplication" where
  "SetPersistenceData e ps app =
     (let st = a_strategy app in
      panic_bind (persistNext e ps st (currentState app)) (\<lambda>s1.
      panic_bind (atEpochEnd e (chv_Height (s_CurrentHeight st))) (\<lambda>epochEnd.
        let s2 = (if epochEnd then SetCode ps s1 (SendToLock e) (MarshalCurrEpoch ps (s_CurrEpoch st)) else s1) in
        Inr (setCurrentState (persistHeight e ps st s2) app))))"

definition loadHeight ::
  "'x env \<Rightarrow> ('s, 'x) persist \<Rightarrow> 's \<Rightarrow> CurrentHeightValData \<Rightarrow> panic + CurrentHeightValData" where
  "loadHeight e ps s old =
     (case TryGet ps s (SendToLock e) heightKey of
        Inl err \<Rightarrow> Inl (PanicMsg ''resolve currentHeightData err'')
      | Inr currentHeightData \<Rightarrow>
          if currentHeightData = [] then Inl (PanicMsg ''len(currentHeightData) == 0'')
          else case UnmarshalHeight ps currentHeightData old of
            Inl err \<Rightarrow> Inl (PanicMsg ''initialize CurrentHeightValData.Validators error'')
          | Inr d \<Rightarrow> Inr d)"

definition loadEpoch ::
  "'x env \<Rightarrow> ('s, 'x) persist \<Rightarrow> 's \<Rightarrow> 'x CurrEpochValData \<Rightarrow> panic + 'x CurrEpochValData" where
  "loadEpoch e ps s old =
     (let currBytes = GetCode ps s (SendToLock e) in
      if currBytes = [] then Inl (PanicMsg ''no pre CurrEpochValData'')
      else case UnmarshalCurrEpoch ps currBytes old of
        Inl err \<Rightarrow> Inl (PanicMsg ''initialize CurrEpochValData error'')
      | Inr d \<Rightarrow>
          panic_bind (deref (cev_PosTable d)) (\<lambda>pt.
            Inr (d\<lparr>cev_PosTable := Some (ExportSortedSigners e (InitStruct e pt))\<rparr>)))"

definition InitPersistData ::
  "'x env \<Rightarrow> ('s, 'x) persist \<Rightarrow> versionVars \<Rightarrow> ('c, 'b, 's, 'l, 'x) EthermintApplication \<Rightarrow>
     panic + ('c, 'b, 's, 'l, 'x) EthermintApplication \<times> bool" where
  "InitPersistData e ps w app0 =
     (let app = app0\<lparr>a_evmErrHeight := EvmErrHardForkHeight w,
                     a_vars := (a_vars app0)\<lparr>Bigguy := HexToAddress e (BigguyStr w)\<rparr>\<rparr>;
          s = currentState app; st = a_strategy app in
      if GetState ps s (SendToLock e) (BytesToHash ps heightKey) = 0 then
        Inr (mapStrategy (\<lambda>st. st\<lparr>s_NextPosTable := Some (CreatePosTable e),
                                 s_AuthTable := Some (CreateAuthTable e)\<rparr>) app, False)
      else
        panic_bind (loadHeight e ps s (s_CurrentHeight st)) (\<lambda>chd.
        panic_bind (versionAt w st (chv_Height chd) (BlockVersion (s_HF st))) (\<lambda>ver.
        panic_bind (loadEpoch e ps s (s_CurrEpoch st)) (\<lambda>epoch.
          Inr (app\<lparr>a_strategy := st
                 \<lparr>s_CurrentHeight := chd,
                  s_HF := (s_HF st)\<lparr>hf_Height := chv_Height chd, BlockVersion := ver\<rparr>,
                  s_CurrEpoch := epoch,
                  s_NextPosTable := Some (InitStruct e (InitPosTable ps s)),
                  s_AuthTable := Some (InitAuthTable ps s)\<rparr>,
                a_vars := (a_vars app)
                 \<lparr>tv_AppVersion := ver,
                  PPChainAdmin := HexToAddress e (if ver \<le> 4 then PPChainAdminStr w else PPChainPrivateAdminStr w),
                  CurrentPosTable := cev_PosTable epoch\<rparr>\<rparr>, True)))))"

section \<open>InitChain\<close>

definition SetPosTableThreshold :: "'x env \<Rightarrow> 'x Strategy \<Rightarrow> panic + 'x Strategy" where
  "SetPosTableThreshold e st =
     panic_bind (deref (TotalBalance (s_CurrEpoch st))) (\<lambda>total.
       if big_Int64 total = 0 then Inl (PanicMsg ''strategy.CurrEpochValData.TotalBalance==0'')
       else
         panic_bind (big_Div total (ThresholdUnit e)) (\<lambda>threshold.
         panic_bind (deref (s_NextPosTable st)) (\<lambda>pt.
           Inr (st\<lparr>s_NextPosTable := Some (SetThreshold e pt threshold)\<rparr>))))"

definition InsertPosItemInit ::
  "'x env \<Rightarrow> address \<Rightarrow> int \<Rightarrow> address \<Rightarrow> pubKey \<Rightarrow> string \<Rightarrow> 'x Strategy \<Rightarrow>
     panic + 'x Strategy \<times> string option" where
  "InsertPosItemInit e account balance beneficiary pk blsKeyString st =
     panic_bind
       (if BlockVersion (s_HF st) \<ge> 4 then Inr 10
        else panic_bind (deref (s_NextPosTable st)) (\<lambda>pt. big_Div balance (Threshold pt))) (\<lambda>tmpSlot.
     panic_bind (deref (PubKeyAddress e pk)) (\<lambda>tmAddress.
     panic_bind (deref (s_NextPosTable st)) (\<lambda>pt.
       let (pt', err) = InsertPosItem e pt account
             (NewPosItem e 1 (big_Int64 tmpSlot) pk tmAddress blsKeyString beneficiary) in
       Inr (st\<lparr>s_NextPosTable := Some pt'\<rparr>, err))))"

text \<open>The loop over the genesis validators; \<open>iv\<close> is the local slice \<open>initialValidators\<close>, which the
  Go code assigns from the strategy's slice in every round.\<close>

fun initValidators ::
  "'x env \<Rightarrow> 's statedb \<Rightarrow> 's \<Rightarrow> ValidatorUpdate list \<Rightarrow> 'x Strategy \<times> ValidatorUpdate list \<Rightarrow>
     panic + 'x Strategy \<times> ValidatorUpdate list" where
  "initValidators e db s [] (st, iv) = Inr (st, iv)"
| "initValidators e db s (v # vs) (st, iv) =
     panic_bind (deref (PubKeyAddress e (vu_PubKey v))) (\<lambda>addr.
     panic_bind (deref (s_AccMapInitial st)) (\<lambda>am.
       case MapList am addr of
         None \<Rightarrow> initValidators e db s vs (st, iv)
       | Some item \<Rightarrow>
           panic_bind (InsertPosItemInit e (am_Signer item) (GetBalance db s (am_Signer item))
                         (am_Beneficiary item) (vu_PubKey v) (am_BlsKeyString item) st) (\<lambda>(st1, err).
             if err = None then
               initValidators e db s vs
                 (st1\<lparr>s_CurrentHeight := (s_CurrentHeight st1)
                        \<lparr>Validators := (Validators (s_CurrentHeight st1))
                           (addr \<mapsto> \<lparr>val_Update = v, val_Signer = am_Signer item\<rparr>)\<rparr>\<rparr>,
                  s_InitialValidators st1 @ [v])
             else
               initValidators e db s vs
                 (st1\<lparr>s_AccMapInitial := Some (am\<lparr>MapList := (MapList am)(addr := None)\<rparr>)\<rparr>, iv))))"

definition InitChain ::
  "'x env \<Rightarrow> 's statedb \<Rightarrow> ('s, 'x) persist \<Rightarrow> ValidatorUpdate list \<Rightarrow>
     ('c, 'b, 's, 'l, 'x) EthermintApplication \<Rightarrow> panic + ('c, 'b, 's, 'l, 'x) EthermintApplication" where
  "InitChain e db ps validators app =
     panic_bind (SetPosTableThreshold e (a_strategy app)) (\<lambda>st0.
     panic_bind (initValidators e db (currentState app) validators (st0, [])) (\<lambda>(st1, iv).
       let st2 = SetInitialValidators iv st1 in
       if iv = [] then Inl (PanicMsg ''no qualified initial validators, please check config'')
       else
         panic_bind (deref (s_NextPosTable st2)) (\<lambda>pt.
         panic_bind (deref (EthAuthTable (a_vars app))) (\<lambda>at.
           let nxt = InitStruct e pt;
               cur = ExportSortedSigners e (CopyPosTable e nxt) in
           SetPersistenceData e ps
             (app\<lparr>a_strategy := st2\<lparr>s_NextPosTable := Some nxt,
                     s_CurrEpoch := (s_CurrEpoch st2)\<lparr>cev_PosTable := Some cur\<rparr>\<rparr>,
                  a_vars := (a_vars app)\<lparr>CurrentPosTable := Some cur,
                     EthAuthTableCopy := Some (CopyAuthTable e at)\<rparr>\<rparr>)))))"

section \<open>BeginBlock\<close>

record RequestBeginBlock =
  bb_Height :: int
  bb_AppVersion :: uint64
  bb_Time :: int
  bb_ProposerAddress :: bytes
  bb_Votes :: "VoteInfo list"
  bb_ByzantineValidators :: "Evidence list"

definition BeginBlock ::
  "'x env \<Rightarrow> 's statedb \<Rightarrow> ('c, 'b, 's, 'l, 'w) ethenv \<Rightarrow> versionVars \<Rightarrow> RequestBeginBlock \<Rightarrow>
     ('c, 'b, 's, 'l, 'x) EthermintApplication \<Rightarrow> panic + ('c, 'b, 's, 'l, 'x) EthermintApplication" where
  "BeginBlock e db en w req app =
     (let st = a_strategy app in
      panic_bind (deref (s_NextPosTable st)) (\<lambda>pt.
      panic_bind (versionAt w st (bb_Height req) (bb_AppVersion req)) (\<lambda>ver.
        let st1 = st\<lparr>s_NextPosTable := Some (pt\<lparr>ChangedFlagThisBlock := False\<rparr>),
                     s_HF := (s_HF st)\<lparr>hf_Height := bb_Height req, BlockVersion := ver\<rparr>,
                     s_CurrentHeight := (s_CurrentHeight st)\<lparr>chv_Height := bb_Height req,
                       ProposerAddress := hexKey (bb_ProposerAddress req)\<rparr>\<rparr>;
            gv1 = (a_vars app)\<lparr>tv_AppVersion := ver\<rparr> in
        panic_bind (Receiver e gv1 st1) (\<lambda>coinbase.
          let b1 = be_UpdateHeaderWithTimeInfo en (bb_Time req) (a_backend app);
              b2 = b1\<lparr>be_work := updateHeaderCoinbase coinbase (be_work b1)\<rparr>;
              st2 = st1\<lparr>s_CurrentHeight := (s_CurrentHeight st1)\<lparr>LastVoteInfo := bb_Votes req\<rparr>\<rparr>;
              app1 = app\<lparr>a_backend := b2, a_strategy := st2, a_vars := gv1\<rparr> in
          panic_bind (DoPunish e db (a_punishment app) (bb_ByzantineValidators req) coinbase (bb_Height req)
                        (currentState app1, st2)) (\<lambda>(s', st3).
            Inr (setCurrentState s' (app1\<lparr>a_strategy := st3\<rparr>)))))))"

section \<open>EndBlock\<close>

text \<open>The chain configuration in the database is third-party: \<open>canonicalHash\<close> reads the hash of the
  genesis block, \<open>upgradeConfig\<close> installs the upgraded configuration under it.\<close>

definition epochChange ::
  "'x env \<Rightarrow> versionVars \<Rightarrow> ('c \<Rightarrow> hash) \<Rightarrow> (hash \<Rightarrow> 'c \<Rightarrow> 'c) \<Rightarrow> int \<Rightarrow>
     ('c, 'b, 's, 'l, 'x) EthermintApplication \<Rightarrow> panic + ('c, 'b, 's, 'l, 'x) EthermintApplication" where
  "epochChange e w canonicalHash upgradeConfig height app =
     (let st = a_strategy app in
      panic_bind (deref (s_NextPosTable st)) (\<lambda>nxt.
      panic_bind (deref (EthAuthTable (a_vars app))) (\<lambda>at.
      panic_bind (index (HeightArray w) 3) (\<lambda>h3.
        let cur = ExportSortedSigners e (CopyPosTable e nxt);
            nxt' = fst (TryRemoveUnbondPosItems e nxt (chv_Height (s_CurrentHeight st)) (SortedUnbondSigners cur));
            app1 = app\<lparr>a_strategy := st\<lparr>s_CurrEpoch := (s_CurrEpoch st)\<lparr>cev_PosTable := Some cur\<rparr>,
                          s_NextPosTable := Some nxt'\<rparr>,
                       a_vars := (a_vars app)\<lparr>CurrentPosTable := Some cur,
                          EthAuthTableCopy := Some (CopyAuthTable e at)\<rparr>\<rparr>;
            stored = canonicalHash (be_chain (a_backend app)) in
        Inr (if height = h3 \<and> stored \<noteq> 0
             then mapBackend (\<lambda>b. b\<lparr>be_chain := upgradeConfig stored (be_chain b)\<rparr>) app1
             else app1)))))"

definition EndBlock ::
  "'x env \<Rightarrow> versionVars \<Rightarrow> ('c \<Rightarrow> hash) \<Rightarrow> (hash \<Rightarrow> 'c \<Rightarrow> 'c) \<Rightarrow>
     ((string \<rightharpoonup> Validator) \<Rightarrow> string list) \<Rightarrow> ((string \<rightharpoonup> bool) \<Rightarrow> string list) \<Rightarrow> int \<Rightarrow> bytes option \<Rightarrow>
     ('c, 'b, 's, 'l, 'x) EthermintApplication \<Rightarrow>
     (panic + ('c, 'b, 's, 'l, 'x) EthermintApplication \<times> ResponseEndBlock) option" where
  "EndBlock e w canonicalHash upgradeConfig ordV ordA height seed app =
     (case panic_bind (atEpochEnd e height) (\<lambda>epochEnd.
             if epochEnd then epochChange e w canonicalHash upgradeConfig height app else Inr app) of
        Inl p \<Rightarrow> Some (Inl p)
      | Inr app1 \<Rightarrow>
          map_option (\<lambda>r. panic_bind r (\<lambda>((st', gv'), resp).
              Inr (app1\<lparr>a_strategy := st', a_vars := gv'\<rparr>, resp)))
            (GetUpdatedValidators e w ordV ordA height seed (a_strategy app1, a_vars app1)))"

section \<open>Commit\<close>

text \<open>The answer carries the block hash, or nothing when the commit failed. The limit of the
  transaction pool that follows is in theory \<open>Services\<close>.\<close>

definition app_Commit ::
  "'x env \<Rightarrow> 's statedb \<Rightarrow> ('s, 'x) persist \<Rightarrow> ('c, 'b, 's, 'l, 'w) ethenv \<Rightarrow>
     ('c, 'b, 's, 'l, 'x) EthermintApplication \<Rightarrow>
     panic + ('c, 'b, 's, 'l, 'x) EthermintApplication \<times> hash option" where
  "app_Commit e db ps en app =
     panic_bind (be_AccumulateRewards db (a_strategy app) (a_backend app)) (\<lambda>b1.
     panic_bind (SetPersistenceData e ps (app\<lparr>a_backend := b1\<rparr>)) (\<lambda>app1.
       let app2 = app1\<lparr>a_checkTxState := currentState app1\<rparr>;
           (b2, r) = be_Commit en (a_backend app2) in
       Inr (app2\<lparr>a_backend := b2\<rparr>, case r of Inl err \<Rightarrow> None | Inr blockHash \<Rightarrow> Some blockHash)))"

end
