(* ===== verification/AppBlockProps.thy ===== *)
theory AppBlockProps
  imports AppBlock
begin

text \<open>
  Correctness of the block handlers: the validators \<open>InitChain\<close> records and the chain they start,
  \<open>EndBlock\<close> as a validator source, what a commit leaves behind, and the round trip of the persisted
  strategy through a restart.
\<close>

section \<open>Access lemmas\<close>

lemma currentState_set [simp]:
  "currentState (setCurrentState s app) = s"
  "a_strategy (setCurrentState s app) = a_strategy app"
  "a_vars (setCurrentState s app) = a_vars app"
  "a_checkTxState (setCurrentState s app) = a_checkTxState app"
  "cachedTxInfo (a_backend (setCurrentState s app)) = cachedTxInfo (a_backend app)"
  "be_chain (a_backend (setCurrentState s app)) = be_chain (a_backend app)"
  "ws_header (be_work (a_backend (setCurrentState s app))) = ws_header (be_work (a_backend app))"
  by (simp_all add: currentState_def setCurrentState_def)

lemma SetPersistenceData_Inr:
  assumes "SetPersistenceData e ps app = Inr app'"
  shows "\<exists>s. app' = setCurrentState s app"
  using assms by (auto simp: SetPersistenceData_def Let_def)

section \<open>InitChain\<close>

lemma InsertPosItemInit_frame:
  assumes "InsertPosItemInit e a bal ben pk bls st = Inr (st', err)"
  shows "s_InitialValidators st' = s_InitialValidators st" and "s_CurrentHeight st' = s_CurrentHeight st"
    and "s_AccMapInitial st' = s_AccMapInitial st"
  using assms by (auto simp: InsertPosItemInit_def Let_def split: prod.splits)

text \<open>What the loop keeps: the strategy's own slice is never written, so the local slice is that slice
  with one validator at most; the validators recorded come from the genesis, under their own
  addresses.\<close>

lemma initValidators_spec:
  assumes "initValidators e db s vs (st, iv) = Inr (st', iv')"
    and "iv = [] \<or> (\<exists>v \<in> A. iv = s_InitialValidators st @ [v])" and "set vs \<subseteq> A"
    and "keyed e (Validators (s_CurrentHeight st))"
  shows "s_InitialValidators st' = s_InitialValidators st \<and>
    (iv' = [] \<or> (\<exists>v \<in> A. iv' = s_InitialValidators st @ [v])) \<and>
    keyed e (Validators (s_CurrentHeight st'))"
  using assms
proof (induction vs arbitrary: st iv)
  case Nil
  then show ?case by auto
next
  case (Cons v vs)
  obtain addr am where a: "PubKeyAddress e (vu_PubKey v) = Some addr" and am: "s_AccMapInitial st = Some am"
    using Cons.prems(1) by auto
  show ?case
  proof (cases "MapList am addr")
    case None
    with Cons.prems a am have "initValidators e db s vs (st, iv) = Inr (st', iv')" by simp
    from Cons.IH [OF this Cons.prems(2)] Cons.prems(3,4) show ?thesis by auto
  next
    case (Some item)
    obtain st1 err where ins: "InsertPosItemInit e (am_Signer item) (GetBalance db s (am_Signer item))
        (am_Beneficiary item) (vu_PubKey v) (am_BlsKeyString item) st = Inr (st1, err)"
      using Cons.prems(1) a am Some by auto
    note fr = InsertPosItemInit_frame [OF ins]
    let ?V = "(Validators (s_CurrentHeight st1))(addr \<mapsto> \<lparr>val_Update = v, val_Signer = am_Signer item\<rparr>)"
    let ?ok = "st1\<lparr>s_CurrentHeight := (s_CurrentHeight st1)\<lparr>Validators := ?V\<rparr>\<rparr>"
    show ?thesis
    proof (cases err)
      case None
      with Cons.prems(1) a am Some ins
      have run: "initValidators e db s vs (?ok, s_InitialValidators st1 @ [v]) = Inr (st', iv')" by simp
      have "keyed e (Validators (s_CurrentHeight ?ok))"
        using Cons.prems(4) a by (auto simp: keyed_def fr addrOf_def)
      from Cons.IH [OF run _ _ this] Cons.prems(3) show ?thesis by (auto simp: fr)
    next
      case (Some msg)
      with Cons.prems(1) a am \<open>MapList am addr = Some item\<close> ins
      have run: "initValidators e db s vs (st1\<lparr>s_AccMapInitial :=
          Some (am\<lparr>MapList := (MapList am)(addr := None)\<rparr>)\<rparr>, iv) = Inr (st', iv')" by simp
      from Cons.IH [OF run] Cons.prems(2,3,4) show ?thesis by (auto simp: fr)
    qed
  qed
qed

lemma SetPosTableThreshold_frame:
  assumes "SetPosTableThreshold e st = Inr st'"
  shows "s_InitialValidators st' = s_InitialValidators st" and "s_CurrentHeight st' = s_CurrentHeight st"
    and "s_AccMapInitial st' = s_AccMapInitial st"
  using assms by (auto simp: SetPosTableThreshold_def split: if_splits)

lemma InitChain_InrE:
  assumes "InitChain e db ps vs app = Inr app'"
  obtains st0 st1 iv where "SetPosTableThreshold e (a_strategy app) = Inr st0"
    and "initValidators e db (currentState app) vs (st0, []) = Inr (st1, iv)" and "iv \<noteq> []"
    and "s_InitialValidators (a_strategy app') = iv"
    and "s_CurrentHeight (a_strategy app') = s_CurrentHeight st1"
  using assms
  by (auto simp: InitChain_def Let_def SetInitialValidators_def split: if_splits
      dest!: SetPersistenceData_Inr)

text \<open>C34. \<open>InitChain\<close> remembers one initial validator only: however many genesis validators it accepts,
  the list of initial validators afterwards is the former list with exactly one genesis validator
  added, because every round starts again from the strategy's own slice.\<close>

theorem InitChain_keeps_one_validator:
  assumes "InitChain e db ps vs app = Inr app'"
    and "keyed e (Validators (s_CurrentHeight (a_strategy app)))"
  shows "\<exists>v. v \<in> set vs \<and>
    s_InitialValidators (a_strategy app') = s_InitialValidators (a_strategy app) @ [v]"
proof -
  obtain st0 st1 iv where t: "SetPosTableThreshold e (a_strategy app) = Inr st0"
    and l: "initValidators e db (currentState app) vs (st0, []) = Inr (st1, iv)" and "iv \<noteq> []"
    and r: "s_InitialValidators (a_strategy app') = iv"
    by (rule InitChain_InrE [OF assms(1)])
  note fr = SetPosTableThreshold_frame [OF t]
  from initValidators_spec [OF l, of "set vs"] assms(2) \<open>iv \<noteq> []\<close> r show ?thesis
    by (auto simp: fr)
qed

text \<open>The table accepts the genesis validators of the account map, one after the other. \<open>recordGenesis\<close> is
  what the loop records of one.\<close>

abbreviation recordGenesis :: "ValidatorUpdate \<Rightarrow> string \<Rightarrow> AccountMapItem \<Rightarrow> 'x Strategy \<Rightarrow> 'x Strategy" where
  "recordGenesis v addr item st \<equiv>
     st\<lparr>s_CurrentHeight := (s_CurrentHeight st)
          \<lparr>Validators := (Validators (s_CurrentHeight st))(addr \<mapsto> \<lparr>val_Update = v, val_Signer = am_Signer item\<rparr>)\<rparr>\<rparr>"

fun inserts_accepted ::
  "'x env \<Rightarrow> 's statedb \<Rightarrow> 's \<Rightarrow> AccountMap \<Rightarrow> ValidatorUpdate list \<Rightarrow> 'x Strategy \<Rightarrow> bool" where
  "inserts_accepted e db s am [] st \<longleftrightarrow> True"
| "inserts_accepted e db s am (v # vs) st \<longleftrightarrow>
     (case PubKeyAddress e (vu_PubKey v) of
        None \<Rightarrow> False
      | Some addr \<Rightarrow>
          (case MapList am addr of
             None \<Rightarrow> inserts_accepted e db s am vs st
           | Some item \<Rightarrow>
               (case InsertPosItemInit e (am_Signer item) (GetBalance db s (am_Signer item))
                       (am_Beneficiary item) (vu_PubKey v) (am_BlsKeyString item) st of
                  Inr (st1, None) \<Rightarrow> inserts_accepted e db s am vs (recordGenesis v addr item st1)
                | _ \<Rightarrow> False)))"

definition genesis_accepted ::
  "'x env \<Rightarrow> 's statedb \<Rightarrow> ValidatorUpdate list \<Rightarrow> ('c, 'b, 's, 'l, 'x) EthermintApplication \<Rightarrow> bool" where
  "genesis_accepted e db vs app \<longleftrightarrow>
     (case (SetPosTableThreshold e (a_strategy app), s_AccMapInitial (a_strategy app)) of
        (Inr st0, Some am) \<Rightarrow> inserts_accepted e db (currentState app) am vs st0
      | _ \<Rightarrow> False)"

definition all_known :: "'x env \<Rightarrow> AccountMap \<Rightarrow> ValidatorUpdate list \<Rightarrow> bool" where
  "all_known e am vs \<longleftrightarrow>
     (\<forall>v \<in> set vs. \<exists>addr. PubKeyAddress e (vu_PubKey v) = Some addr \<and> MapList am addr \<noteq> None)"

lemma inserts_acceptedE:
  assumes "inserts_accepted e db s am (v # vs) st" and "all_known e am (v # vs)"
  obtains addr item st1 where "PubKeyAddress e (vu_PubKey v) = Some addr" and "MapList am addr = Some item"
    and "InsertPosItemInit e (am_Signer item) (GetBalance db s (am_Signer item))
        (am_Beneficiary item) (vu_PubKey v) (am_BlsKeyString item) st = Inr (st1, None)"
    and "inserts_accepted e db s am vs (recordGenesis v addr item st1)" and "all_known e am vs"
  using assms by (auto simp: all_known_def split: option.splits sum.splits prod.splits)

text \<open>Then the loop returns and every genesis validator is recorded.\<close>

lemma initValidators_all:
  assumes "s_AccMapInitial st = Some am" and "inserts_accepted e db s am vs st" and "all_known e am vs"
  shows "\<exists>st' iv'. initValidators e db s vs (st, iv) = Inr (st', iv') \<and> (iv' = [] \<longrightarrow> iv = [] \<and> vs = []) \<and>
    Some ` dom (Validators (s_CurrentHeight st')) =
      Some ` dom (Validators (s_CurrentHeight st)) \<union> addrOf e ` set vs"
  using assms
proof (induction vs arbitrary: st iv)
  case Nil
  then show ?case by simp
next
  case (Cons v vs)
  obtain addr item st1 where a: "PubKeyAddress e (vu_PubKey v) = Some addr" and m: "MapList am addr = Some item"
    and ins: "InsertPosItemInit e (am_Signer item) (GetBalance db s (am_Signer item))
        (am_Beneficiary item) (vu_PubKey v) (am_BlsKeyString item) st = Inr (st1, None)"
    and acc: "inserts_accepted e db s am vs (recordGenesis v addr item st1)" and k: "all_known e am vs"
    by (rule inserts_acceptedE [OF Cons.prems(2,3)])
  note fr = InsertPosItemInit_frame [OF ins]
  have "s_AccMapInitial (recordGenesis v addr item st1) = Some am" using Cons.prems(1) by (simp add: fr)
  from Cons.IH [OF this acc k, of "s_InitialValidators st1 @ [v]"] obtain st' iv' where
    r: "initValidators e db s vs (recordGenesis v addr item st1, s_InitialValidators st1 @ [v]) = Inr (st', iv')"
    and "iv' \<noteq> []" and d: "Some ` dom (Validators (s_CurrentHeight st')) =
      Some ` dom (Validators (s_CurrentHeight (recordGenesis v addr item st1))) \<union> addrOf e ` set vs" by (metis snoc_eq_iff_butlast)
  have "initValidators e db s (v # vs) (st, iv) = Inr (st', iv')" using Cons.prems(1) a m ins r by simp
  moreover have "Some ` dom (Validators (s_CurrentHeight st')) =
      Some ` dom (Validators (s_CurrentHeight st)) \<union> addrOf e ` set (v # vs)"
    unfolding d by (simp add: fr addrOf_def a)
  ultimately show ?case using \<open>iv' \<noteq> []\<close> by blast
qed

text \<open>Tendermint's validator set at genesis.\<close>

definition genesisSet :: "'x env \<Rightarrow> ValidatorUpdate list \<Rightarrow> (string \<rightharpoonup> int)" where
  "genesisSet e vs = tmApply e vs Map.empty"

lemma tmApply_adds_dom:
  assumes "\<forall>v \<in> set vs. Power v \<noteq> 0" and "\<forall>v \<in> set vs. addrOf e v \<noteq> None"
  shows "Some ` dom (tmApply e vs T) = Some ` dom T \<union> addrOf e ` set vs"
  using assms
proof (induction vs arbitrary: T)
  case (Cons v vs)
  then obtain a where "addrOf e v = Some a" by auto
  with Cons show ?case by simp
qed simp

section \<open>EndBlock is a validator source\<close>

definition recorded :: "('c, 'b, 's, 'l, 'x) EthermintApplication \<Rightarrow> (string \<rightharpoonup> Validator)" where
  "recorded app = Validators (s_CurrentHeight (a_strategy app))"

text \<open>An admissible end of block. At the end of an epoch it is the copy of the next table that has to be
  well-formed, since it becomes the current one.\<close>

definition endblock_ok ::
  "'x env \<Rightarrow> versionVars \<Rightarrow> int \<Rightarrow> bytes option \<Rightarrow> ('c, 'b, 's, 'l, 'x) EthermintApplication \<Rightarrow> bool" where
  "endblock_ok e w height seed app \<longleftrightarrow>
     (if height mod EpochBlocks e = 0 then
        EpochBlocks e \<noteq> 0 \<and> 3 < length (HeightArray w) \<and> s_AuthTable (a_strategy app) \<noteq> None \<and>
        EthAuthTable (a_vars app) \<noteq> None \<and>
        (\<exists>nxt. s_NextPosTable (a_strategy app) = Some nxt \<and>
           postable_ok e (ExportSortedSigners e (CopyPosTable e nxt)))
      else update_ok e w height seed (a_strategy app, a_vars app))"

lemma epochChange_ok:
  assumes "endblock_ok e w height seed app" and "height mod EpochBlocks e = 0"
    and "s_NextPosTable (a_strategy app) = Some nxt"
  obtains app1 where "epochChange e w cH uC height app = Inr app1"
    and "recorded app1 = recorded app" and "epoch_ok e w (a_strategy app1)"
    and "cev_PosTable (s_CurrEpoch (a_strategy app1)) = Some (ExportSortedSigners e (CopyPosTable e nxt))"
    and "CurrentPosTable (a_vars app1) = Some (ExportSortedSigners e (CopyPosTable e nxt))"
    and "DKGMembersLimit (s_CurrEpoch (a_strategy app1)) = DKGMembersLimit (s_CurrEpoch (a_strategy app))"
proof -
  obtain at where at: "EthAuthTable (a_vars app) = Some at" using assms(1,2) by (auto simp: endblock_ok_def)
  have "index (HeightArray w) 3 = Inr (HeightArray w ! 3)"
    using assms(1,2) by (simp add: endblock_ok_def index_def)
  then obtain app1 where r: "epochChange e w cH uC height app = Inr app1"
    using assms(3) at by (simp add: epochChange_def Let_def)
  show ?thesis
    by (rule that [OF r])
      (use r assms at in \<open>auto simp: epochChange_def Let_def endblock_ok_def epoch_ok_def recorded_def mapBackend_def
         index_Inr_iff split: if_splits\<close>)
qed

lemma EndBlock_epoch_end:
  assumes "EpochBlocks e \<noteq> 0" and "height mod EpochBlocks e = 0"
    and "epochChange e w cH uC height app = Inr app1"
  shows "EndBlock e w cH uC ordV ordA height seed app =
    Some (panic_bind (blsValidators e w ordV ordA height (a_strategy app1, a_vars app1))
      (\<lambda>((st', gv'), resp). Inr (app1\<lparr>a_strategy := st', a_vars := gv'\<rparr>, resp)))"
  using assms by (simp add: EndBlock_def GetUpdatedValidators_def atEpochEnd_def)

lemma answers_app:
  assumes "answers e old (\<lambda>stg. Validators (s_CurrentHeight (fst stg))) r"
  shows "answers e old recorded (map_option (\<lambda>r. panic_bind r (\<lambda>((st', gv'), resp).
    Inr (app\<lparr>a_strategy := st', a_vars := gv'\<rparr>, resp))) r)"
  using assms by (auto simp: answers_def recorded_def)

lemma endblock_step:
  assumes k: "keyed e (recorded app)" and o: "range_order ordV" and ok: "endblock_ok e w height seed app"
  shows "answers e (recorded app) recorded (EndBlock e w cH uC ordV ordA height seed app)"
proof (cases "height mod EpochBlocks e = 0")
  case True
  with ok obtain nxt where nxt: "s_NextPosTable (a_strategy app) = Some nxt" by (auto simp: endblock_ok_def)
  obtain app1 where r: "epochChange e w cH uC height app = Inr app1" and "recorded app1 = recorded app"
    and eo: "epoch_ok e w (a_strategy app1)" by (rule epochChange_ok [OF ok True nxt])
  have "EpochBlocks e \<noteq> 0" using ok True by (simp add: endblock_ok_def)
  from EndBlock_epoch_end [OF this True r] show ?thesis
    using epoch_step [of e "(a_strategy app1, a_vars app1)" ordV w ordA height, THEN answers_app] k o eo
      \<open>recorded app1 = recorded app\<close> by (simp add: recorded_def)
next
  case False
  with ok have u: "update_ok e w height seed (a_strategy app, a_vars app)" by (simp add: endblock_ok_def)
  then have "EndBlock e w cH uC ordV ordA height seed app =
      map_option (\<lambda>r. panic_bind r (\<lambda>((st', gv'), resp). Inr (app\<lparr>a_strategy := st', a_vars := gv'\<rparr>, resp)))
        (GetUpdatedValidators e w ordV ordA height seed (a_strategy app, a_vars app))"
    using False by (simp add: EndBlock_def atEpochEnd_def update_ok_def)
  then show ?thesis
    using update_step [of e "(a_strategy app, a_vars app)" ordV w height seed ordA, THEN answers_app] k o u
    by (simp add: recorded_def)
qed

interpretation endblock: validator_source e
  "\<lambda>(height, seed). EndBlock e w cH uC ordV ordA height seed" recorded
  "\<lambda>(height, seed) app. range_order ordV \<and> endblock_ok e w height seed app"
  for e :: "'x env" and w cH uC ordV ordA
  by (rule validator_sourceI) (auto intro: endblock_step)

text \<open>A history of the application from Tendermint's point of view: ends of block, and between them
  anything that leaves the recorded validators alone.\<close>

definition app_chain ::
  "'x env \<Rightarrow> versionVars \<Rightarrow> ('c \<Rightarrow> hash) \<Rightarrow> (hash \<Rightarrow> 'c \<Rightarrow> 'c) \<Rightarrow> ((string \<rightharpoonup> Validator) \<Rightarrow> string list) \<Rightarrow>
     ((string \<rightharpoonup> bool) \<Rightarrow> string list) \<Rightarrow> (string \<rightharpoonup> int) \<Rightarrow> ('c, 'b, 's, 'l, 'x) EthermintApplication \<Rightarrow> bool" where
  "app_chain e w cH uC ordV ordA =
     chain e (\<lambda>(height, seed). EndBlock e w cH uC ordV ordA height seed) recorded
       (\<lambda>(height, seed) app. range_order ordV \<and> endblock_ok e w height seed app)"

text \<open>C7. \<open>EndBlock\<close> keeps Tendermint and the application in step. Along every history that starts with
  equal validator sets, each admissible \<open>EndBlock\<close> returns, and its answer is one Tendermint accepts:
  no address twice, no negative power, only members removed. When Tendermint has applied it, its set
  is the set the application records.\<close>

theorem EndBlock_synced:
  assumes "app_chain e w cH uC ordV ordA T app" and "range_order ordV" and "endblock_ok e w height seed app"
  shows "\<exists>app' resp. EndBlock e w cH uC ordV ordA height seed app = Some (Inr (app', resp)) \<and>
    reports e (recorded app) (recorded app') (ValidatorUpdates resp) \<and> dom T = dom (recorded app) \<and>
    dom (tmApply e (ValidatorUpdates resp) T) = dom (recorded app')"
  using endblock.chain_answers [of e w cH uC ordV ordA T app "(height, seed)"]
    endblock.chain_synced [of e w cH uC ordV ordA T app] assms
  by (auto simp: app_chain_def)

text \<open>C11. At the end of an epoch the table prepared for the next epoch takes effect: its exported copy
  becomes the current table, for the strategy and for txfilter alike, and the validators reported
  with positive power are the signers it selects, with their slots as power and with their BLS keys
  in the same order.\<close>

theorem EndBlock_new_epoch:
  assumes "range_order ordV" and "keyed e (recorded app)" and "endblock_ok e w height seed app"
    and "height mod EpochBlocks e = 0" and "s_NextPosTable (a_strategy app) = Some nxt"
    and "cur = ExportSortedSigners e (CopyPosTable e nxt)"
    and "signers = (if height = HeightArray w ! 3 then SortedSigners cur
      else TopKSigners e cur (blsMembers (a_strategy app)))"
  shows "\<exists>app' resp. EndBlock e w cH uC ordV ordA height seed app = Some (Inr (app', resp)) \<and>
    cev_PosTable (s_CurrEpoch (a_strategy app')) = Some cur \<and> CurrentPosTable (a_vars app') = Some cur \<and>
    [u \<leftarrow> ValidatorUpdates resp. Power u \<noteq> 0] =
      map (\<lambda>s. \<lparr>vu_PubKey = pi_PubKey (itemOf cur s), Power = Slots (itemOf cur s)\<rparr>) signers \<and>
    BlsKeyStrings resp = map (\<lambda>s. pi_BlsKeyString (itemOf cur s)) signers"
proof -
  obtain app1 where r: "epochChange e w cH uC height app = Inr app1" and "recorded app1 = recorded app"
    and eo: "epoch_ok e w (a_strategy app1)"
    and c: "cev_PosTable (s_CurrEpoch (a_strategy app1)) = Some cur" "CurrentPosTable (a_vars app1) = Some cur"
      "DKGMembersLimit (s_CurrEpoch (a_strategy app1)) = DKGMembersLimit (s_CurrEpoch (a_strategy app))"
    by (rule epochChange_ok [OF assms(3-5)]) (simp add: assms(6))
  from eo c have len: "3 < length (HeightArray w)" and ok: "postable_ok e cur"
    and at: "s_AuthTable (epochState e w height cur (a_strategy app1)) \<noteq> None"
    by (auto simp: epoch_ok_def epochState_def)
  have ss: "epochSigners e w height (a_strategy app1) cur = signers"
    by (simp add: epochSigners_def blsMembers_def c(3) assms(7))
  have sub: "set signers \<subseteq> dom (PosItemMap cur)"
    using ok assms(7) by (auto simp: postable_ok_def)
  obtain st' ev where g: "getAuthTmItems ordA (epochState e w height cur (a_strategy app1)) = Inr (st', ev)"
    using at getAuthTmItems_Inr_iff by blast
  have "EpochBlocks e \<noteq> 0" using assms(3,4) by (simp add: endblock_ok_def)
  note eq = EndBlock_epoch_end [OF this assms(4) r, of ordV ordA seed,
      unfolded blsValidators_eq [OF len c(1) ok ss [symmetric] g]]
  let ?old = "Validators (s_CurrentHeight (a_strategy app1))"
  have "enumerates (ordV ?old) ?old"
    using assms(1,2) \<open>recorded app1 = recorded app\<close> by (simp add: recorded_def keyed_def range_orderD)
  then have z: "[u \<leftarrow> removedUpdates (ordV ?old) ?old cur'. Power u \<noteq> 0] = []" for cur'
    by (simp add: removedUpdates_eq enumerates_def zeroUpdates_def filter_empty_conv)
  have p: "[u \<leftarrow> map (itemUpdate cur) signers. Power u \<noteq> 0] = map (itemUpdate cur) signers"
    using postable_okD(2) [OF ok subsetD [OF sub]] by (force simp: filter_id_conv)
  have "cev_PosTable (s_CurrEpoch st') = Some cur"
    using getAuthTmItems_frame(2) [OF g] c(1) by (simp add: epochState_def)
  then show ?thesis
    unfolding eq using c(2) z p by (simp add: itemUpdate_def)
qed

section \<open>The start of the chain\<close>

lemma genesis_acceptedE:
  assumes "genesis_accepted e db vs app" and "s_AccMapInitial (a_strategy app) = Some am"
  obtains st0 where "SetPosTableThreshold e (a_strategy app) = Inr st0"
    and "inserts_accepted e db (currentState app) am vs st0" and "s_AccMapInitial st0 = Some am"
proof -
  obtain st0 where "SetPosTableThreshold e (a_strategy app) = Inr st0"
    and "inserts_accepted e db (currentState app) am vs st0"
    using assms by (auto simp: genesis_accepted_def split: sum.splits)
  with that show ?thesis using SetPosTableThreshold_frame assms(2) by metis
qed

lemma InitChain_synced:
  assumes "InitChain e db ps vs app = Inr app'"
    and "Validators (s_CurrentHeight (a_strategy app)) = Map.empty"
    and "s_AccMapInitial (a_strategy app) = Some am" and "genesis_accepted e db vs app" and "all_known e am vs"
    and "\<forall>v \<in> set vs. Power v \<noteq> 0"
  shows "app_chain e w cH uC ordV ordA (genesisSet e vs) app'"
proof -
  obtain st0 st1 iv where t: "SetPosTableThreshold e (a_strategy app) = Inr st0"
    and l: "initValidators e db (currentState app) vs (st0, []) = Inr (st1, iv)"
    and ch: "s_CurrentHeight (a_strategy app') = s_CurrentHeight st1"
    by (rule InitChain_InrE [OF assms(1)])
  note fr = SetPosTableThreshold_frame [OF t]
  have "keyed e (Validators (s_CurrentHeight st0))" by (simp add: fr assms(2) keyed_def)
  with initValidators_spec [OF l, of "set vs"] have k: "keyed e (Validators (s_CurrentHeight st1))" by simp
  have ad: "\<forall>v \<in> set vs. addrOf e v \<noteq> None" using assms(5) by (auto simp: all_known_def addrOf_def)
  have "inserts_accepted e db (currentState app) am vs st0"
    by (rule genesis_acceptedE [OF assms(4,3)]) (use t in simp)
  then have "Some ` dom (Validators (s_CurrentHeight st1)) = addrOf e ` set vs"
    using initValidators_all [of st0 am e db "currentState app" vs "[]"] assms(2,3,5) l by (auto simp: fr)
  also have "\<dots> = Some ` dom (genesisSet e vs)"
    using tmApply_adds_dom [OF assms(6) ad, of Map.empty] by (simp add: genesisSet_def)
  finally have "dom (genesisSet e vs) = dom (Validators (s_CurrentHeight st1))"
    by (simp add: inj_image_eq_iff)
  with k ch show ?thesis unfolding app_chain_def by (intro chain.start) (simp_all add: recorded_def)
qed

section \<open>Commit\<close>

lemma Commit_facts:
  assumes "blockchain_laws en" and "app_Commit e db ps en app = Inr (app', Some blockHash)"
  shows "b_Number en (CurrentBlock en (be_chain (a_backend app'))) = hd_Number (ws_header (be_work (a_backend app))) \<and>
    blockHash = b_Hash en (CurrentBlock en (be_chain (a_backend app'))) \<and>
    hd_Number (ws_header (be_work (a_backend app'))) = hd_Number (ws_header (be_work (a_backend app))) + 1 \<and>
    ParentHash (ws_header (be_work (a_backend app'))) = blockHash \<and>
    transactions (be_work (a_backend app')) = [] \<and>
    a_strategy app' = a_strategy app \<and> cachedTxInfo (a_backend app') = cachedTxInfo (a_backend app) \<and>
    (\<exists>b1 app1. be_AccumulateRewards db (a_strategy app) (a_backend app) = Inr b1 \<and>
       SetPersistenceData e ps (app\<lparr>a_backend := b1\<rparr>) = Inr app1 \<and> a_checkTxState app' = currentState app1)"
proof -
  from assms(2) obtain b1 app1 b2 where r: "be_AccumulateRewards db (a_strategy app) (a_backend app) = Inr b1"
    and p: "SetPersistenceData e ps (app\<lparr>a_backend := b1\<rparr>) = Inr app1"
    and c: "be_Commit en (a_backend app1) = (b2, Inr blockHash)"
    and app': "app' = app1\<lparr>a_checkTxState := currentState app1, a_backend := b2\<rparr>"
    by (auto simp: app_Commit_def Let_def split: prod.splits sum.splits)
  obtain s where s: "app1 = setCurrentState s (app\<lparr>a_backend := b1\<rparr>)" using SetPersistenceData_Inr [OF p] by blast
  have b1: "cachedTxInfo b1 = cachedTxInfo (a_backend app)"
    "hd_Number (ws_header (be_work b1)) = hd_Number (ws_header (be_work (a_backend app)))"
    using r by (auto simp: be_AccumulateRewards_def AccumulateRewards_def accumulateRewards_def Let_def split: if_splits)
  from c obtain bc' ws' where es: "es_Commit en (be_chain (a_backend app1)) (be_work (a_backend app1)) =
      ((bc', ws'), Inr blockHash)" and b2: "b2 = (a_backend app1)\<lparr>be_chain := bc', be_work := ws'\<rparr>"
    by (auto simp: be_Commit_def Let_def split: prod.splits)
  have "b_Number en (CurrentBlock en bc') = hd_Number (ws_header (be_work (a_backend app1)))"
    using es_Commit_facts(2) [OF assms(1) es] by blast
  moreover have "blockHash = b_Hash en (CurrentBlock en bc') \<and>
      hd_Number (ws_header ws') = hd_Number (ws_header (be_work (a_backend app1))) + 1 \<and>
      ParentHash (ws_header ws') = blockHash \<and> transactions ws' = []"
    by (rule es_Commit_facts [OF assms(1) es])
  ultimately show ?thesis using r p b1 by (auto simp: app' b2 s)
qed

text \<open>C19. A successful \<open>Commit\<close> answers the hash of the block that is now the head of the chain; the
  checks of the next height start from the committed state, rewards and persisted strategy included;
  the next header continues the chain; and the strategy and the cache of transaction infos, which the
  rechecks that follow rely on, are untouched.\<close>

theorem Commit_block:
  assumes "blockchain_laws en" and "app_Commit e db ps en app = Inr (app', Some blockHash)"
  shows "blockHash = b_Hash en (CurrentBlock en (be_chain (a_backend app'))) \<and>
    hd_Number (ws_header (be_work (a_backend app'))) = hd_Number (ws_header (be_work (a_backend app))) + 1 \<and>
    ParentHash (ws_header (be_work (a_backend app'))) = blockHash \<and>
    transactions (be_work (a_backend app')) = [] \<and>
    a_strategy app' = a_strategy app \<and> cachedTxInfo (a_backend app') = cachedTxInfo (a_backend app) \<and>
    (\<exists>b1 app1. be_AccumulateRewards db (a_strategy app) (a_backend app) = Inr b1 \<and>
       SetPersistenceData e ps (app\<lparr>a_backend := b1\<rparr>) = Inr app1 \<and> a_checkTxState app' = currentState app1)"
  using Commit_facts [OF assms] by blast

section \<open>Restart\<close>

text \<open>The contract of the storage methods: code, storage slots and raw trie entries are separate, and each
  is what was last written.\<close>

definition storage_laws :: "('s, 'x) persist \<Rightarrow> bool" where
  "storage_laws ps \<longleftrightarrow>
     (\<forall>s a c b. GetCode ps (SetCode ps s a c) b = (if b = a then c else GetCode ps s b)) \<and>
     (\<forall>s a k v b. GetCode ps (SetState ps s a k v) b = GetCode ps s b) \<and>
     (\<forall>s a k v b. GetCode ps (TryUpdate ps s a k v) b = GetCode ps s b) \<and>
     (\<forall>s a k v. GetState ps (SetState ps s a k v) a k = v) \<and>
     (\<forall>s a k v. TryGet ps (TryUpdate ps s a k v) a k = Inr v) \<and>
     (\<forall>s a k v b j. TryGet ps (SetState ps s a k v) b j = TryGet ps s b j)"

lemma storage_lawsD:
  assumes "storage_laws ps"
  shows "GetCode ps (SetCode ps s a c) b = (if b = a then c else GetCode ps s b)"
    and "GetCode ps (SetState ps s a k v) b = GetCode ps s b"
    and "GetCode ps (TryUpdate ps s a j u) b = GetCode ps s b"
    and "GetState ps (SetState ps s a k v) a k = v"
    and "TryGet ps (TryUpdate ps s a j u) a j = Inr u"
    and "TryGet ps (SetState ps s a k v) b j = TryGet ps s b j"
  using assms by (auto simp: storage_laws_def)

text \<open>The codec on the values at hand: JSON keeps the height and the validators, the table and the total
  balance; reading into an existing value merges the validators and keeps the fields that are tagged
  out. \<open>strip\<close> is what JSON keeps of a table.\<close>

definition codec_ok ::
  "'x env \<Rightarrow> ('s, 'x) persist \<Rightarrow> ('x PosTable \<Rightarrow> 'x PosTable) \<Rightarrow> CurrentHeightValData \<Rightarrow> 'x CurrEpochValData \<Rightarrow>
     'x PosTable \<Rightarrow> bool" where
  "codec_ok e ps strip d ep nx \<longleftrightarrow>
     MarshalHeight ps d \<noteq> [] \<and> Keccak256Hash ps (MarshalHeight ps d) \<noteq> 0 \<and> MarshalCurrEpoch ps ep \<noteq> [] \<and>
     (\<forall>old. UnmarshalHeight ps (MarshalHeight ps d) old =
        Inr (old\<lparr>chv_Height := chv_Height d, Validators := Validators old ++ Validators d\<rparr>)) \<and>
     (\<forall>old. UnmarshalCurrEpoch ps (MarshalCurrEpoch ps ep) old =
        Inr (old\<lparr>cev_PosTable := map_option strip (cev_PosTable ep), TotalBalance := TotalBalance ep\<rparr>)) \<and>
     (\<forall>s. GetCode ps s (SendToUnlock e) = MarshalPosTable ps nx \<longrightarrow> InitPosTable ps s = strip nx)"

definition stored :: "'x env \<Rightarrow> ('s, 'x) persist \<Rightarrow> 's \<Rightarrow> 'x CurrEpochValData \<Rightarrow> 'x PosTable \<Rightarrow> bool" where
  "stored e ps s ep nx \<longleftrightarrow>
     GetCode ps s (SendToLock e) = MarshalCurrEpoch ps ep \<and>
     GetCode ps s (SendToUnlock e) = MarshalPosTable ps nx"

definition places_ok :: "'x env \<Rightarrow> bool" where
  "places_ok e \<longleftrightarrow> distinct [SendToLock e, SendToUnlock e, SendToAuth e]"

lemma persistAuth_code:
  assumes "storage_laws ps" and "persistAuth e ps st s = Inr s'" and "a \<noteq> SendToAuth e"
  shows "GetCode ps s' a = GetCode ps s a"
  using assms(2,3)
  by (auto simp: persistAuth_def Let_def storage_lawsD [OF assms(1)] split: if_splits option.splits)

lemma persistNext_code:
  assumes "storage_laws ps" and "places_ok e" and "persistNext e ps st s = Inr s1" and "s_NextPosTable st = Some nxt"
  shows "GetCode ps s1 (SendToLock e) = GetCode ps s (SendToLock e)"
    and "GetCode ps s1 (SendToUnlock e) =
      (if ChangedFlagThisBlock nxt \<or> chv_Height (s_CurrentHeight st) mod EpochBlocks e = 0
       then MarshalPosTable ps nxt else GetCode ps s (SendToUnlock e))"
proof -
  from assms(3,4) obtain wr where wr: "(if ChangedFlagThisBlock nxt then Inr True
      else atEpochEnd e (chv_Height (s_CurrentHeight st))) = Inr wr"
    and s1: "(if wr then persistAuth e ps st (SetCode ps s (SendToUnlock e) (MarshalPosTable ps nxt)) else Inr s) = Inr s1"
    by (auto simp: persistNext_def)
  from wr have "wr \<longleftrightarrow> ChangedFlagThisBlock nxt \<or> chv_Height (s_CurrentHeight st) mod EpochBlocks e = 0"
    by (auto simp: atEpochEnd_Inr_iff split: if_splits)
  then show "GetCode ps s1 (SendToLock e) = GetCode ps s (SendToLock e)"
    and "GetCode ps s1 (SendToUnlock e) =
      (if ChangedFlagThisBlock nxt \<or> chv_Height (s_CurrentHeight st) mod EpochBlocks e = 0
       then MarshalPosTable ps nxt else GetCode ps s (SendToUnlock e))"
    using s1 persistAuth_code [OF assms(1)] assms(2)
    by (auto simp: storage_lawsD [OF assms(1)] places_ok_def split: if_splits)
qed

lemma SetPersistenceData_stored:
  assumes laws: "storage_laws ps" "places_ok e" and run: "SetPersistenceData e ps app = Inr app1"
    and nxt: "s_NextPosTable (a_strategy app) = Some nxt"
    and h: "h = chv_Height (s_CurrentHeight (a_strategy app))"
    and old: "h mod EpochBlocks e = 0 \<or> stored e ps (currentState app) ep0 nx0"
  shows "stored e ps (currentState app1)
      (if h mod EpochBlocks e = 0 then s_CurrEpoch (a_strategy app) else ep0)
      (if ChangedFlagThisBlock nxt \<or> h mod EpochBlocks e = 0 then nxt else nx0)"
    and "TryGet ps (currentState app1) (SendToLock e) heightKey = Inr (MarshalHeight ps (s_CurrentHeight (a_strategy app)))"
    and "GetState ps (currentState app1) (SendToLock e) (BytesToHash ps heightKey) =
      Keccak256Hash ps (MarshalHeight ps (s_CurrentHeight (a_strategy app)))"
proof -
  let ?st = "a_strategy app"
  from run obtain s1 ee where p: "persistNext e ps ?st (currentState app) = Inr s1"
    and ee: "ee \<longleftrightarrow> h mod EpochBlocks e = 0"
    and s: "currentState app1 = persistHeight e ps ?st
      (if ee then SetCode ps s1 (SendToLock e) (MarshalCurrEpoch ps (s_CurrEpoch ?st)) else s1)"
    by (auto simp: SetPersistenceData_def Let_def atEpochEnd_Inr_iff h)
  note c = persistNext_code [OF laws p nxt, folded h]
  show "stored e ps (currentState app1)
      (if h mod EpochBlocks e = 0 then s_CurrEpoch ?st else ep0)
      (if ChangedFlagThisBlock nxt \<or> h mod EpochBlocks e = 0 then nxt else nx0)"
    using c laws(2) old ee
    by (auto simp: stored_def s persistHeight_def Let_def storage_lawsD [OF laws(1)] places_ok_def)
  show "TryGet ps (currentState app1) (SendToLock e) heightKey = Inr (MarshalHeight ps (s_CurrentHeight ?st))"
    "GetState ps (currentState app1) (SendToLock e) (BytesToHash ps heightKey) =
      Keccak256Hash ps (MarshalHeight ps (s_CurrentHeight ?st))"
    by (simp_all add: s persistHeight_def Let_def storage_lawsD [OF laws(1)])
qed

text \<open>C8. A node that restarts resumes where it stopped. \<open>SetPersistenceData\<close> at any height followed by
  \<open>InitPersistData\<close> in a fresh node on the same account state restores the height and the recorded
  validators; the table and the total balance of the epoch as of the last epoch end; and the table of
  the next epoch as of the last block that changed it. The block version is that of the fork schedule
  at the restored height.\<close>

theorem persist_restart:
  assumes "storage_laws ps" and "places_ok e" and "SetPersistenceData e ps app = Inr app1"
    and "s_NextPosTable (a_strategy app) = Some nxt" and "h = chv_Height (s_CurrentHeight (a_strategy app))"
    and "h mod EpochBlocks e = 0 \<or> stored e ps (currentState app) ep0 nx0"
    and "ep = (if h mod EpochBlocks e = 0 then s_CurrEpoch (a_strategy app) else ep0)"
    and "nx = (if ChangedFlagThisBlock nxt \<or> h mod EpochBlocks e = 0 then nxt else nx0)"
    and "cev_PosTable ep = Some pt" and "codec_ok e ps strip (s_CurrentHeight (a_strategy app)) ep nx"
    and "currentState app0 = currentState app1" and "Validators (s_CurrentHeight (a_strategy app0)) = Map.empty"
    and "versionAt w (a_strategy app0) h (BlockVersion (s_HF (a_strategy app0))) = Inr ver"
  shows "\<exists>app2. InitPersistData e ps w app0 = Inr (app2, True) \<and>
    chv_Height (s_CurrentHeight (a_strategy app2)) = h \<and>
    Validators (s_CurrentHeight (a_strategy app2)) = Validators (s_CurrentHeight (a_strategy app)) \<and>
    cev_PosTable (s_CurrEpoch (a_strategy app2)) = Some (ExportSortedSigners e (InitStruct e (strip pt))) \<and>
    TotalBalance (s_CurrEpoch (a_strategy app2)) = TotalBalance ep \<and>
    s_NextPosTable (a_strategy app2) = Some (InitStruct e (strip nx)) \<and>
    BlockVersion (s_HF (a_strategy app2)) = ver"
proof -
  note st = SetPersistenceData_stored [OF assms(1-6), folded assms(7,8,11)]
  let ?d = "s_CurrentHeight (a_strategy app)" and ?a0 = "app0\<lparr>a_evmErrHeight := EvmErrHardForkHeight w,
    a_vars := (a_vars app0)\<lparr>Bigguy := HexToAddress e (BigguyStr w)\<rparr>\<rparr>"
  have cs: "currentState ?a0 = currentState app0" by (simp add: currentState_def)
  have lh: "loadHeight e ps (currentState app0) (s_CurrentHeight (a_strategy app0)) =
      Inr ((s_CurrentHeight (a_strategy app0))\<lparr>chv_Height := h, Validators := Validators ?d\<rparr>)"
    using st(2) assms(10,12) by (simp add: loadHeight_def codec_ok_def assms(5))
  have le: "loadEpoch e ps (currentState app0) (s_CurrEpoch (a_strategy app0)) =
      Inr ((s_CurrEpoch (a_strategy app0))\<lparr>cev_PosTable := Some (ExportSortedSigners e (InitStruct e (strip pt))),
        TotalBalance := TotalBalance ep\<rparr>)"
    using st(1) assms(9,10) by (simp add: loadEpoch_def codec_ok_def stored_def Let_def)
  have ip: "InitPosTable ps (currentState app0) = strip nx"
    using st(1) assms(10) by (simp add: codec_ok_def stored_def)
  have "GetState ps (currentState app0) (SendToLock e) (BytesToHash ps heightKey) \<noteq> 0"
    using st(3) assms(10) by (simp add: codec_ok_def)
  then show ?thesis
    using lh le ip assms(13) by (simp add: InitPersistData_def Let_def cs)
qed

section \<open>Witnesses\<close>

text \<open>A store of code, slots and trie entries, and a codec for the three sample values.\<close>

type_synonym store = "(address \<Rightarrow> bytes) \<times> (address \<times> hash \<Rightarrow> hash) \<times> (address \<times> string \<Rightarrow> bytes)"

definition samplePersist :: "(store, unit) persist" where
  "samplePersist =
     \<lparr>GetCode = (\<lambda>(c, st, t) a. c a), SetCode = (\<lambda>(c, st, t) a v. (c(a := v), st, t)),
      GetState = (\<lambda>(c, st, t) a k. st (a, k)), SetState = (\<lambda>(c, st, t) a k v. (c, st((a, k) := v), t)),
      TryGet = (\<lambda>(c, st, t) a k. Inr (t (a, k))), TryUpdate = (\<lambda>(c, st, t) a k v. (c, st, t((a, k) := v))),
      BytesToHash = (\<lambda>k. word_of_int (int (length k))), Keccak256Hash = (\<lambda>b. word_of_int (int (length b))),
      InitPosTable = (\<lambda>s. samplePosTable), InitAuthTable = (\<lambda>s. sampleAuthTable),
      MarshalPosTable = (\<lambda>pt. [1]), MarshalAuthTable = (\<lambda>at. [2]), MarshalExtendAuthTable = (\<lambda>at. [3]),
      MarshalCurrEpoch = (\<lambda>d. [4]),
      UnmarshalCurrEpoch = (\<lambda>b old. Inr (old\<lparr>cev_PosTable := Some samplePosTable, TotalBalance := Some 1000000\<rparr>)),
      MarshalHeight = (\<lambda>d. [5]), UnmarshalHeight = (\<lambda>b old. Inr (old\<lparr>chv_Height := 0\<rparr>))\<rparr>"

lemma sample_storage_laws: "storage_laws samplePersist"
  by (simp add: storage_laws_def samplePersist_def split_def)

lemma sample_places: "places_ok sampleEnv"
  by (simp add: places_ok_def sampleEnv_def)

definition sampleStoreDb :: "store statedb" where
  "sampleStoreDb =
     \<lparr>GetBalance = (\<lambda>s a. 500), SetBalance = (\<lambda>s a v. s), AddBalance = (\<lambda>s a v. s), SubBalance = (\<lambda>s a v. s),
      GetNonce = (\<lambda>s a. 0), SetNonce = (\<lambda>s a n. s)\<rparr>"

definition sampleStore :: store where
  "sampleStore = (\<lambda>a. [], \<lambda>p. 0, \<lambda>p. [])"

definition sampleStoreWork :: "(Header, store, unit) workState" where
  "sampleStoreWork =
     \<lparr>ws_header = sampleHeader\<lparr>hd_Number := 1\<rparr>, parent = sampleHeader, ws_height = 1, ws_state = sampleStore,
      txIndex = 0, transactions = [], receipts = [], allLogs = [], totalUsedGas = 0, gp = 8000000\<rparr>"

definition sampleMap :: AccountMap where
  "sampleMap =
     \<lparr>MapList = [''A1'' \<mapsto> \<lparr>am_Signer = 1, am_Beneficiary = 11, am_BlsKeyString = ''k1''\<rparr>,
                 ''A2'' \<mapsto> \<lparr>am_Signer = 2, am_Beneficiary = 12, am_BlsKeyString = ''k2''\<rparr>],
      FilePath = []\<rparr>"

definition sampleNode :: "(Header list, Header, store, unit, unit) EthermintApplication" where
  "sampleNode =
     \<lparr>a_backend = \<lparr>be_chain = [sampleHeader], be_work = sampleStoreWork, currentTxInfo = sampleTxInfo 0,
        cachedTxInfo = Map.empty\<rparr>,
      a_checkTxState = sampleStore, a_strategy = SetInitialAccountMap sampleMap (sampleStrategy 5 0),
      a_punishment = appPunishment, a_vars = sampleVars\<lparr>EthAuthTable := Some sampleAuthTable\<rparr>,
      a_evmErrHeight = 0\<rparr>"

definition sampleGenesis :: "ValidatorUpdate list" where
  "sampleGenesis = [\<lparr>vu_PubKey = sampleKey ''A1'', Power = 10\<rparr>, \<lparr>vu_PubKey = sampleKey ''A2'', Power = 10\<rparr>]"

lemmas sample_node_defs =
  sampleNode_def sampleGenesis_def sampleMap_def sampleStoreWork_def SetInitialAccountMap_def

lemma sample_InitChain:
  obtains app' where "InitChain sampleEnv sampleStoreDb samplePersist sampleGenesis sampleNode = Inr app'"
  by (simp add: InitChain_def SetPosTableThreshold_def InsertPosItemInit_def SetPersistenceData_def
      persistNext_def persistAuth_def atEpochEnd_def Let_def big_Int64_def i64_def SetInitialValidators_def
      sample_node_defs sample_defs sampleVars_def split_def)

theorem InitChain_keeps_one_validator_witness:
  "\<exists>app' v. InitChain sampleEnv sampleStoreDb samplePersist sampleGenesis sampleNode = Inr app' \<and>
    length sampleGenesis = 2 \<and> s_InitialValidators (a_strategy app') = [v]"
proof -
  obtain app' where r: "InitChain sampleEnv sampleStoreDb samplePersist sampleGenesis sampleNode = Inr app'"
    by (rule sample_InitChain)
  have "keyed sampleEnv (Validators (s_CurrentHeight (a_strategy sampleNode)))"
    "s_InitialValidators (a_strategy sampleNode) = []"
    by (simp_all add: keyed_def sample_node_defs sampleStrategy_def NewStrategy_def)
  with InitChain_keeps_one_validator [OF r] r show ?thesis by (auto simp: sampleGenesis_def)
qed

lemma sample_endblock_ok: "endblock_ok sampleEnv sampleVersion 600 None sampleNode"
  using sample_postable_ok
  by (simp add: endblock_ok_def sampleNode_def sampleVersion_def SetInitialAccountMap_def sampleStrategy_def)
    (simp add: sampleEnv_def)

lemma sample_recorded: "recorded sampleNode = Map.empty"
  by (simp add: recorded_def sample_node_defs sampleStrategy_def NewStrategy_def)

theorem EndBlock_synced_witness:
  "\<exists>app' resp. EndBlock sampleEnv sampleVersion (\<lambda>c. 0) (\<lambda>h c. c) sortedKeys sortedKeys 600 None sampleNode =
      Some (Inr (app', resp)) \<and>
    dom (tmApply sampleEnv (ValidatorUpdates resp) Map.empty) = dom (recorded app')"
proof -
  have "app_chain sampleEnv sampleVersion (\<lambda>c. 0) (\<lambda>h c. c) sortedKeys sortedKeys Map.empty sampleNode"
    unfolding app_chain_def by (rule chain.start) (simp_all add: sample_recorded keyed_def)
  from EndBlock_synced [OF this range_order_sortedKeys sample_endblock_ok] show ?thesis by blast
qed

theorem EndBlock_new_epoch_witness:
  "\<exists>app' resp. EndBlock sampleEnv sampleVersion (\<lambda>c. 0) (\<lambda>h c. c) sortedKeys sortedKeys 600 None sampleNode =
      Some (Inr (app', resp)) \<and>
    [u \<leftarrow> ValidatorUpdates resp. Power u \<noteq> 0] =
      [\<lparr>vu_PubKey = sampleKey ''A1'', Power = 10\<rparr>, \<lparr>vu_PubKey = sampleKey ''A2'', Power = 20\<rparr>]"
proof -
  have cur: "samplePosTable = ExportSortedSigners sampleEnv (CopyPosTable sampleEnv samplePosTable)"
    by (simp add: sampleEnv_def)
  have nxt: "s_NextPosTable (a_strategy sampleNode) = Some samplePosTable"
    by (simp add: sample_node_defs sampleStrategy_def)
  have "(600 :: int) mod EpochBlocks sampleEnv = 0" "600 = HeightArray sampleVersion ! 3"
    by (simp_all add: sampleEnv_def sampleVersion_def)
  with EndBlock_new_epoch [OF range_order_sortedKeys _ sample_endblock_ok _ nxt cur refl,
      of "\<lambda>c. 0" "\<lambda>h c. c" sortedKeys]
  show ?thesis
    by (fastforce simp: sample_recorded keyed_def samplePosTable_def itemOf_def sampleItem_def)
qed

lemma sample_persist_node:
  obtains app1 where "SetPersistenceData sampleEnv samplePersist sampleNode = Inr app1"
  by (simp add: SetPersistenceData_def persistNext_def persistAuth_def atEpochEnd_def Let_def
      sample_node_defs sample_defs split_def)

theorem persist_restart_witness:
  "\<exists>app1 app2. SetPersistenceData sampleEnv samplePersist sampleNode = Inr app1 \<and>
    InitPersistData sampleEnv samplePersist sampleVersion app1 = Inr (app2, True) \<and>
    s_NextPosTable (a_strategy app2) = Some samplePosTable"
proof -
  obtain app1 where r: "SetPersistenceData sampleEnv samplePersist sampleNode = Inr app1"
    by (rule sample_persist_node)
  then obtain s where app1: "app1 = setCurrentState s sampleNode" using SetPersistenceData_Inr by blast
  have st: "a_strategy app1 = a_strategy sampleNode" by (simp add: app1)
  have ep: "cev_PosTable (s_CurrEpoch (a_strategy sampleNode)) = Some samplePosTable"
    and nxt: "s_NextPosTable (a_strategy sampleNode) = Some samplePosTable"
    and h: "0 = chv_Height (s_CurrentHeight (a_strategy sampleNode))"
    by (simp_all add: sample_node_defs sampleStrategy_def NewStrategy_def)
  have V: "Validators (s_CurrentHeight (a_strategy app1)) = Map.empty"
    unfolding st by (simp add: sample_node_defs sampleStrategy_def NewStrategy_def)
  have codec: "codec_ok sampleEnv samplePersist id (s_CurrentHeight (a_strategy sampleNode))
      (s_CurrEpoch (a_strategy sampleNode)) samplePosTable"
    by (simp add: codec_ok_def samplePersist_def sample_node_defs sampleStrategy_def NewStrategy_def)
  have v: "versionAt sampleVersion (a_strategy app1) 0 (BlockVersion (s_HF (a_strategy app1))) =
      Inr (BlockVersion (s_HF (a_strategy app1)))"
    by (simp add: versionAt_def sampleVersion_def forkVersion_none numeral_nat less_Suc_eq nth_Cons' )
  from persist_restart [OF sample_storage_laws sample_places r nxt h _ refl refl _ _ refl V v, of _ _ samplePosTable id]
    ep codec r
  show ?thesis by (auto simp: sampleEnv_def)
qed

definition sampleStoreEth :: "(Header list, Header, store, unit, 'w) ethenv" where
  "sampleStoreEth =
     \<lparr>bc_State = (\<lambda>bc. Inr sampleStore), CurrentBlock = hd, PendingBlockNumber = (\<lambda>bc. hd_Number (hd bc) + 1),
      WriteBlockWithState = (\<lambda>bc b rs ls s. (b # bc, None)),
      b_Number = hd_Number, b_Hash = (\<lambda>b. word_of_int (hd_Number b)), b_Difficulty = hd_Difficulty,
      b_Time = hd_Time, NewBlock = (\<lambda>h txs rs. h), CalcGasLimit = GasLimit,
      CalcDifficulty = (\<lambda>bc t p. 1), state_Commit = (\<lambda>s. (s, Inr 5)), Prepare = (\<lambda>s a b i. s),
      GetLogs = (\<lambda>s a. []),
      ApplyTransactionWithInfo = (\<lambda>bc h tx i x. (x, Inr \<lparr>r_Logs = [], r_rest = ()\<rparr>))\<rparr>"

theorem Commit_block_witness:
  "\<exists>app' blockHash. app_Commit sampleEnv sampleStoreDb samplePersist (sampleStoreEth :: (Header list, Header, store, unit, unit) ethenv) sampleNode =
      Inr (app', Some blockHash) \<and> hd_Number (ws_header (be_work (a_backend app'))) = 2"
proof -
  have laws: "blockchain_laws (sampleStoreEth :: (Header list, Header, store, unit, unit) ethenv)" by (simp add: blockchain_laws_def sampleStoreEth_def)
  have ver: "4 \<le> BlockVersion (s_HF (a_strategy sampleNode))"
    by (simp add: sample_node_defs sampleStrategy_def)
  let ?b1 = "(a_backend sampleNode)\<lparr>be_work := (be_work (a_backend sampleNode))\<lparr>ws_header :=
    (ws_header (be_work (a_backend sampleNode)))\<lparr>GasUsed := totalUsedGas (be_work (a_backend sampleNode))\<rparr>\<rparr>\<rparr>"
  have rew: "be_AccumulateRewards sampleStoreDb (a_strategy sampleNode) (a_backend sampleNode) = Inr ?b1"
    using ver by (simp add: be_AccumulateRewards_def AccumulateRewards_def)
  obtain app1 where p: "SetPersistenceData sampleEnv samplePersist (sampleNode\<lparr>a_backend := ?b1\<rparr>) = Inr app1"
    by (simp add: SetPersistenceData_def persistNext_def persistAuth_def atEpochEnd_def Let_def
        sample_node_defs sample_defs split_def)
  obtain b2 h where c: "be_Commit (sampleStoreEth :: (Header list, Header, store, unit, unit) ethenv) (a_backend app1) = (b2, Inr h)"
    by (simp add: be_Commit_def es_Commit_def commit_def resetWorkState_def newBlockHeader_def Let_def
        sampleStoreEth_def)
  have run: "app_Commit sampleEnv sampleStoreDb samplePersist (sampleStoreEth :: (Header list, Header, store, unit, unit) ethenv) sampleNode =
      Inr (app1\<lparr>a_checkTxState := currentState app1, a_backend := b2\<rparr>, Some h)"
    using rew p c by (simp add: app_Commit_def Let_def)
  from Commit_block [OF laws run] run show ?thesis
    by (fastforce simp: sampleNode_def sampleStoreWork_def)
qed

end
