(* ===== verification/Startup.thy ===== *)
theory Startup
  imports AppBlockProps
begin

text \<open>
  \<open>src/cmd/dtfn/dtfn.go\<close>, the part of \<open>ethermintCmd\<close> that sets up the application: the creation of
  the application with a new strategy, the rollback of the chain, the recovery of the persisted data
  or else the genesis data (total balance, account map), and the values taken from the command line.
  The genesis files are read by third-party code; what was read is in \<open>genesisFiles\<close>. The head of
  the chain is set by the argument \<open>setHead\<close>.
\<close>

section \<open>Inputs\<close>

record startFlags =
  fl_BlsSelectStrategy :: bool
  fl_RollbackFlag :: bool
  fl_RollbackHeight :: int
  fl_SelectCount :: int
  fl_DKGMembersLimit :: int

text \<open>A validator of the Tendermint genesis document: the address of its key, its BLS key as JSON.\<close>

record genesisValidator =
  gv_TmAddress :: string
  gv_BlsKeyJson :: string

text \<open>\<open>None\<close>: the file could not be read.\<close>

record genesisFiles =
  gf_Alloc :: "(address \<rightharpoonup> int) option"
  gf_EthAccounts :: "EthAccounts option"
  gf_GenDoc :: "genesisValidator list option"

datatype startError = ExitMsg string | StartPanic panic

section \<open>Genesis data\<close>

fun sumAlloc :: "(address \<rightharpoonup> int) \<Rightarrow> address list \<Rightarrow> int \<Rightarrow> int" where
  "sumAlloc alloc [] acc = acc"
| "sumAlloc alloc (k # ks) acc =
     sumAlloc alloc ks (case alloc k of None \<Rightarrow> acc | Some b \<Rightarrow> acc + b)"

fun accountMapItems ::
  "'x env \<Rightarrow> EthAccounts \<Rightarrow> genesisValidator list \<Rightarrow> int \<Rightarrow> (string \<rightharpoonup> AccountMapItem) \<Rightarrow>
     panic + (string \<rightharpoonup> AccountMapItem)" where
  "accountMapItems e ea [] i m = Inr m"
| "accountMapItems e ea (v # vs) i m =
     (if i = int (length (ea_EthAccounts ea)) then Inr m
      else
        panic_bind (index (ea_EthAccounts ea) i) (\<lambda>acc.
        panic_bind (index (EthBeneficiarys ea) i) (\<lambda>ben.
          accountMapItems e ea vs (i + 1)
            (m(gv_TmAddress v \<mapsto>
               \<lparr>am_Signer = HexToAddress e acc, am_Beneficiary = HexToAddress e ben,
                am_BlsKeyString = gv_BlsKeyJson v\<rparr>)))))"

definition initGenesis ::
  "'x env \<Rightarrow> ((address \<rightharpoonup> int) \<Rightarrow> address list) \<Rightarrow> genesisFiles \<Rightarrow> 'x Strategy \<Rightarrow> startError + 'x Strategy" where
  "initGenesis e ordG gf st =
     (case gf_Alloc gf of
        None \<Rightarrow> Inl (ExitMsg ''invalid genesis file'')
      | Some alloc \<Rightarrow>
          (let st1 = st\<lparr>s_CurrEpoch := (s_CurrEpoch st)\<lparr>TotalBalance := Some (sumAlloc alloc (ordG alloc) 0)\<rparr>\<rparr> in
           case gf_EthAccounts gf of
             None \<Rightarrow> Inl (StartPanic (PanicMsg ''Sorry but you dont have initial account file''))
           | Some ea \<Rightarrow>
               (case gf_GenDoc gf of
                  None \<Rightarrow> Inl (StartPanic NilDeref)
                | Some vs \<Rightarrow>
                    (case accountMapItems e ea vs 0 Map.empty of
                       Inl p \<Rightarrow> Inl (StartPanic p)
                     | Inr m \<Rightarrow> Inr (SetInitialAccountMap \<lparr>MapList = m, FilePath = []\<rparr> st1)))))"

section \<open>The start\<close>

definition whetherRollbackEthApp ::
  "(uint64 \<Rightarrow> 'c \<Rightarrow> 'c) \<Rightarrow> bool \<Rightarrow> int \<Rightarrow> ('c, 'b, 's, 'l) Backend \<Rightarrow> ('c, 'b, 's, 'l) Backend" where
  "whetherRollbackEthApp setHead rollbackFlag rollbackHeight b =
     (if rollbackFlag then b\<lparr>be_chain := setHead (word_of_int rollbackHeight) (be_chain b)\<rparr> else b)"

definition applyFlags :: "startFlags \<Rightarrow> 'x Strategy \<Rightarrow> startError + 'x Strategy" where
  "applyFlags fl st =
     (case TotalBalance (s_CurrEpoch st) of
        None \<Rightarrow> Inl (StartPanic NilDeref)
      | Some tb \<Rightarrow>
          if big_Int64 tb = 0 then Inl (StartPanic (PanicMsg ''strategy.CurrEpochValData.TotalBalance==0''))
          else Inr (st\<lparr>s_CurrEpoch := (s_CurrEpoch st)
                 \<lparr>SelectCount := fl_SelectCount fl, DKGMembersLimit := fl_DKGMembersLimit fl\<rparr>\<rparr>))"

definition newApp ::
  "'x env \<Rightarrow> ('c, 'b, 's, 'l, 'w) ethenv \<Rightarrow> startFlags \<Rightarrow> int \<Rightarrow> ('c, 'b, 's, 'l) Backend \<Rightarrow> 'x txfilterVars \<Rightarrow>
     startError + ('c, 'b, 's, 'l, 'x) EthermintApplication" where
  "newApp e en fl chainId b gv =
     (case NewEthermintApplication e en b NewStrategy gv of
        Inl err \<Rightarrow> Inl (ExitMsg err)
      | Inr app \<Rightarrow>
          Inr (mapStrategy (\<lambda>st. SetSigner chainId (st\<lparr>s_BlsSelectStrategy := fl_BlsSelectStrategy fl\<rparr>)) app))"

definition startApp ::
  "'x env \<Rightarrow> ('c, 'b, 's, 'l, 'w) ethenv \<Rightarrow> ('s, 'x) persist \<Rightarrow> versionVars \<Rightarrow> (uint64 \<Rightarrow> 'c \<Rightarrow> 'c) \<Rightarrow>
     ((address \<rightharpoonup> int) \<Rightarrow> address list) \<Rightarrow> genesisFiles \<Rightarrow> startFlags \<Rightarrow> int \<Rightarrow> ('c, 'b, 's, 'l) Backend \<Rightarrow>
     'x txfilterVars \<Rightarrow> startError + ('c, 'b, 's, 'l, 'x) EthermintApplication" where
  "startApp e en ps w setHead ordG gf fl chainId b gv =
     (case newApp e en fl chainId b gv of
        Inl err \<Rightarrow> Inl err
      | Inr app0 \<Rightarrow>
          (case InitPersistData e ps w
                  (mapBackend (whetherRollbackEthApp setHead (fl_RollbackFlag fl) (fl_RollbackHeight fl)) app0) of
             Inl p \<Rightarrow> Inl (StartPanic p)
           | Inr (app1, hasPersistData) \<Rightarrow>
               (case (if hasPersistData then Inr (a_strategy app1) else initGenesis e ordG gf (a_strategy app1)) of
                  Inl err \<Rightarrow> Inl err
                | Inr st \<Rightarrow>
                    (case applyFlags fl st of
                       Inl err \<Rightarrow> Inl err
                     | Inr st' \<Rightarrow> Inr (app1\<lparr>a_strategy := st'\<rparr>)))))"

section \<open>Genesis properties\<close>

lemma sumAlloc_eq: "sumAlloc alloc ks acc = acc + (\<Sum>k \<leftarrow> ks. case alloc k of None \<Rightarrow> 0 | Some b \<Rightarrow> b)"
  by (induction ks arbitrary: acc) (auto split: option.splits)

lemma sumAlloc_total:
  assumes "range_order ordG" and "finite (dom alloc)"
  shows "sumAlloc alloc (ordG alloc) 0 = (\<Sum>k \<in> dom alloc. the (alloc k))"
proof -
  have en: "enumerates (ordG alloc) alloc" by (rule range_orderD [OF assms])
  have "sumAlloc alloc (ordG alloc) 0 = (\<Sum>k \<in> dom alloc. case alloc k of None \<Rightarrow> 0 | Some b \<Rightarrow> b)"
    using en by (simp add: sumAlloc_eq enumerates_def sum_list_distinct_conv_sum_set)
  also have "\<dots> = (\<Sum>k \<in> dom alloc. the (alloc k))"
    by (rule sum.cong) (auto split: option.splits)
  finally show ?thesis .
qed

text \<open>The item of the i-th genesis validator.\<close>

definition genesisItem :: "'x env \<Rightarrow> EthAccounts \<Rightarrow> genesisValidator list \<Rightarrow> nat \<Rightarrow> AccountMapItem" where
  "genesisItem e ea vs i =
     \<lparr>am_Signer = HexToAddress e (ea_EthAccounts ea ! i), am_Beneficiary = HexToAddress e (EthBeneficiarys ea ! i),
      am_BlsKeyString = gv_BlsKeyJson (vs ! i)\<rparr>"

lemma accountMapItems_Inl:
  assumes "accountMapItems e ea vs (int n) m = Inl p" and "n \<le> length (ea_EthAccounts ea)"
  shows "p = IndexOutOfRange \<and> length (EthBeneficiarys ea) < min (n + length vs) (length (ea_EthAccounts ea))"
  using assms
proof (induction vs arbitrary: n m)
  case (Cons v vs)
  show ?case
  proof (cases "n < length (EthBeneficiarys ea)")
    case True
    with Cons.prems have "accountMapItems e ea vs (int (Suc n)) (m(gv_TmAddress v \<mapsto>
        \<lparr>am_Signer = HexToAddress e (ea_EthAccounts ea ! n), am_Beneficiary = HexToAddress e (EthBeneficiarys ea ! n),
         am_BlsKeyString = gv_BlsKeyJson v\<rparr>)) = Inl p" and "Suc n \<le> length (ea_EthAccounts ea)"
      by (auto simp: index_def algebra_simps split: if_splits)
    from Cons.IH [OF this] show ?thesis by simp
  next
    case False
    with Cons.prems show ?thesis by (auto simp: index_def split: if_splits)
  qed
qed simp

lemma accountMapItems_Inr:
  assumes "accountMapItems e ea vs (int n) m = Inr m'" and "n \<le> length (ea_EthAccounts ea)"
    and "distinct (map gv_TmAddress vs)"
  shows "(\<forall>i < min (length vs) (length (ea_EthAccounts ea) - n).
      m' (gv_TmAddress (vs ! i)) = Some \<lparr>am_Signer = HexToAddress e (ea_EthAccounts ea ! (n + i)),
        am_Beneficiary = HexToAddress e (EthBeneficiarys ea ! (n + i)), am_BlsKeyString = gv_BlsKeyJson (vs ! i)\<rparr>) \<and>
    (\<forall>a. a \<notin> gv_TmAddress ` set (take (length (ea_EthAccounts ea) - n) vs) \<longrightarrow> m' a = m a)"
  using assms
proof (induction vs arbitrary: n m)
  case (Cons v vs)
  show ?case
  proof (cases "n = length (ea_EthAccounts ea)")
    case True
    with Cons.prems(1) show ?thesis by simp
  next
    case False
    with Cons.prems(2) have n: "n < length (ea_EthAccounts ea)" by simp
    let ?it = "\<lparr>am_Signer = HexToAddress e (ea_EthAccounts ea ! n),
        am_Beneficiary = HexToAddress e (EthBeneficiarys ea ! n), am_BlsKeyString = gv_BlsKeyJson v\<rparr>"
    from Cons.prems(1) n have run: "accountMapItems e ea vs (int (Suc n)) (m(gv_TmAddress v \<mapsto> ?it)) = Inr m'"
      by (auto simp: index_def algebra_simps split: if_splits)
    have sn: "Suc n \<le> length (ea_EthAccounts ea)" using n by simp
    note IH = Cons.IH [OF run sn]
    have fresh: "gv_TmAddress v \<notin> gv_TmAddress ` set (take k vs)" for k
      using Cons.prems(3) by (auto dest: in_set_takeD)
    have k: "length (ea_EthAccounts ea) - n = Suc (length (ea_EthAccounts ea) - Suc n)" using n by simp
    show ?thesis
      using IH Cons.prems(3) fresh unfolding k by (auto simp: less_Suc_eq_0_disj nth_Cons')
  qed
qed simp

lemma accountMapItems_start:
  assumes "distinct (map gv_TmAddress vs)" and "k = min (length vs) (length (ea_EthAccounts ea))"
    and "k \<le> length (EthBeneficiarys ea)"
  obtains m where "accountMapItems e ea vs 0 Map.empty = Inr m"
    and "dom m = gv_TmAddress ` set (take k vs)"
    and "\<And>i. i < k \<Longrightarrow> m (gv_TmAddress (vs ! i)) = Some (genesisItem e ea vs i)"
proof (cases "accountMapItems e ea vs 0 Map.empty")
  case (Inl p)
  with accountMapItems_Inl [of e ea vs 0 Map.empty p] assms(2,3) show ?thesis by (simp add: min_def split: if_splits)
next
  case (Inr m)
  have s: "(\<forall>i < k. m (gv_TmAddress (vs ! i)) = Some (genesisItem e ea vs i)) \<and>
      (\<forall>a. a \<notin> gv_TmAddress ` set (take k vs) \<longrightarrow> m a = None)"
    using accountMapItems_Inr [of e ea vs 0 Map.empty m] Inr assms(1,2)
    by (auto simp: genesisItem_def min_def split: if_splits)
  have "gv_TmAddress ` set (take k vs) \<subseteq> dom m"
    using s assms(2) by (auto simp: in_set_conv_nth)
  with s have "dom m = gv_TmAddress ` set (take k vs)" by (auto simp: domIff)
  with Inr s that show ?thesis by blast
qed

section \<open>What the start keeps\<close>

lemma InitPersistData_backend:
  assumes "InitPersistData e ps w app = Inr (app', b)"
  shows "a_backend app' = a_backend app \<and> a_checkTxState app' = a_checkTxState app"
  using assms
  by (auto simp: InitPersistData_def Let_def mapStrategy_def split: if_splits)

lemma InitPersistData_fresh:
  assumes "GetState ps (currentState app) (SendToLock e) (BytesToHash ps heightKey) = 0"
  shows "InitPersistData e ps w app =
    Inr (app\<lparr>a_evmErrHeight := EvmErrHardForkHeight w,
           a_vars := (a_vars app)\<lparr>Bigguy := HexToAddress e (BigguyStr w)\<rparr>,
           a_strategy := (a_strategy app)\<lparr>s_NextPosTable := Some (CreatePosTable e),
             s_AuthTable := Some (CreateAuthTable e)\<rparr>\<rparr>, False)"
  using assms by (simp add: InitPersistData_def Let_def mapStrategy_def currentState_def)

lemma mapBackend_frame [simp]:
  "a_strategy (mapBackend f app) = a_strategy app" "a_vars (mapBackend f app) = a_vars app"
  by (simp_all add: mapBackend_def)

lemma newApp_Inr:
  assumes "newApp e en fl chainId b gv = Inr app"
  obtains ws where "resetWorkState en (be_chain b) (HexToAddress e InitReceiver) = Inr ws"
    and "a_backend app = b\<lparr>be_work := ws\<rparr>" and "bc_State en (be_chain b) = Inr (a_checkTxState app)"
    and "a_strategy app = SetSigner chainId (NewStrategy\<lparr>s_BlsSelectStrategy := fl_BlsSelectStrategy fl\<rparr>)"
    and "a_vars app = gv"
  using assms
  by (auto simp: newApp_def NewEthermintApplication_def InitEthState_def mapStrategy_def split: sum.splits)

lemma startApp_InrE:
  assumes "startApp e en ps w setHead ordG gf fl chainId b gv = Inr app"
  obtains app0 app1 has st st' where "newApp e en fl chainId b gv = Inr app0"
    and "InitPersistData e ps w
      (mapBackend (whetherRollbackEthApp setHead (fl_RollbackFlag fl) (fl_RollbackHeight fl)) app0) = Inr (app1, has)"
    and "(if has then Inr (a_strategy app1) else initGenesis e ordG gf (a_strategy app1)) = Inr st"
    and "applyFlags fl st = Inr st'" and "app = app1\<lparr>a_strategy := st'\<rparr>"
  using assms by (auto simp: startApp_def split: sum.splits prod.splits)

lemma resetWorkState_header:
  assumes "resetWorkState en bc receiver = Inr ws"
  shows "hd_Number (ws_header ws) = b_Number en (CurrentBlock en bc) + 1 \<and>
    ParentHash (ws_header ws) = b_Hash en (CurrentBlock en bc) \<and> bc_State en bc = Inr (ws_state ws)"
  using assms by (auto simp: resetWorkState_def newBlockHeader_def Let_def split: sum.splits)

lemma startApp_backend:
  assumes "startApp e en ps w setHead ordG gf fl chainId b gv = Inr app"
  obtains ws where "resetWorkState en (be_chain b) (HexToAddress e InitReceiver) = Inr ws"
    and "a_backend app = whetherRollbackEthApp setHead (fl_RollbackFlag fl) (fl_RollbackHeight fl) (b\<lparr>be_work := ws\<rparr>)"
    and "bc_State en (be_chain b) = Inr (a_checkTxState app)"
proof -
  obtain app0 app1 has st st' where n: "newApp e en fl chainId b gv = Inr app0"
    and i: "InitPersistData e ps w
      (mapBackend (whetherRollbackEthApp setHead (fl_RollbackFlag fl) (fl_RollbackHeight fl)) app0) = Inr (app1, has)"
    and app: "app = app1\<lparr>a_strategy := st'\<rparr>"
    by (rule startApp_InrE [OF assms])
  obtain ws where "resetWorkState en (be_chain b) (HexToAddress e InitReceiver) = Inr ws"
    and "a_backend app0 = b\<lparr>be_work := ws\<rparr>" and "bc_State en (be_chain b) = Inr (a_checkTxState app0)"
    by (rule newApp_Inr [OF n])
  then show ?thesis using that InitPersistData_backend [OF i] by (simp add: app mapBackend_def)
qed

text \<open>C27. A rollback comes too late. With the rollback flag the chain is set back to the wanted height,
  but the working state and the check state were made before and are not made again: the application
  that starts still builds on the old head of the chain, with the old account state, and the block
  number it continues with does not depend on the wanted height.\<close>

theorem startApp_rollback_stale:
  assumes "startApp e en ps w setHead ordG gf fl chainId b gv = Inr app" and "fl_RollbackFlag fl"
  shows "be_chain (a_backend app) = setHead (word_of_int (fl_RollbackHeight fl)) (be_chain b) \<and>
    hd_Number (ws_header (be_work (a_backend app))) = b_Number en (CurrentBlock en (be_chain b)) + 1 \<and>
    ParentHash (ws_header (be_work (a_backend app))) = b_Hash en (CurrentBlock en (be_chain b)) \<and>
    bc_State en (be_chain b) = Inr (currentState app) \<and> a_checkTxState app = currentState app"
proof -
  obtain ws where ws: "resetWorkState en (be_chain b) (HexToAddress e InitReceiver) = Inr ws"
    and b: "a_backend app = whetherRollbackEthApp setHead (fl_RollbackFlag fl) (fl_RollbackHeight fl) (b\<lparr>be_work := ws\<rparr>)"
    and s: "bc_State en (be_chain b) = Inr (a_checkTxState app)"
    by (rule startApp_backend [OF assms(1)])
  show ?thesis
    using resetWorkState_header [OF ws] s assms(2) by (simp add: b currentState_def whetherRollbackEthApp_def)
qed

section \<open>The first start\<close>

definition fresh_start ::
  "'x env \<Rightarrow> ('c, 'b, 's, 'l, 'w) ethenv \<Rightarrow> ('s, 'x) persist \<Rightarrow> ('c, 'b, 's, 'l) Backend \<Rightarrow> bool" where
  "fresh_start e en ps b \<longleftrightarrow>
     (\<exists>s. bc_State en (be_chain b) = Inr s \<and>
        GetState ps s (SendToLock e) (BytesToHash ps heightKey) = 0)"

definition genesis_ok :: "genesisFiles \<Rightarrow> (address \<rightharpoonup> int) \<Rightarrow> EthAccounts \<Rightarrow> genesisValidator list \<Rightarrow> bool" where
  "genesis_ok gf alloc ea vs \<longleftrightarrow>
     gf_Alloc gf = Some alloc \<and> gf_EthAccounts gf = Some ea \<and> gf_GenDoc gf = Some vs \<and>
     finite (dom alloc) \<and> distinct (map gv_TmAddress vs) \<and>
     min (length vs) (length (ea_EthAccounts ea)) \<le> length (EthBeneficiarys ea)"

lemma initGenesis_ok:
  assumes "range_order ordG" and "genesis_ok gf alloc ea vs"
    and "k = min (length vs) (length (ea_EthAccounts ea))"
  obtains m where "initGenesis e ordG gf st = Inr (st\<lparr>
      s_CurrEpoch := (s_CurrEpoch st)\<lparr>TotalBalance := Some (\<Sum>a \<in> dom alloc. the (alloc a))\<rparr>,
      s_AccMapInitial := Some \<lparr>MapList = m, FilePath = []\<rparr>\<rparr>)"
    and "dom m = gv_TmAddress ` set (take k vs)"
    and "\<And>i. i < k \<Longrightarrow> m (gv_TmAddress (vs ! i)) = Some (genesisItem e ea vs i)"
proof -
  obtain m where "accountMapItems e ea vs 0 Map.empty = Inr m"
    and m: "dom m = gv_TmAddress ` set (take k vs)"
      "\<And>i. i < k \<Longrightarrow> m (gv_TmAddress (vs ! i)) = Some (genesisItem e ea vs i)"
    using accountMapItems_start [of vs k ea e] assms(2,3) by (auto simp: genesis_ok_def)
  with assms(1,2) have "initGenesis e ordG gf st = Inr (st\<lparr>
      s_CurrEpoch := (s_CurrEpoch st)\<lparr>TotalBalance := Some (\<Sum>a \<in> dom alloc. the (alloc a))\<rparr>,
      s_AccMapInitial := Some \<lparr>MapList = m, FilePath = []\<rparr>\<rparr>)"
    by (simp add: initGenesis_def genesis_ok_def SetInitialAccountMap_def sumAlloc_total Let_def)
  with m that show ?thesis by blast
qed

lemma fresh_newApp:
  assumes "fresh_start e en ps b"
  obtains app0 where "newApp e en fl chainId b gv = Inr app0"
    and "GetState ps (currentState (mapBackend (whetherRollbackEthApp setHead r h) app0)) (SendToLock e)
      (BytesToHash ps heightKey) = 0"
    and "a_strategy app0 = SetSigner chainId (NewStrategy\<lparr>s_BlsSelectStrategy := fl_BlsSelectStrategy fl\<rparr>)"
proof -
  from assms obtain s where s: "bc_State en (be_chain b) = Inr s"
    and f: "GetState ps s (SendToLock e) (BytesToHash ps heightKey) = 0" by (auto simp: fresh_start_def)
  then obtain app0 where n: "newApp e en fl chainId b gv = Inr app0"
    by (simp add: newApp_def NewEthermintApplication_def InitEthState_def resetWorkState_def Let_def)
  obtain ws where ws: "resetWorkState en (be_chain b) (HexToAddress e InitReceiver) = Inr ws"
    and b0: "a_backend app0 = b\<lparr>be_work := ws\<rparr>"
    and st: "a_strategy app0 = SetSigner chainId (NewStrategy\<lparr>s_BlsSelectStrategy := fl_BlsSelectStrategy fl\<rparr>)"
    by (rule newApp_Inr [OF n])
  have "ws_state ws = s" using resetWorkState_header [OF ws] s by simp
  with f b0 have "GetState ps (currentState (mapBackend (whetherRollbackEthApp setHead r h) app0)) (SendToLock e)
      (BytesToHash ps heightKey) = 0"
    by (simp add: currentState_def mapBackend_def whetherRollbackEthApp_def)
  with n st that show ?thesis by blast
qed

text \<open>The application after a first start.\<close>

definition freshStrategy ::
  "'x env \<Rightarrow> startFlags \<Rightarrow> int \<Rightarrow> int \<Rightarrow> (string \<rightharpoonup> AccountMapItem) \<Rightarrow> 'x Strategy" where
  "freshStrategy e fl chainId tb m =
     NewStrategy\<lparr>s_BlsSelectStrategy := fl_BlsSelectStrategy fl, s_signer := Some (EIP155Signer chainId),
       s_NextPosTable := Some (CreatePosTable e), s_AuthTable := Some (CreateAuthTable e),
       s_CurrEpoch := \<lparr>cev_PosTable = None, TotalBalance = Some tb, MinorBonus = None,
         SelectCount = fl_SelectCount fl, DKGMembersLimit = fl_DKGMembersLimit fl\<rparr>,
       s_AccMapInitial := Some \<lparr>MapList = m, FilePath = []\<rparr>\<rparr>"

lemma startApp_fresh:
  assumes "range_order ordG" and "fresh_start e en ps b" and "genesis_ok gf alloc ea vs"
    and "k = min (length vs) (length (ea_EthAccounts ea))"
    and "big_Int64 (\<Sum>a \<in> dom alloc. the (alloc a)) \<noteq> 0"
  shows "\<exists>app m. startApp e en ps w setHead ordG gf fl chainId b gv = Inr app \<and>
    a_strategy app = freshStrategy e fl chainId (\<Sum>a \<in> dom alloc. the (alloc a)) m \<and>
    a_vars app = gv\<lparr>Bigguy := HexToAddress e (BigguyStr w)\<rparr> \<and>
    dom m = gv_TmAddress ` set (take k vs) \<and>
    (\<forall>i < k. m (gv_TmAddress (vs ! i)) = Some (genesisItem e ea vs i))"
proof -
  obtain app0 where n: "newApp e en fl chainId b gv = Inr app0"
    and f: "GetState ps (currentState (mapBackend (whetherRollbackEthApp setHead (fl_RollbackFlag fl)
      (fl_RollbackHeight fl)) app0)) (SendToLock e) (BytesToHash ps heightKey) = 0"
    and st: "a_strategy app0 = SetSigner chainId (NewStrategy\<lparr>s_BlsSelectStrategy := fl_BlsSelectStrategy fl\<rparr>)"
    by (rule fresh_newApp [OF assms(2)])
  have gv: "a_vars app0 = gv" by (rule newApp_Inr [OF n])
  let ?st = "(a_strategy app0)\<lparr>s_NextPosTable := Some (CreatePosTable e), s_AuthTable := Some (CreateAuthTable e)\<rparr>"
  obtain m where g: "initGenesis e ordG gf ?st = Inr (?st\<lparr>
      s_CurrEpoch := (s_CurrEpoch ?st)\<lparr>TotalBalance := Some (\<Sum>a \<in> dom alloc. the (alloc a))\<rparr>,
      s_AccMapInitial := Some \<lparr>MapList = m, FilePath = []\<rparr>\<rparr>)"
    and m: "dom m = gv_TmAddress ` set (take k vs)"
      "\<And>i. i < k \<Longrightarrow> m (gv_TmAddress (vs ! i)) = Some (genesisItem e ea vs i)"
    using initGenesis_ok [OF assms(1,3,4), of e ?st] by blast
  have "\<exists>app. startApp e en ps w setHead ordG gf fl chainId b gv = Inr app \<and>
      a_strategy app = freshStrategy e fl chainId (\<Sum>a \<in> dom alloc. the (alloc a)) m \<and>
      a_vars app = gv\<lparr>Bigguy := HexToAddress e (BigguyStr w)\<rparr>"
    using g assms(5)
    by (simp add: startApp_def n InitPersistData_fresh [OF f] applyFlags_def freshStrategy_def st gv
        SetSigner_def NewStrategy_def)
  with m show ?thesis by blast
qed


section \<open>From the first start to the first block\<close>

text \<open>Tendermint calls \<open>InitChain\<close> with the validators of its genesis document.\<close>

definition announced :: "'x env \<Rightarrow> genesisValidator list \<Rightarrow> ValidatorUpdate list \<Rightarrow> bool" where
  "announced e vs us \<longleftrightarrow>
     list_all2 (\<lambda>v u. PubKeyAddress e (vu_PubKey u) = Some (gv_TmAddress v) \<and> Power u \<noteq> 0) vs us"

lemma announced_known:
  assumes "announced e vs us" and "u \<in> set us"
  obtains v where "v \<in> set vs" and "PubKeyAddress e (vu_PubKey u) = Some (gv_TmAddress v)" and "Power u \<noteq> 0"
proof -
  obtain i where i: "i < length us" "u = us ! i" using assms(2) by (auto simp: in_set_conv_nth)
  with assms(1) have "i < length vs" "PubKeyAddress e (vu_PubKey u) = Some (gv_TmAddress (vs ! i)) \<and> Power u \<noteq> 0"
    by (auto simp: announced_def list_all2_conv_all_nth)
  then show ?thesis using that [of "vs ! i"] by simp
qed

lemma announced_all_known:
  assumes "announced e vs us" and "dom m = gv_TmAddress ` set vs"
  shows "all_known e \<lparr>MapList = m, FilePath = []\<rparr> us"
  using assms(2) by (fastforce simp: all_known_def elim!: announced_known [OF assms(1)])

text \<open>When the initial accounts cover the genesis validators and the table accepts them, whatever
  \<open>InitChain\<close> leaves after the first start is the beginning of a synchronised history.\<close>

lemma started_chain:
  assumes "range_order ordG" and "fresh_start e en ps b" and "genesis_ok gf alloc ea vs"
    and "big_Int64 (\<Sum>a \<in> dom alloc. the (alloc a)) \<noteq> 0"
    and "length vs \<le> length (ea_EthAccounts ea)" and "announced e vs us"
    and "startApp e en ps w setHead ordG gf fl chainId b gv = Inr app"
    and "Info w en app = Inr (app1, resp)" and "genesis_accepted e db us app1"
    and "InitChain e db ps us app1 = Inr app'"
  shows "app_chain e w cH uC ordV ordA (genesisSet e us) app'"
proof -
  have k: "length vs = min (length vs) (length (ea_EthAccounts ea))" using assms(5) by simp
  obtain m where am: "s_AccMapInitial (a_strategy app) = Some \<lparr>MapList = m, FilePath = []\<rparr>"
    and d: "dom m = gv_TmAddress ` set vs" and v: "Validators (s_CurrentHeight (a_strategy app)) = Map.empty"
    using startApp_fresh [OF assms(1-3) k assms(4), of w setHead fl chainId gv] assms(7)
    by (auto simp: freshStrategy_def NewStrategy_def)
  have i: "s_AccMapInitial (a_strategy app1) = s_AccMapInitial (a_strategy app)"
    "s_CurrentHeight (a_strategy app1) = s_CurrentHeight (a_strategy app)"
    using assms(8) by (auto simp: Info_def Let_def mapStrategy_def)
  show ?thesis
    by (rule InitChain_synced [OF assms(10) v [folded i] am [folded i] assms(9) announced_all_known [OF assms(6) d]])
      (auto elim!: announced_known [OF assms(6)])
qed

section \<open>Witnesses\<close>

abbreviation sampleChain :: "(Header list, Header, store, unit, unit) ethenv" where
  "sampleChain \<equiv> sampleStoreEth"

definition sampleFlags :: "bool \<Rightarrow> startFlags" where
  "sampleFlags r =
     \<lparr>fl_BlsSelectStrategy = False, fl_RollbackFlag = r, fl_RollbackHeight = 3, fl_SelectCount = 2,
      fl_DKGMembersLimit = 10\<rparr>"

definition sampleAlloc :: "address \<rightharpoonup> int" where
  "sampleAlloc = [1 \<mapsto> 600, 2 \<mapsto> 400]"

definition sampleAccounts :: EthAccounts where
  "sampleAccounts = \<lparr>ea_EthAccounts = [''1'', ''22''], EthBalances = [Some 600, Some 400], EthBeneficiarys = [''333'', ''4444'']\<rparr>"

definition sampleGenDoc :: "genesisValidator list" where
  "sampleGenDoc = [\<lparr>gv_TmAddress = ''A1'', gv_BlsKeyJson = ''k1''\<rparr>, \<lparr>gv_TmAddress = ''A2'', gv_BlsKeyJson = ''k2''\<rparr>]"

definition sampleFiles :: genesisFiles where
  "sampleFiles = \<lparr>gf_Alloc = Some sampleAlloc, gf_EthAccounts = Some sampleAccounts, gf_GenDoc = Some sampleGenDoc\<rparr>"

definition sampleBlank :: "(Header list, Header, store, unit) Backend" where
  "sampleBlank = \<lparr>be_chain = [sampleHeader], be_work = sampleStoreWork, currentTxInfo = zeroTxInfo,
     cachedTxInfo = Map.empty\<rparr>"

lemma sample_fresh: "fresh_start sampleEnv (sampleStoreEth :: (Header list, Header, store, unit, 'w) ethenv) samplePersist sampleBlank"
  by (simp add: fresh_start_def sampleStoreEth_def samplePersist_def sampleStore_def)

lemma sample_genesis_ok: "genesis_ok sampleFiles sampleAlloc sampleAccounts sampleGenDoc"
  by (simp add: genesis_ok_def sampleFiles_def sampleAlloc_def sampleAccounts_def sampleGenDoc_def)

lemma sample_total: "(\<Sum>a \<in> dom sampleAlloc. the (sampleAlloc a)) = 1000"
  by (simp add: sampleAlloc_def)

lemma sample_total_ok: "big_Int64 (\<Sum>a \<in> dom sampleAlloc. the (sampleAlloc a)) \<noteq> 0"
  unfolding sample_total by (simp add: big_Int64_def i64_def)

lemma sample_two: "2 = min (length sampleGenDoc) (length (ea_EthAccounts sampleAccounts))"
  by (simp add: sampleGenDoc_def sampleAccounts_def)


lemma sample_started:
  obtains app where "startApp sampleEnv sampleChain samplePersist sampleVersion (\<lambda>h c. c) sortedKeys sampleFiles
      (sampleFlags r) 15 sampleBlank gv = Inr app"
  using startApp_fresh [OF range_order_sortedKeys sample_fresh sample_genesis_ok refl sample_total_ok,
      of sampleVersion "\<lambda>h c. c" "sampleFlags r" 15 gv] by blast

theorem startApp_rollback_stale_witness:
  "\<exists>app. startApp sampleEnv sampleChain samplePersist sampleVersion (\<lambda>h c. c) sortedKeys sampleFiles
      (sampleFlags True) 15 sampleBlank sampleVars = Inr app \<and>
    hd_Number (ws_header (be_work (a_backend app))) = hd_Number sampleHeader + 1"
proof -
  obtain app where r: "startApp sampleEnv sampleChain samplePersist sampleVersion (\<lambda>h c. c) sortedKeys sampleFiles
      (sampleFlags True) 15 sampleBlank sampleVars = Inr app" by (rule sample_started)
  have "fl_RollbackFlag (sampleFlags True)" by (simp add: sampleFlags_def)
  from startApp_rollback_stale [OF r this] r show ?thesis by (auto simp: sampleStoreEth_def sampleBlank_def)
qed

lemma sample_announced: "announced sampleEnv sampleGenDoc sampleGenesis"
  by (simp add: announced_def sampleGenDoc_def sampleGenesis_def sampleKey_def sampleEnv_def)

end
