(* ===== verification/NodeRuns.thy ===== *)
theory NodeRuns
  imports Startup
begin

text \<open>
  Runs of the whole node. \<open>runBlock\<close> is what Tendermint calls for one block (\<open>BeginBlock\<close>, a
  \<open>DeliverTx\<close> per transaction, \<open>EndBlock\<close>, \<open>Commit\<close>); a run interleaves blocks with checks of
  transactions. The abstract machine is Tendermint's own record of the application: the height, the
  hash it was answered last, and the validator set. The simulation \<open>refines\<close> relates the two.
\<close>

section \<open>The environment of a node\<close>

record ('c, 'b, 's, 'l, 'x) nodeenv =
  ne_env :: "'x env"
  ne_db :: "'s statedb"
  ne_ps :: "('s, 'x) persist"
  ne_en :: "('c, 'b, 's, 'l, 'x world) ethenv"
  ne_te :: "'x txenv"
  ne_w :: versionVars
  ne_canonicalHash :: "'c \<Rightarrow> hash"
  ne_upgradeConfig :: "hash \<Rightarrow> 'c \<Rightarrow> 'c"
  ne_ordV :: "(string \<rightharpoonup> Validator) \<Rightarrow> string list"
  ne_ordA :: "(string \<rightharpoonup> bool) \<Rightarrow> string list"

text \<open>What is relied on: the contract of the chain, that a change of the chain's configuration leaves
  its head alone, and that the runtime enumerates maps completely.\<close>

definition node_laws :: "('c, 'b, 's, 'l, 'x) nodeenv \<Rightarrow> bool" where
  "node_laws N \<longleftrightarrow>
     blockchain_laws (ne_en N) \<and> range_order (ne_ordV N) \<and>
     (\<forall>h c. CurrentBlock (ne_en N) (ne_upgradeConfig N h c) = CurrentBlock (ne_en N) c)"

section \<open>One block\<close>

record block =
  bk_Begin :: RequestBeginBlock
  bk_Txs :: "bytes list"
  bk_Seed :: "bytes option"

fun deliverAll ::
  "('c, 'b, 's, 'l, 'x) nodeenv \<Rightarrow> bytes list \<Rightarrow> ('c, 'b, 's, 'l, 'x) EthermintApplication \<Rightarrow>
     panic + ('c, 'b, 's, 'l, 'x) EthermintApplication" where
  "deliverAll N [] app = Inr app"
| "deliverAll N (tx # txs) app =
     panic_bind (app_DeliverTx (ne_en N) (ne_te N) tx app) (\<lambda>(app', r). deliverAll N txs app')"

definition beginAndDeliver ::
  "('c, 'b, 's, 'l, 'x) nodeenv \<Rightarrow> block \<Rightarrow> ('c, 'b, 's, 'l, 'x) EthermintApplication \<Rightarrow>
     panic + ('c, 'b, 's, 'l, 'x) EthermintApplication" where
  "beginAndDeliver N blk app =
     panic_bind (BeginBlock (ne_env N) (ne_db N) (ne_en N) (ne_w N) (bk_Begin blk) app) (deliverAll N (bk_Txs blk))"

definition endOf ::
  "('c, 'b, 's, 'l, 'x) nodeenv \<Rightarrow> block \<Rightarrow> ('c, 'b, 's, 'l, 'x) EthermintApplication \<Rightarrow>
     (panic + ('c, 'b, 's, 'l, 'x) EthermintApplication \<times> ResponseEndBlock) option" where
  "endOf N blk =
     EndBlock (ne_env N) (ne_w N) (ne_canonicalHash N) (ne_upgradeConfig N) (ne_ordV N) (ne_ordA N)
       (bb_Height (bk_Begin blk)) (bk_Seed blk)"

definition runBlock ::
  "('c, 'b, 's, 'l, 'x) nodeenv \<Rightarrow> block \<Rightarrow> ('c, 'b, 's, 'l, 'x) EthermintApplication \<Rightarrow>
     (panic + ('c, 'b, 's, 'l, 'x) EthermintApplication \<times> ValidatorUpdate list \<times> hash option) option" where
  "runBlock N blk app =
     (case beginAndDeliver N blk app of
        Inl p \<Rightarrow> Some (Inl p)
      | Inr app1 \<Rightarrow>
          map_option (\<lambda>r. panic_bind r (\<lambda>(app2, resp).
              panic_bind (app_Commit (ne_env N) (ne_db N) (ne_ps N) (ne_en N) app2)
                (\<lambda>(app3, h). Inr (app3, ValidatorUpdates resp, h))))
            (endOf N blk app1))"

text \<open>An admissible block: it gets to its end, where the tables are well-formed and the draws suffice.\<close>

definition block_ok ::
  "('c, 'b, 's, 'l, 'x) nodeenv \<Rightarrow> block \<Rightarrow> ('c, 'b, 's, 'l, 'x) EthermintApplication \<Rightarrow> bool" where
  "block_ok N blk app \<longleftrightarrow>
     (case beginAndDeliver N blk app of
        Inl p \<Rightarrow> False
      | Inr app1 \<Rightarrow> endblock_ok (ne_env N) (ne_w N) (bb_Height (bk_Begin blk)) (bk_Seed blk) app1)"

section \<open>What each handler leaves alone\<close>

definition chainView ::
  "('c, 'b, 's, 'l, 'x) EthermintApplication \<Rightarrow> int \<times> hash \<times> 'c \<times> (string \<rightharpoonup> Validator)" where
  "chainView app =
     (hd_Number (ws_header (be_work (a_backend app))), ParentHash (ws_header (be_work (a_backend app))),
      be_chain (a_backend app), recorded app)"

lemma validateTx_frame:
  assumes "validateTx te db tx ct app = Inr (app', r)"
  shows "chainView app' = chainView app"
  using validateTx_validated [OF assms]
  by (auto elim!: validatedE simp: chainView_def recorded_def InsertCachedTxInfo_def DeleteCachedTxInfo_def)

lemma CheckTx_frame:
  assumes "CheckTx te db txBytes ct app = Inr (app', r)"
  shows "chainView app' = chainView app"
  using assms by (auto simp: CheckTx_def split: if_splits sum.splits dest: validateTx_frame)

lemma punishOne_recorded:
  assumes "punishOne e db p h ev (s, st) = Inr (s', st')"
  shows "s_CurrentHeight st' = s_CurrentHeight st"
  using assms by (auto simp: punishOne_def Let_def split: option.splits if_splits prod.splits)

lemma punishAll_recorded:
  assumes "punishAll e db p h evs (s, st) = Inr (s', st')"
  shows "s_CurrentHeight st' = s_CurrentHeight st"
  using assms by (induction evs arbitrary: s st) (auto dest!: punishOne_recorded)

lemma BeginBlock_frame:
  assumes "BeginBlock e db en w req app = Inr app'"
  shows "chainView app' = chainView app"
  using assms
  by (auto simp: BeginBlock_def Let_def chainView_def recorded_def setCurrentState_def DoPunish_def
      be_UpdateHeaderWithTimeInfo_def updateHeaderWithTimeInfo_def updateHeaderCoinbase_def
      dest!: punishAll_recorded)

lemma be_DeliverTx_frame:
  assumes "be_DeliverTx en tx i (b, w) = ((b', w'), r)"
  shows "be_chain b' = be_chain b \<and> ws_header (be_work b') = ws_header (be_work b)"
  using assms by (auto simp: be_DeliverTx_def deliverTx_def Let_def split: prod.splits sum.splits)

lemma setWorld_recorded [simp]: "recorded (setWorld w app) = recorded app"
  by (simp add: setWorld_def recorded_def Let_def split: prod.splits)

lemma recorded_backend [simp]: "recorded (app\<lparr>a_backend := b\<rparr>) = recorded app"
  by (simp add: recorded_def)

lemma app_DeliverTx_frame:
  assumes "app_DeliverTx en te txBytes app = Inr (app', r)"
  shows "chainView app' = chainView app"
  using assms unfolding app_DeliverTx_def
  by (auto simp: Let_def chainView_def DeleteCachedTxInfo_def split: sum.splits prod.splits if_splits dest!: be_DeliverTx_frame)

lemma deliverAll_frame:
  assumes "deliverAll N txs app = Inr app'"
  shows "chainView app' = chainView app"
  using assms by (induction txs arbitrary: app) (auto dest: app_DeliverTx_frame)

lemma beginAndDeliver_frame:
  assumes "beginAndDeliver N blk app = Inr app'"
  shows "chainView app' = chainView app"
  using assms by (auto simp: beginAndDeliver_def dest!: BeginBlock_frame deliverAll_frame)

lemma EndBlock_frame:
  assumes "EndBlock e w cH uC ordV ordA height seed app = Some (Inr (app', resp))"
  shows "be_work (a_backend app') = be_work (a_backend app) \<and>
    be_chain (a_backend app') \<in>
      {be_chain (a_backend app), uC (cH (be_chain (a_backend app))) (be_chain (a_backend app))}"
  using assms
  by (auto simp: EndBlock_def epochChange_def Let_def mapBackend_def split: sum.splits if_splits)

section \<open>Tendermint's view\<close>

record tendermint =
  tm_Height :: int
  tm_AppHash :: hash
  tm_Validators :: "string \<rightharpoonup> int"

definition tmBlock :: "'x env \<Rightarrow> ValidatorUpdate list \<times> hash \<Rightarrow> tendermint \<Rightarrow> tendermint" where
  "tmBlock e ev t =
     \<lparr>tm_Height = tm_Height t + 1, tm_AppHash = snd ev, tm_Validators = tmApply e (fst ev) (tm_Validators t)\<rparr>"

definition refines ::
  "('c, 'b, 's, 'l, 'x) nodeenv \<Rightarrow> ('c, 'b, 's, 'l, 'x) EthermintApplication \<Rightarrow> tendermint \<Rightarrow> bool" where
  "refines N app t \<longleftrightarrow>
     hd_Number (ws_header (be_work (a_backend app))) = tm_Height t + 1 \<and>
     ParentHash (ws_header (be_work (a_backend app))) = tm_AppHash t \<and>
     b_Number (ne_en N) (CurrentBlock (ne_en N) (be_chain (a_backend app))) = tm_Height t \<and>
     b_Hash (ne_en N) (CurrentBlock (ne_en N) (be_chain (a_backend app))) = tm_AppHash t \<and>
     keyed (ne_env N) (recorded app) \<and> dom (tm_Validators t) = dom (recorded app)"

lemma refines_frame:
  assumes "chainView app' = chainView app"
  shows "refines N app' t \<longleftrightarrow> refines N app t"
  using assms by (simp add: chainView_def refines_def)

text \<open>The simulation of one block.\<close>

lemma runBlock_refines:
  assumes "node_laws N" and "refines N app t" and "block_ok N blk app"
    and "runBlock N blk app = Some (Inr (app', us, Some h))"
  shows "refines N app' (tmBlock (ne_env N) (us, h) t)"
proof -
  obtain app1 app2 resp where b: "beginAndDeliver N blk app = Inr app1"
    and e: "endOf N blk app1 = Some (Inr (app2, resp))"
    and c: "app_Commit (ne_env N) (ne_db N) (ne_ps N) (ne_en N) app2 = Inr (app', Some h)"
    and us: "us = ValidatorUpdates resp"
    using assms(4) by (auto simp: runBlock_def split: sum.splits)
  have r1: "refines N app1 t" using assms(2) refines_frame [OF beginAndDeliver_frame [OF b]] by blast
  have ok: "endblock_ok (ne_env N) (ne_w N) (bb_Height (bk_Begin blk)) (bk_Seed blk) app1"
    using assms(3) b by (simp add: block_ok_def)
  from assms(1) have laws: "blockchain_laws (ne_en N)" and o: "range_order (ne_ordV N)"
    and uc: "\<And>h c. CurrentBlock (ne_en N) (ne_upgradeConfig N h c) = CurrentBlock (ne_en N) c"
    by (auto simp: node_laws_def)
  have k: "keyed (ne_env N) (recorded app1)" and d: "dom (tm_Validators t) = dom (recorded app1)"
    using r1 by (auto simp: refines_def)
  have "answers (ne_env N) (recorded app1) recorded (endOf N blk app1)"
    unfolding endOf_def by (rule endblock_step [OF k o ok])
  with e have k2: "keyed (ne_env N) (recorded app2)"
    and rep: "reports (ne_env N) (recorded app1) (recorded app2) us" by (auto simp: answers_def us)
  note facts = Commit_facts [OF laws c]
  then have "recorded app' = recorded app2" by (simp add: recorded_def)
  moreover have "be_work (a_backend app2) = be_work (a_backend app1)"
    "CurrentBlock (ne_en N) (be_chain (a_backend app2)) = CurrentBlock (ne_en N) (be_chain (a_backend app1))"
    using EndBlock_frame [OF e [unfolded endOf_def]] uc by auto
  ultimately show ?thesis
    using facts r1 k2 reports_apply [OF rep d] by (simp add: refines_def tmBlock_def)
qed

section \<open>Runs\<close>

text \<open>The forwarding loop stores the sender of the next local transaction in the backend.\<close>

abbreviation storeEvent ::
  "TxPreEvent \<Rightarrow> ('c, 'b, 's, 'l, 'x) EthermintApplication \<Rightarrow> ('c, 'b, 's, 'l, 'x) EthermintApplication" where
  "storeEvent obj \<equiv> mapBackend (setCurrentTxInfo (eventInfo obj))"

lemma storeEvent_frame: "chainView (storeEvent obj app) = chainView app"
  by (simp add: chainView_def mapBackend_def setCurrentTxInfo_def)

text \<open>A run and the answers Tendermint got: checks of transactions and rounds of the forwarding loop at any
  time, and admissible blocks (\<open>block_ok\<close>) whose commit succeeded.\<close>

inductive node_run ::
  "('c, 'b, 's, 'l, 'x) nodeenv \<Rightarrow> ('c, 'b, 's, 'l, 'x) EthermintApplication \<Rightarrow>
     (ValidatorUpdate list \<times> hash) list \<Rightarrow> ('c, 'b, 's, 'l, 'x) EthermintApplication \<Rightarrow> bool"
  for N app0 where
  run_start: "node_run N app0 [] app0"
| run_check: "node_run N app0 tr app \<Longrightarrow> CheckTx (ne_te N) (ne_db N) txBytes ct app = Inr (app', r) \<Longrightarrow>
    node_run N app0 tr app'"
| run_take: "node_run N app0 tr app \<Longrightarrow> node_run N app0 tr (storeEvent obj app)"
| run_block: "node_run N app0 tr app \<Longrightarrow> block_ok N blk app \<Longrightarrow>
    runBlock N blk app = Some (Inr (app', us, Some h)) \<Longrightarrow> node_run N app0 (tr @ [(us, h)]) app'"

lemma node_run_refines:
  assumes "node_run N app0 tr app" and "node_laws N" and "refines N app0 t"
  shows "refines N app (fold (tmBlock (ne_env N)) tr t)"
  using assms
proof (induction rule: node_run.induct)
  case (run_check tr app txBytes ct app' r)
  then show ?case using refines_frame [OF CheckTx_frame [OF run_check.hyps(2)]] by blast
next
  case (run_take tr app obj)
  then show ?case using refines_frame [OF storeEvent_frame] by blast
next
  case (run_block tr app blk app' us h)
  then show ?case using runBlock_refines by fastforce
qed auto

lemma fold_tmBlock_height: "tm_Height (fold (tmBlock e) tr t) = tm_Height t + int (length tr)"
  by (induction tr arbitrary: t) (auto simp: tmBlock_def)

text \<open>C3. The node refines Tendermint's record of it. Take any interleaving of transaction checks, rounds
  of the forwarding loop and admissible blocks from a state that agrees with Tendermint's record. A block is
  admissible (\<open>block_ok\<close>) when begin and deliveries do not panic and, at the end of an epoch, no
  table is nil, the next one is well formed (each member has its own Tendermint address and positive slots,
  signer lists repeat nobody) and four fork heights are configured, or, within an epoch, the tables in force are
  not nil and the draws reach as many validators as have to be selected. After such a run the number and hash of
  the chain's head and the header being built are those Tendermint has on record after the answers it got; the
  recorded validators have exactly the addresses of Tendermint's set (powers may differ, as the code is
  written); and the handshake (\<open>Info\<close>) reports exactly that height and hash. Assumed: go-ethereum's
  chain behaves as documented (\<open>node_laws\<close>).\<close>

theorem node_refines_tendermint:
  assumes "node_laws N" and "refines N app0 t" and "node_run N app0 tr app"
    and "t' = fold (tmBlock (ne_env N)) tr t"
  shows "refines N app t' \<and> tm_Height t' = tm_Height t + int (length tr) \<and>
    (\<forall>app' resp. Info (ne_w N) (ne_en N) app = Inr (app', resp) \<longrightarrow>
       LastBlockHeight resp = big_Int64 (tm_Height t') \<and>
       LastBlockAppHash resp = (if tm_Height t' = 0 then None else Some (tm_AppHash t')) \<and>
       refines N app' t')"
proof -
  have r: "refines N app t'" using node_run_refines [OF assms(3,1,2)] assms(4) by simp
  moreover have "LastBlockHeight resp = big_Int64 (tm_Height t') \<and>
       LastBlockAppHash resp = (if tm_Height t' = 0 then None else Some (tm_AppHash t')) \<and> refines N app' t'"
    if "Info (ne_w N) (ne_en N) app = Inr (app', resp)" for app' resp
    using that r by (auto simp: Info_def Let_def refines_def mapStrategy_def recorded_def)
  ultimately show ?thesis by (simp add: fold_tmBlock_height assms(4))
qed

text \<open>A first start followed by \<open>InitChain\<close> is such a state.\<close>

lemma InitChain_refines:
  assumes "app_chain e w cH uC ordV ordA (genesisSet e us) app'"
    and "InitChain e db ps us app = Inr app'" and "ne_env N = e"
    and "resetWorkState (ne_en N) (be_chain (a_backend app)) coinbase = Inr (be_work (a_backend app))"
  shows "refines N app' \<lparr>tm_Height = b_Number (ne_en N) (CurrentBlock (ne_en N) (be_chain (a_backend app))),
    tm_AppHash = b_Hash (ne_en N) (CurrentBlock (ne_en N) (be_chain (a_backend app))),
    tm_Validators = genesisSet e us\<rparr>"
proof -
  have "a_backend app' = (a_backend app)\<lparr>be_work := (be_work (a_backend app))\<lparr>ws_state := currentState app'\<rparr>\<rparr>"
    using assms(2)
    by (auto simp: InitChain_def Let_def split: if_splits dest!: SetPersistenceData_Inr)
      (simp add: setCurrentState_def currentState_def)
  moreover have "keyed e (recorded app') \<and> dom (genesisSet e us) = dom (recorded app')"
    using endblock.chain_synced assms(1) unfolding app_chain_def by blast
  ultimately show ?thesis
    using resetWorkState_header [OF assms(4)] assms(3) by (simp add: refines_def)
qed

lemma genesis_refines:
  assumes "range_order ordG" and "fresh_start (ne_env N) (ne_en N) (ne_ps N) b"
    and "genesis_ok gf alloc ea vs" and "big_Int64 (\<Sum>a \<in> dom alloc. the (alloc a)) \<noteq> 0"
    and "length vs \<le> length (ea_EthAccounts ea)" and "announced (ne_env N) vs us" and "\<not> fl_RollbackFlag fl"
    and "startApp (ne_env N) (ne_en N) (ne_ps N) (ne_w N) setHead ordG gf fl chainId b gv = Inr app0"
    and "Info (ne_w N) (ne_en N) app0 = Inr (app1, resp)" and "genesis_accepted (ne_env N) (ne_db N) us app1"
    and "InitChain (ne_env N) (ne_db N) (ne_ps N) us app1 = Inr app2"
  shows "refines N app2
    \<lparr>tm_Height = b_Number (ne_en N) (CurrentBlock (ne_en N) (be_chain b)),
     tm_AppHash = b_Hash (ne_en N) (CurrentBlock (ne_en N) (be_chain b)),
     tm_Validators = genesisSet (ne_env N) us\<rparr>"
proof -
  have c: "app_chain (ne_env N) (ne_w N) (ne_canonicalHash N) (ne_upgradeConfig N) (ne_ordV N) (ne_ordA N)
      (genesisSet (ne_env N) us) app2"
    by (rule started_chain [OF assms(1-6,8-11)])
  obtain ws where "resetWorkState (ne_en N) (be_chain b) (HexToAddress (ne_env N) InitReceiver) = Inr ws"
    and "a_backend app0 = b\<lparr>be_work := ws\<rparr>"
    using startApp_backend [OF assms(8)] assms(7) by (auto simp: whetherRollbackEthApp_def)
  moreover have "a_backend app1 = a_backend app0" using assms(9) by (auto simp: Info_def Let_def mapStrategy_def)
  ultimately show ?thesis
    using InitChain_refines [OF c assms(11) refl, of "HexToAddress (ne_env N) InitReceiver"] by simp
qed

section \<open>Witness\<close>

definition sampleNodeEnv :: "(Header list, Header, store, unit, unit) nodeenv" where
  "sampleNodeEnv =
     \<lparr>ne_env = sampleEnv, ne_db = sampleStoreDb, ne_ps = samplePersist,
      ne_en = sampleStoreEth, ne_te = sampleTxEnv, ne_w = sampleVersion, ne_canonicalHash = (\<lambda>c. 0),
      ne_upgradeConfig = (\<lambda>h c. c), ne_ordV = sortedKeys, ne_ordA = sortedKeys\<rparr>"

definition sampleBlock :: block where
  "sampleBlock =
     \<lparr>bk_Begin = \<lparr>bb_Height = 600, bb_AppVersion = 5, bb_Time = 7, bb_ProposerAddress = [], bb_Votes = [],
        bb_ByzantineValidators = []\<rparr>, bk_Txs = [], bk_Seed = None\<rparr>"

lemma sample_node_laws: "node_laws sampleNodeEnv"
  by (simp add: node_laws_def sampleNodeEnv_def range_order_sortedKeys blockchain_laws_def sampleStoreEth_def)

lemma sample_version_600: "versionAt sampleVersion st 600 v = Inr (if IsHarfForkPassed (s_HF st) then 4 else v)"
  by (simp add: versionAt_def sampleVersion_def)

lemma sample_begin:
  obtains app1 where "beginAndDeliver sampleNodeEnv sampleBlock sampleNode = Inr app1"
    and "s_NextPosTable (a_strategy app1) = Some samplePosTable" and "s_AuthTable (a_strategy app1) = Some sampleAuthTable"
    and "EthAuthTable (a_vars app1) = Some sampleAuthTable" and "BlockVersion (s_HF (a_strategy app1)) = 4"
    and "chv_Height (s_CurrentHeight (a_strategy app1)) = 600" and "recorded app1 = Map.empty"
proof -
  have "s_NextPosTable (a_strategy sampleNode) = Some samplePosTable"
    "samplePosTable\<lparr>ChangedFlagThisBlock := False\<rparr> = samplePosTable"
    "s_AuthTable (a_strategy sampleNode) = Some sampleAuthTable" "IsHarfForkPassed (s_HF (a_strategy sampleNode))"
    "EthAuthTable (a_vars sampleNode) = Some sampleAuthTable"
    "Validators (s_CurrentHeight (a_strategy sampleNode)) = Map.empty"
    by (simp_all add: sample_node_defs sampleStrategy_def NewStrategy_def samplePosTable_def)
  then have "\<exists>app1. beginAndDeliver sampleNodeEnv sampleBlock sampleNode = Inr app1 \<and>
      s_NextPosTable (a_strategy app1) = Some samplePosTable \<and> s_AuthTable (a_strategy app1) = Some sampleAuthTable \<and>
      EthAuthTable (a_vars app1) = Some sampleAuthTable \<and> BlockVersion (s_HF (a_strategy app1)) = 4 \<and>
      chv_Height (s_CurrentHeight (a_strategy app1)) = 600 \<and> recorded app1 = Map.empty"
    by (simp add: beginAndDeliver_def BeginBlock_def Let_def sampleNodeEnv_def sampleBlock_def
        sample_version_600 Receiver_def DoPunish_def recorded_def setCurrentState_def)
  then show ?thesis using that by blast
qed

lemma sample_runBlock:
  obtains app' us h where "block_ok sampleNodeEnv sampleBlock sampleNode"
    and "runBlock sampleNodeEnv sampleBlock sampleNode = Some (Inr (app', us, Some h))"
proof -
  obtain app1 where b: "beginAndDeliver sampleNodeEnv sampleBlock sampleNode = Inr app1"
    and f: "s_NextPosTable (a_strategy app1) = Some samplePosTable" "s_AuthTable (a_strategy app1) = Some sampleAuthTable"
      "EthAuthTable (a_vars app1) = Some sampleAuthTable" "BlockVersion (s_HF (a_strategy app1)) = 4"
      "chv_Height (s_CurrentHeight (a_strategy app1)) = 600" "recorded app1 = Map.empty"
    by (rule sample_begin)
  have ok: "endblock_ok sampleEnv sampleVersion 600 None app1"
    using sample_postable_ok f by (simp add: endblock_ok_def sampleVersion_def) (simp add: sampleEnv_def)
  have "keyed sampleEnv (recorded app1)" by (simp add: f keyed_def)
  from endblock_step [OF this range_order_sortedKeys ok, of "\<lambda>c. 0" "\<lambda>h c. c" sortedKeys]
  obtain app2 resp where e: "endOf sampleNodeEnv sampleBlock app1 = Some (Inr (app2, resp))"
    by (auto simp: answers_def endOf_def sampleNodeEnv_def sampleBlock_def)
  have "s_NextPosTable (a_strategy app2) = Some samplePosTable \<and> BlockVersion (s_HF (a_strategy app2)) = 4 \<and>
      s_AuthTable (a_strategy app2) \<noteq> None \<and> chv_Height (s_CurrentHeight (a_strategy app2)) = 600"
    using e f
    by (auto simp: endOf_def sampleNodeEnv_def sampleBlock_def EndBlock_def epochChange_def atEpochEnd_def
        GetUpdatedValidators_def blsValidators_def getAuthTmItems_def Let_def mapBackend_def sample_defs
        split: sum.splits if_splits)
  then obtain app3 h where "app_Commit sampleEnv sampleStoreDb samplePersist
      (sampleStoreEth :: (Header list, Header, store, unit, unit world) ethenv) app2 = Inr (app3, Some h)"
    by (auto simp: app_Commit_def be_AccumulateRewards_def AccumulateRewards_def SetPersistenceData_def
        persistNext_def persistAuth_def atEpochEnd_def be_Commit_def es_Commit_def commit_def
        resetWorkState_def Let_def sampleStoreEth_def sampleEnv_def split_def)
  with b e ok that show ?thesis
    by (simp add: runBlock_def block_ok_def sampleNodeEnv_def sampleBlock_def)
qed

theorem node_refines_tendermint_witness:
  "\<exists>app us h. runBlock sampleNodeEnv sampleBlock sampleNode = Some (Inr (app, us, Some h)) \<and>
    refines sampleNodeEnv app (tmBlock sampleEnv (us, h)
      \<lparr>tm_Height = 0, tm_AppHash = 0, tm_Validators = Map.empty\<rparr>)"
proof -
  obtain app us h where ok: "block_ok sampleNodeEnv sampleBlock sampleNode"
    and r: "runBlock sampleNodeEnv sampleBlock sampleNode = Some (Inr (app, us, Some h))"
    by (rule sample_runBlock)
  have i: "refines sampleNodeEnv sampleNode \<lparr>tm_Height = 0, tm_AppHash = 0, tm_Validators = Map.empty\<rparr>"
    by (simp add: refines_def sample_recorded keyed_def)
      (simp add: sampleNode_def sampleStoreWork_def sampleHeader_def sampleNodeEnv_def sampleStoreEth_def)
  have "node_run sampleNodeEnv sampleNode ([] @ [(us, h)]) app"
    by (rule node_run.run_block [OF node_run.run_start ok r])
  from node_refines_tendermint [OF sample_node_laws i this refl] r show ?thesis
    by (auto simp: sampleNodeEnv_def)
qed

end
