(* ===== verification/NodeSound.thy ===== *)
theory NodeSound
  imports NodeRuns
begin

text \<open>
  Type soundness of the node: a well-formedness invariant \<open>node_ok\<close> of the whole application state,
  under which no handler dereferences nil, indexes out of range, divides by zero or panics on purpose
  (progress), and which every handler re-establishes (preservation). What is relied on about the
  tables of package txfilter is stated for an invariant \<open>T\<close> of that package (\<open>table_laws\<close>), and the
  database does not fail (\<open>healthy_chain\<close>). A block must fit the state (\<open>block_fits\<close>): before block
  version 4 its voters are known to the table in force, and a new epoch has as many members as the
  command line wants selected. Both are needed: the code panics without the first and loops forever
  without the second.
\<close>

section \<open>What is relied on\<close>

text \<open>The draws from a table hit every member sooner or later.\<close>

definition drawable :: "'x env \<Rightarrow> 'x PosTable \<Rightarrow> bool" where
  "drawable e pt \<longleftrightarrow>
     (\<forall>seed height want. want \<le> card (dom (PosItemMap pt)) \<longrightarrow>
        (\<exists>n. enoughDraws e pt seed height n want) \<and> enoughDraws e pt seed height want 0)"

definition table_laws :: "'x env \<Rightarrow> ('x PosTable \<Rightarrow> bool) \<Rightarrow> bool" where
  "table_laws e T \<longleftrightarrow>
     (\<forall>pt b. T pt \<longrightarrow> T (pt\<lparr>ChangedFlagThisBlock := b\<rparr>)) \<and>
     (\<forall>pt a s. T pt \<and> TmAddressToSignerMap pt a = Some s \<longrightarrow>
        s \<in> dom (PosItemMap pt) \<union> dom (UnbondPosItemMap pt)) \<and>
     (\<forall>pt s h b pt' err. T pt \<and> s \<in> dom (PosItemMap pt) \<and> RemovePosItem e pt s h b = (pt', err) \<longrightarrow>
        T pt' \<and> (err = None \<or> s \<in> dom (UnbondPosItemMap pt'))) \<and>
     (\<forall>pt h ss. T pt \<longrightarrow> T (fst (TryRemoveUnbondPosItems e pt h ss))) \<and>
     (\<forall>pt. T pt \<longrightarrow> postable_ok e (ExportSortedSigners e (CopyPosTable e pt)) \<and>
        drawable e (ExportSortedSigners e (CopyPosTable e pt)))"

lemma table_lawsD:
  assumes "table_laws e T" and "T pt"
  shows "T (pt\<lparr>ChangedFlagThisBlock := b\<rparr>)"
    and "TmAddressToSignerMap pt a = Some s \<Longrightarrow> s \<in> dom (PosItemMap pt) \<union> dom (UnbondPosItemMap pt)"
    and "s \<in> dom (PosItemMap pt) \<Longrightarrow> RemovePosItem e pt s h c = (pt', err) \<Longrightarrow>
      T pt' \<and> (err = None \<or> s \<in> dom (UnbondPosItemMap pt'))"
    and "T (fst (TryRemoveUnbondPosItems e pt h ss))"
    and "postable_ok e (ExportSortedSigners e (CopyPosTable e pt))"
    and "drawable e (ExportSortedSigners e (CopyPosTable e pt))"
  using assms unfolding table_laws_def by blast+

text \<open>The tables of a world, which the transactions of a block may change.\<close>

fun world_ok :: "('x PosTable \<Rightarrow> bool) \<Rightarrow> 'x world \<Rightarrow> bool" where
  "world_ok T (pt, at, gv) \<longleftrightarrow> (\<exists>t. pt = Some t \<and> T t) \<and> at \<noteq> None \<and> EthAuthTable gv \<noteq> None"

definition tx_keeps_world :: "('c, 'b, 's, 'l, 'x world) ethenv \<Rightarrow> ('x PosTable \<Rightarrow> bool) \<Rightarrow> bool" where
  "tx_keeps_world en T \<longleftrightarrow>
     (\<forall>bc h tx i g s u w g' s' u' w' r.
        ApplyTransactionWithInfo en bc h tx i (g, s, u, w) = ((g', s', u', w'), r) \<and> world_ok T w \<longrightarrow> world_ok T w')"

definition healthy_chain :: "('c, 'b, 's, 'l, 'w) ethenv \<Rightarrow> bool" where
  "healthy_chain en \<longleftrightarrow>
     (\<forall>s. \<exists>h. snd (state_Commit en s) = Inr h) \<and>
     (\<forall>bc b rs ls s. snd (WriteBlockWithState en bc b rs ls s) = None) \<and> (\<forall>bc. \<exists>s. bc_State en bc = Inr s)"

definition progress_laws :: "('c, 'b, 's, 'l, 'x) nodeenv \<Rightarrow> ('x PosTable \<Rightarrow> bool) \<Rightarrow> bool" where
  "progress_laws N T \<longleftrightarrow>
     node_laws N \<and> table_laws (ne_env N) T \<and> tx_keeps_world (ne_en N) T \<and> healthy_chain (ne_en N) \<and>
     EpochBlocks (ne_env N) \<noteq> 0 \<and> 3 < length (HeightArray (ne_w N)) \<and>
     length (HeightArray (ne_w N)) \<le> length (VersionArray (ne_w N))"

section \<open>Well-formed states\<close>

definition epochTable_ok :: "'x env \<Rightarrow> 'x Strategy \<Rightarrow> bool" where
  "epochTable_ok e st \<longleftrightarrow>
     (\<exists>cur. cev_PosTable (s_CurrEpoch st) = Some cur \<and> drawable e cur \<and>
        SelectCount (s_CurrEpoch st) \<le> int (card (dom (PosItemMap cur))))"

definition money_ok :: "'x Strategy \<Rightarrow> bool" where
  "money_ok st \<longleftrightarrow>
     (\<exists>t m. TotalBalance (s_CurrEpoch st) = Some t \<and> 0 \<le> t \<and> MinorBonus (s_CurrEpoch st) = Some m \<and> 0 \<le> m)"

definition node_ok ::
  "('x PosTable \<Rightarrow> bool) \<Rightarrow> ('c, 'b, 's, 'l, 'x) nodeenv \<Rightarrow> ('c, 'b, 's, 'l, 'x) EthermintApplication \<Rightarrow> bool" where
  "node_ok T N app \<longleftrightarrow>
     world_ok T (worldOf app) \<and> epochTable_ok (ne_env N) (a_strategy app) \<and> money_ok (a_strategy app) \<and>
     0 \<le> SelectCount (s_CurrEpoch (a_strategy app)) \<and> s_signer (a_strategy app) \<noteq> None \<and>
     keyed (ne_env N) (recorded app)"

text \<open>The part of the state that the handlers between two ends of block leave alone.\<close>

definition stableView ::
  "('c, 'b, 's, 'l, 'x) EthermintApplication \<Rightarrow> 'x CurrEpochValData \<times> Signer option \<times> (string \<rightharpoonup> Validator)" where
  "stableView app = (s_CurrEpoch (a_strategy app), s_signer (a_strategy app), recorded app)"

lemma node_ok_frame:
  assumes "stableView app' = stableView app" and "world_ok T (worldOf app')" and "node_ok T N app"
  shows "node_ok T N app'"
  using assms by (auto simp: node_ok_def stableView_def epochTable_ok_def money_ok_def)

section \<open>Checks\<close>

definition no_panic :: "'a verdict \<Rightarrow> bool" where
  "no_panic v \<longleftrightarrow> (\<forall>p. v \<noteq> Inl p)"

lemma no_panic_simps [simp]:
  "no_panic (reject c r)" "no_panic (goOn x)" "no_panic (orReject c r q)" "no_panic (unlessErr f err)"
  by (auto simp: no_panic_def reject_def goOn_def orReject_def unlessErr_def split: option.splits)

lemma no_panic_bind:
  "no_panic m \<Longrightarrow> (\<And>x. m = goOn x \<Longrightarrow> no_panic (f x)) \<Longrightarrow> no_panic (verdict_bind m f)"
  by (auto simp: no_panic_def verdict_bind_def goOn_def split: sum.splits)

lemma no_panic_sender: "s \<noteq> None \<Longrightarrow> no_panic (senderOf te s tx)"
  by (auto simp: senderOf_def)

lemma txSigner_known: "s_signer st \<noteq> None \<Longrightarrow> txSigner st tx \<noteq> None"
  by (simp add: txSigner_def)

lemma no_panic_plain: "s \<noteq> None \<Longrightarrow> no_panic (plainTxInfo te s tx)"
  unfolding plainTxInfo_def by (intro no_panic_bind no_panic_sender) simp_all

lemmas no_panic_info = no_panic_bind no_panic_sender txSigner_known no_panic_plain

lemma no_panic_remote: "s_signer st \<noteq> None \<Longrightarrow> no_panic (remoteTxInfo te st tx)"
  unfolding remoteTxInfo_def Let_def decodeSubTx_def deriveRelayer_def checkRelayer_def txForVerify_def
  by (cases "tx_To tx") (auto intro!: no_panic_info)

lemma no_panic_deliver: "s_signer st \<noteq> None \<Longrightarrow> no_panic (deliverTxInfo te st tx)"
  unfolding deliverTxInfo_def Let_def decodeSubTx_def deriveRelayer_def checkRelayer_def txForVerify_def
  by (cases "tx_To tx") (auto intro!: no_panic_info)

lemma validateTx_progress:
  assumes "no_panic (txInfoFor te (a_strategy app) (a_backend app) tx ct)"
  obtains app' r where "validateTx te db tx ct app = Inr (app', r)"
  using assms checkState_no_panic [of te db "a_vars app" _ _ tx]
  by (cases "validateTx te db tx ct app")
    (auto simp: validateTx_def Let_def no_panic_def split: sum.splits if_splits)

text \<open>A recheck needs its transaction in the cache. A local check needs the forwarding loop to have stored
  a transaction: before, the transaction of the current info is a nil pointer.\<close>

definition check_fits :: "'x txenv \<Rightarrow> bytes \<Rightarrow> CheckTxType \<Rightarrow> ('c, 'b, 's, 'l, 'x) EthermintApplication \<Rightarrow> bool" where
  "check_fits te txBytes ct app \<longleftrightarrow>
     (ct = CheckTxType_Recheck \<longrightarrow>
        (\<forall>tx. DecodeRLP te txBytes = Inr tx \<longrightarrow> FetchCachedTxInfo (tx_Hash tx) (a_backend app) \<noteq> None)) \<and>
     (ct = CheckTxType_Local \<longrightarrow> ti_Tx (currentTxInfo (a_backend app)) \<noteq> None)"

lemma CheckTx_progress:
  assumes "s_signer (a_strategy app) \<noteq> None" and "check_fits te txBytes ct app"
  obtains app' r where "CheckTx te db txBytes ct app = Inr (app', r)"
proof (cases "ct = CheckTxType_Local")
  case True
  then obtain tx where tx: "ti_Tx (currentTxInfo (a_backend app)) = Some tx"
    using assms(2) by (auto simp: check_fits_def)
  have "no_panic (txInfoFor te (a_strategy app) (a_backend app) tx ct)" by (simp add: True txInfoFor_def)
  then obtain app' r where "validateTx te db tx ct app = Inr (app', r)" by (rule validateTx_progress)
  with True tx that show ?thesis by (simp add: CheckTx_def)
next
  case False
  show ?thesis
  proof (cases "DecodeRLP te txBytes")
    case (Inl err)
    with False that show ?thesis by (simp add: CheckTx_def)
  next
    case (Inr tx)
    with assms have "no_panic (txInfoFor te (a_strategy app) (a_backend app) tx ct)"
      by (cases ct) (auto simp: txInfoFor_def no_panic_remote check_fits_def)
    then obtain app' r where "validateTx te db tx ct app = Inr (app', r)" by (rule validateTx_progress)
    with False Inr that show ?thesis by (simp add: CheckTx_def)
  qed
qed

lemma validateTx_stable:
  assumes "validateTx te db tx ct app = Inr (app', r)"
  shows "stableView app' = stableView app \<and> worldOf app' = worldOf app"
  using validateTx_validated [OF assms]
  by (auto elim!: validatedE simp: stableView_def worldOf_def recorded_def)

lemma CheckTx_stable:
  assumes "CheckTx te db txBytes ct app = Inr (app', r)"
  shows "stableView app' = stableView app \<and> worldOf app' = worldOf app"
  using assms by (auto simp: CheckTx_def split: if_splits sum.splits dest: validateTx_stable)

lemma CheckTx_preserves:
  assumes "node_ok T N app" and "CheckTx te db txBytes ct app = Inr (app', r)"
  shows "node_ok T N app'"
  using node_ok_frame CheckTx_stable [OF assms(2)] assms(1) by (metis node_ok_def)

section \<open>The beginning of a block\<close>

lemma forkVersion_total:
  assumes "n \<le> length H" and "n \<le> length V"
  shows "\<exists>v. forkVersion H V n h cur = Inr v"
  using assms by (induction n) (auto simp: index_def)

lemma versionAt_total:
  assumes "length (HeightArray w) \<le> length (VersionArray w)"
  shows "\<exists>v. versionAt w st h cur = Inr v"
  using forkVersion_total [OF order_refl assms] by (simp add: versionAt_def)

lemma Receiver_total: "cev_PosTable (s_CurrEpoch st) \<noteq> None \<Longrightarrow> \<exists>a. Receiver e gv st = Inr a"
  by (auto simp: Receiver_def Let_def)

lemma punishOne_progress:
  assumes "table_laws e T" and "s_NextPosTable st = Some pt" and "T pt"
  obtains s' pt' where "punishOne e db p h ev (s, st) = Inr (s', st\<lparr>s_NextPosTable := Some pt'\<rparr>)" and "T pt'"
proof -
  note T = table_lawsD [OF assms(1,3)]
  have same: "st\<lparr>s_NextPosTable := Some pt\<rparr> = st" using assms(2) by simp
  let ?a = "hexKey (evidence_Address ev)"
  consider "TmAddressToSignerMap pt ?a = None"
    | s where "TmAddressToSignerMap pt ?a = Some s" "s \<in> dom (PosItemMap pt)"
    | s where "TmAddressToSignerMap pt ?a = Some s" "PosItemMap pt s = None" "s \<in> dom (UnbondPosItemMap pt)"
    using T(2) [of ?a] by (cases "TmAddressToSignerMap pt ?a") auto
  then show ?thesis
  proof cases
    case 1
    with assms that [of s pt] same show ?thesis by (simp add: punishOne_def)
  next
    case (2 signer)
    obtain pt' err where r: "RemovePosItem e pt signer h True = (pt', err)" by fastforce
    from T(3) [OF 2(2) r] assms 2 r that [of "Punish db p s signer" pt'] show ?thesis
      by (auto simp: punishOne_def Let_def)
  next
    case (3 signer)
    with assms that [of "Punish db p s signer" pt] same show ?thesis by (auto simp: punishOne_def Let_def)
  qed
qed

lemma punishAll_progress:
  assumes "table_laws e T" and "s_NextPosTable st = Some pt" and "T pt"
  obtains s' pt' where "punishAll e db p h evs (s, st) = Inr (s', st\<lparr>s_NextPosTable := Some pt'\<rparr>)" and "T pt'"
proof -
  have "\<exists>s' pt'. punishAll e db p h evs (s, st) = Inr (s', st\<lparr>s_NextPosTable := Some pt'\<rparr>) \<and> T pt'"
    using assms(2,3)
  proof (induction evs arbitrary: s st pt)
    case Nil
    then have "st\<lparr>s_NextPosTable := Some pt\<rparr> = st" by simp
    with Nil show ?case by (metis punishAll.simps(1))
  next
    case (Cons ev evs)
    obtain s1 pt1 where "punishOne e db p h ev (s, st) = Inr (s1, st\<lparr>s_NextPosTable := Some pt1\<rparr>)" and "T pt1"
      by (rule punishOne_progress [OF assms(1) Cons.prems])
    with Cons.IH [of "st\<lparr>s_NextPosTable := Some pt1\<rparr>" pt1 s1] show ?case by simp
  qed
  with that show ?thesis by blast
qed

lemma BeginBlock_progress:
  assumes "progress_laws N T" and "node_ok T N app"
  obtains app' where "BeginBlock (ne_env N) (ne_db N) (ne_en N) (ne_w N) req app = Inr app'" and "node_ok T N app'"
    and "LastVoteInfo (s_CurrentHeight (a_strategy app')) = bb_Votes req" and "stableView app' = stableView app"
    and "versionAt (ne_w N) (a_strategy app) (bb_Height req) (bb_AppVersion req) = Inr (BlockVersion (s_HF (a_strategy app')))"
proof -
  obtain pt where pt: "s_NextPosTable (a_strategy app) = Some pt" "T pt"
    using assms(2) by (auto simp: node_ok_def worldOf_def)
  from assms(1) have tl: "table_laws (ne_env N) T" by (simp add: progress_laws_def)
  obtain ver where v: "versionAt (ne_w N) (a_strategy app) (bb_Height req) (bb_AppVersion req) = Inr ver"
    using versionAt_total assms(1) by (metis progress_laws_def)
  let ?st1 = "(a_strategy app)\<lparr>s_NextPosTable := Some (pt\<lparr>ChangedFlagThisBlock := False\<rparr>),
      s_HF := (s_HF (a_strategy app))\<lparr>hf_Height := bb_Height req, BlockVersion := ver\<rparr>,
      s_CurrentHeight := (s_CurrentHeight (a_strategy app))\<lparr>chv_Height := bb_Height req,
        ProposerAddress := hexKey (bb_ProposerAddress req)\<rparr>\<rparr>"
  let ?gv1 = "(a_vars app)\<lparr>tv_AppVersion := ver\<rparr>"
  let ?st2 = "?st1\<lparr>s_CurrentHeight := (s_CurrentHeight ?st1)\<lparr>LastVoteInfo := bb_Votes req\<rparr>\<rparr>"
  have "cev_PosTable (s_CurrEpoch ?st1) \<noteq> None"
    using assms(2) by (auto simp: node_ok_def epochTable_ok_def)
  then obtain cb where cb: "Receiver (ne_env N) ?gv1 ?st1 = Inr cb" using Receiver_total by blast
  define b where "b = (let b1 = be_UpdateHeaderWithTimeInfo (ne_en N) (bb_Time req) (a_backend app) in
    b1\<lparr>be_work := updateHeaderCoinbase cb (be_work b1)\<rparr>)"
  define app1 where "app1 = app\<lparr>a_backend := b, a_strategy := ?st2, a_vars := ?gv1\<rparr>"
  obtain s' pt' where d: "DoPunish (ne_env N) (ne_db N) (a_punishment app) (bb_ByzantineValidators req) cb (bb_Height req)
      (currentState app1, ?st2) = Inr (s', ?st2\<lparr>s_NextPosTable := Some pt'\<rparr>)" and "T pt'"
    unfolding DoPunish_def
    by (rule punishAll_progress [OF tl, where st = ?st2 and pt = "pt\<lparr>ChangedFlagThisBlock := False\<rparr>"
      and s = "currentState app1"]) (use table_lawsD(1) [OF tl pt(2)] in simp_all)
  let ?app' = "setCurrentState s' (app1\<lparr>a_strategy := ?st2\<lparr>s_NextPosTable := Some pt'\<rparr>\<rparr>)"
  have run: "BeginBlock (ne_env N) (ne_db N) (ne_en N) (ne_w N) req app = Inr ?app'"
    using pt(1) v cb d by (simp add: BeginBlock_def Let_def b_def [unfolded Let_def] app1_def)
  have view: "stableView ?app' = stableView app"
    by (simp add: stableView_def recorded_def setCurrentState_def app1_def)
  have "world_ok T (worldOf app)" using assms(2) by (simp add: node_ok_def)
  with \<open>T pt'\<close> have "world_ok T (worldOf ?app')"
    by (auto simp: worldOf_def setCurrentState_def app1_def)
  from that [OF run node_ok_frame [OF view this assms(2)] _ view] v show ?thesis
    by (simp add: setCurrentState_def app1_def)
qed

section \<open>Deliveries\<close>

lemma be_DeliverTx_world:
  assumes "tx_keeps_world en T" and "world_ok T w" and "be_DeliverTx en tx i (b, w) = ((b', w'), r)"
  shows "world_ok T w'"
proof -
  obtain g s' u v res where a: "ApplyTransactionWithInfo en (be_chain b) (ws_header (be_work b)) tx i
      (gp (be_work b), Prepare en (ws_state (be_work b)) (tx_Hash tx) 0 (txIndex (be_work b)),
       totalUsedGas (be_work b), w) = ((g, s', u, v), res)" by (metis surj_pair)
  have "world_ok T v" using assms(1) a assms(2) unfolding tx_keeps_world_def by blast
  moreover have "w' = v" using assms(3) a by (simp add: be_DeliverTx_def deliverTx_def Let_def split: sum.splits)
  ultimately show ?thesis by simp
qed

lemma worldOf_setWorld [simp]: "worldOf (setWorld w app) = w"
  by (simp add: worldOf_def setWorld_def Let_def split: prod.splits)

lemma setWorld_strategy [simp]:
  "s_CurrEpoch (a_strategy (setWorld w app)) = s_CurrEpoch (a_strategy app)"
  "s_signer (a_strategy (setWorld w app)) = s_signer (a_strategy app)"
  "s_CurrentHeight (a_strategy (setWorld w app)) = s_CurrentHeight (a_strategy app)"
  "s_HF (a_strategy (setWorld w app)) = s_HF (a_strategy app)"
  by (simp_all add: setWorld_def Let_def split: prod.splits)

lemma setWorld_stable [simp]: "stableView (setWorld w app) = stableView app"
  by (simp add: stableView_def)

lemma app_DeliverTx_progress:
  assumes "tx_keeps_world (ne_en N) T" and "node_ok T N app"
  obtains app' r where "app_DeliverTx (ne_en N) te txBytes app = Inr (app', r)" and "node_ok T N app'"
    and "s_CurrentHeight (a_strategy app') = s_CurrentHeight (a_strategy app)"
    and "stableView app' = stableView app" and "s_HF (a_strategy app') = s_HF (a_strategy app)"
proof (cases "DecodeRLP te txBytes")
  case (Inl err)
  with assms(2) that show ?thesis by (simp add: app_DeliverTx_def)
next
  case (Inr tx)
  let ?b = "a_backend app"
  define v where "v = (case FetchCachedTxInfo (tx_Hash tx) ?b of Some i \<Rightarrow> goOn i
    | None \<Rightarrow> deliverTxInfo te (a_strategy app) tx)"
  have "no_panic v" using assms(2) by (auto simp: v_def node_ok_def no_panic_deliver split: option.splits)
  then consider c r where "v = Inr (Inl (c, r))" | i where "v = Inr (Inr i)"
    unfolding no_panic_def by (metis obj_sumE surj_pair)
  then show ?thesis
  proof cases
    case (1 c r)
    with Inr assms(2) that show ?thesis by (simp add: app_DeliverTx_def Let_def v_def)
  next
    case (2 i)
    let ?b1 = "if FetchCachedTxInfo (tx_Hash tx) ?b \<noteq> None then DeleteCachedTxInfo (tx_Hash tx) ?b else ?b"
    obtain b2 w2 res where d: "be_DeliverTx (ne_en N) (deliveredTx (FetchCachedTxInfo (tx_Hash tx) ?b) tx i) i
        (?b1, worldOf app) = ((b2, w2), res)"
      by (metis surj_pair)
    let ?app' = "setWorld w2 (app\<lparr>a_backend := b2\<rparr>)"
    have v: "stableView (app\<lparr>a_backend := b2\<rparr>) = stableView app" by (simp add: stableView_def)
    moreover have "world_ok T w2" using be_DeliverTx_world [OF assms(1) _ d] assms(2) by (simp add: node_ok_def)
    ultimately have "node_ok T N ?app'" using node_ok_frame [of ?app' app T N] assms(2) by simp
    moreover obtain r where "app_DeliverTx (ne_en N) te txBytes app = Inr (?app', r)"
      using Inr 2 d by (cases "rd_Code res = CodeOK") (simp_all add: app_DeliverTx_def Let_def v_def del: not_None_eq)
    ultimately show ?thesis using that v by simp
  qed
qed

lemma deliverAll_progress:
  assumes "tx_keeps_world (ne_en N) T" and "node_ok T N app"
  shows "\<exists>app'. deliverAll N txs app = Inr app' \<and> node_ok T N app' \<and>
    s_CurrentHeight (a_strategy app') = s_CurrentHeight (a_strategy app) \<and>
    stableView app' = stableView app \<and> s_HF (a_strategy app') = s_HF (a_strategy app)"
  using assms(2)
proof (induction txs arbitrary: app)
  case (Cons tx txs)
  obtain app1 r where d: "app_DeliverTx (ne_en N) (ne_te N) tx app = Inr (app1, r)" and "node_ok T N app1"
    and h: "s_CurrentHeight (a_strategy app1) = s_CurrentHeight (a_strategy app)"
      "stableView app1 = stableView app" "s_HF (a_strategy app1) = s_HF (a_strategy app)"
    by (rule app_DeliverTx_progress [OF assms(1) Cons.prems])
  from Cons.IH [OF this(2)] d h show ?case by auto
qed simp

lemma beginAndDeliver_progress:
  assumes "progress_laws N T" and "node_ok T N app"
  obtains app1 where "beginAndDeliver N blk app = Inr app1" and "node_ok T N app1"
    and "LastVoteInfo (s_CurrentHeight (a_strategy app1)) = bb_Votes (bk_Begin blk)"
    and "stableView app1 = stableView app"
    and "versionAt (ne_w N) (a_strategy app) (bb_Height (bk_Begin blk)) (bb_AppVersion (bk_Begin blk)) =
      Inr (BlockVersion (s_HF (a_strategy app1)))"
proof -
  obtain app0 where b: "BeginBlock (ne_env N) (ne_db N) (ne_en N) (ne_w N) (bk_Begin blk) app = Inr app0"
    and ok: "node_ok T N app0" and v: "LastVoteInfo (s_CurrentHeight (a_strategy app0)) = bb_Votes (bk_Begin blk)"
    and st: "stableView app0 = stableView app" and w: "versionAt (ne_w N) (a_strategy app) (bb_Height (bk_Begin blk))
      (bb_AppVersion (bk_Begin blk)) = Inr (BlockVersion (s_HF (a_strategy app0)))"
    by (rule BeginBlock_progress [OF assms])
  have "tx_keeps_world (ne_en N) T" using assms(1) by (simp add: progress_laws_def)
  from deliverAll_progress [OF this ok, of "bk_Txs blk"] obtain app1 where
    "deliverAll N (bk_Txs blk) app0 = Inr app1" "node_ok T N app1" "s_CurrentHeight (a_strategy app1) = s_CurrentHeight (a_strategy app0)"
    "stableView app1 = stableView app0" "s_HF (a_strategy app1) = s_HF (a_strategy app0)" by blast
  with b v st w that show ?thesis by (simp add: beginAndDeliver_def)
qed

section \<open>The end of a block\<close>

text \<open>The table in force when a block is committed.\<close>

definition tableAtCommit ::
  "'x env \<Rightarrow> int \<Rightarrow> ('c, 'b, 's, 'l, 'x) EthermintApplication \<Rightarrow> 'x PosTable option" where
  "tableAtCommit e height app =
     (if height mod EpochBlocks e = 0
      then map_option (\<lambda>nxt. ExportSortedSigners e (CopyPosTable e nxt)) (s_NextPosTable (a_strategy app))
      else cev_PosTable (s_CurrEpoch (a_strategy app)))"

definition withTable :: "'x PosTable option \<Rightarrow> 'x Strategy \<Rightarrow> 'x Strategy" where
  "withTable pt st = st\<lparr>s_CurrEpoch := (s_CurrEpoch st)\<lparr>cev_PosTable := pt\<rparr>\<rparr>"

definition block_fits :: "('c, 'b, 's, 'l, 'x) nodeenv \<Rightarrow> block \<Rightarrow> ('c, 'b, 's, 'l, 'x) EthermintApplication \<Rightarrow> bool" where
  "block_fits N blk app \<longleftrightarrow>
     (case beginAndDeliver N blk app of
        Inl p \<Rightarrow> True
      | Inr app1 \<Rightarrow>
          (let st = a_strategy app1;
               cur = tableAtCommit (ne_env N) (bb_Height (bk_Begin blk)) app1 in
           (BlockVersion (s_HF st) < 4 \<longrightarrow> votes_ok (withTable cur st) (bb_Votes (bk_Begin blk))) \<and>
           (\<forall>pt \<in> set_option cur. SelectCount (s_CurrEpoch st) \<le> int (card (dom (PosItemMap pt))))))"

lemma selectTarget_bounds:
  assumes "0 \<le> SelectCount (s_CurrEpoch st)"
    and "SelectCount (s_CurrEpoch st) \<le> int (card (dom (PosItemMap pt)))"
  obtains want where "selectTarget st pt = int want" and "want \<le> card (dom (PosItemMap pt))"
proof -
  have "selectTarget st pt = int (nat (selectTarget st pt))" "nat (selectTarget st pt) \<le> card (dom (PosItemMap pt))"
    using assms by (simp_all add: selectTarget_def nat_le_iff)
  then show ?thesis by (rule that)
qed

lemma select_ok_drawable:
  assumes "s_AuthTable st \<noteq> None" and "epochTable_ok e st" and "0 \<le> SelectCount (s_CurrEpoch st)"
  shows "select_ok e seed height st"
proof -
  from assms(2) obtain cur where cur: "cev_PosTable (s_CurrEpoch st) = Some cur" "drawable e cur"
    "SelectCount (s_CurrEpoch st) \<le> int (card (dom (PosItemMap cur)))" by (auto simp: epochTable_ok_def)
  obtain want where w: "selectTarget st cur = int want" "want \<le> card (dom (PosItemMap cur))"
    by (rule selectTarget_bounds [OF assms(3) cur(3)])
  then obtain n where "enoughDraws e cur seed height n want" and "enoughDraws e cur seed height want 0"
    using cur(2) unfolding drawable_def by blast
  with assms(1) cur(1) w(1) show ?thesis unfolding select_ok_def by auto
qed

lemma node_ok_endblock:
  assumes "progress_laws N T" and "node_ok T N app"
  shows "endblock_ok (ne_env N) (ne_w N) height seed app"
proof -
  obtain nxt where nxt: "s_NextPosTable (a_strategy app) = Some nxt" "T nxt" and a: "s_AuthTable (a_strategy app) \<noteq> None"
    and v: "EthAuthTable (a_vars app) \<noteq> None"
    using assms(2) by (auto simp: node_ok_def worldOf_def)
  have l: "table_laws (ne_env N) T" "EpochBlocks (ne_env N) \<noteq> 0" "3 < length (HeightArray (ne_w N))"
    using assms(1) by (simp_all add: progress_laws_def)
  have "select_ok (ne_env N) s h (a_strategy app)" for s h
    by (rule select_ok_drawable [OF a]) (use assms(2) in \<open>auto simp: node_ok_def\<close>)
  with nxt a v l table_lawsD(5) [OF l(1) nxt(2)] show ?thesis
    by (auto simp: endblock_ok_def update_ok_def split: option.splits)
qed

text \<open>When all members are selected (the command line asks for no number) and block version 4 is in
  force, every block fits.\<close>

lemma block_fits_modern:
  assumes "progress_laws N T" and "node_ok T N app" and "SelectCount (s_CurrEpoch (a_strategy app)) = 0"
    and "versionAt (ne_w N) (a_strategy app) (bb_Height (bk_Begin blk)) (bb_AppVersion (bk_Begin blk)) = Inr ver"
    and "4 \<le> ver"
  shows "block_fits N blk app"
proof -
  obtain app1 where "beginAndDeliver N blk app = Inr app1" and "stableView app1 = stableView app"
    and "versionAt (ne_w N) (a_strategy app) (bb_Height (bk_Begin blk)) (bb_AppVersion (bk_Begin blk)) =
      Inr (BlockVersion (s_HF (a_strategy app1)))"
    by (rule beginAndDeliver_progress [OF assms(1,2)])
  with assms(3-5) show ?thesis by (auto simp: block_fits_def Let_def stableView_def)
qed

text \<open>What an answer to the end of a block changes of the strategy: the recorded validators and the
  authorisation table.\<close>

definition reselected :: "'x Strategy \<Rightarrow> 'x Strategy \<Rightarrow> bool" where
  "reselected st st' \<longleftrightarrow>
     (\<exists>vals at. st' = st\<lparr>s_CurrentHeight := (s_CurrentHeight st)\<lparr>Validators := vals\<rparr>, s_AuthTable := Some at\<rparr>)"

lemma getAuthTmItems_reselected:
  assumes "getAuthTmItems ordA (st\<lparr>s_CurrentHeight := (s_CurrentHeight st)\<lparr>Validators := vals\<rparr>\<rparr>) = Inr (st', ev)"
  shows "reselected st st'"
  using assms unfolding reselected_def
  by (auto simp: getAuthTmItems_def Let_def split: option.splits if_splits)

lemma enterSelect_reselected:
  assumes "enterSelectValidators e ordV ordA seed height st = Some (Inr (st', resp))"
  shows "reselected st st'"
  using assms
  by (auto simp: enterSelectValidators_def selectFinish_def split: option.splits sum.splits
      intro: getAuthTmItems_reselected)

lemma blsValidators_reselected:
  assumes "blsValidators e w ordV ordA height (st, gv) = Inr ((st', gv'), resp)"
  shows "reselected st st' \<and> EthAuthTable gv' = EthAuthTable gv"
  using assms
  by (auto simp: blsValidators_def Let_def intro: getAuthTmItems_reselected)

lemma GetUpdatedValidators_reselected:
  assumes "GetUpdatedValidators e w ordV ordA height seed (st, gv) = Some (Inr ((st', gv'), resp))"
  shows "reselected st st' \<and> EthAuthTable gv' = EthAuthTable gv"
  using assms
  by (auto simp: GetUpdatedValidators_def split: sum.splits bool.splits option.splits
      dest: enterSelect_reselected blsValidators_reselected)

lemma EndBlock_view:
  assumes "EndBlock e w cH uC ordV ordA height seed app = Some (Inr (app', resp))"
    and "st1 = (a_strategy app)\<lparr>s_CurrEpoch := (s_CurrEpoch (a_strategy app))\<lparr>cev_PosTable := tableAtCommit e height app\<rparr>,
      s_NextPosTable := (if height mod EpochBlocks e = 0
        then map_option (\<lambda>nxt. fst (TryRemoveUnbondPosItems e nxt (chv_Height (s_CurrentHeight (a_strategy app)))
          (SortedUnbondSigners (ExportSortedSigners e (CopyPosTable e nxt))))) (s_NextPosTable (a_strategy app))
        else s_NextPosTable (a_strategy app))\<rparr>"
  shows "reselected st1 (a_strategy app') \<and> EthAuthTable (a_vars app') = EthAuthTable (a_vars app)"
proof -
  from assms(1) obtain ee app1 where ee: "atEpochEnd e height = Inr ee"
    and app1: "(if ee then epochChange e w cH uC height app else Inr app) = Inr app1"
    and g: "GetUpdatedValidators e w ordV ordA height seed (a_strategy app1, a_vars app1) =
      Some (Inr ((a_strategy app', a_vars app'), resp))"
    by (auto simp: EndBlock_def split: sum.splits)
  have "a_strategy app1 = st1 \<and> EthAuthTable (a_vars app1) = EthAuthTable (a_vars app)"
    using app1 ee assms(2)
    by (auto simp: epochChange_def Let_def tableAtCommit_def atEpochEnd_def mapBackend_def split: if_splits)
  with GetUpdatedValidators_reselected [OF g] show ?thesis by simp
qed

text \<open>What the commit relies on: the strategy is well-formed and, before block version 4, the voters
  are known.\<close>

definition payable :: "('c, 'b, 's, 'l, 'x) EthermintApplication \<Rightarrow> bool" where
  "payable app \<longleftrightarrow>
     (BlockVersion (s_HF (a_strategy app)) < 4 \<longrightarrow>
        votes_ok (a_strategy app) (LastVoteInfo (s_CurrentHeight (a_strategy app))))"

lemma votes_ok_table:
  assumes "cev_PosTable (s_CurrEpoch st') = cev_PosTable (s_CurrEpoch st)"
  shows "votes_ok st' vs \<longleftrightarrow> votes_ok st vs"
  using assms by (simp add: votes_ok_def voteBeneficiary_def)

lemma EndBlock_progress:
  assumes L: "progress_laws N T" and ok: "node_ok T N app"
    and fit: "BlockVersion (s_HF (a_strategy app)) < 4 \<longrightarrow>
        votes_ok (withTable (tableAtCommit (ne_env N) (bb_Height (bk_Begin blk)) app) (a_strategy app))
          (LastVoteInfo (s_CurrentHeight (a_strategy app)))"
      "\<forall>pt \<in> set_option (tableAtCommit (ne_env N) (bb_Height (bk_Begin blk)) app).
         SelectCount (s_CurrEpoch (a_strategy app)) \<le> int (card (dom (PosItemMap pt)))"
  obtains app' resp where "endOf N blk app = Some (Inr (app', resp))" and "node_ok T N app'" and "payable app'"
proof -
  let ?e = "ne_env N" and ?h = "bb_Height (bk_Begin blk)" and ?st = "a_strategy app"
  let ?cur = "tableAtCommit ?e ?h app"
  obtain nxt where nxt: "s_NextPosTable ?st = Some nxt" "T nxt" and v: "EthAuthTable (a_vars app) \<noteq> None"
    using ok by (auto simp: node_ok_def worldOf_def)
  have l: "table_laws ?e T" "range_order (ne_ordV N)" using L by (auto simp: progress_laws_def node_laws_def)
  have "answers ?e (recorded app) recorded (endOf N blk app)"
    unfolding endOf_def by (rule endblock_step [OF _ l(2) node_ok_endblock [OF L ok]])
      (use ok in \<open>simp add: node_ok_def\<close>)
  then obtain app' resp where r: "endOf N blk app = Some (Inr (app', resp))" and k: "keyed ?e (recorded app')"
    by (auto simp: answers_def)
  define st1 where "st1 = ?st\<lparr>s_CurrEpoch := (s_CurrEpoch ?st)\<lparr>cev_PosTable := ?cur\<rparr>,
      s_NextPosTable := (if ?h mod EpochBlocks ?e = 0
        then map_option (\<lambda>nxt. fst (TryRemoveUnbondPosItems ?e nxt (chv_Height (s_CurrentHeight ?st))
          (SortedUnbondSigners (ExportSortedSigners ?e (CopyPosTable ?e nxt))))) (s_NextPosTable ?st)
        else s_NextPosTable ?st)\<rparr>"
  from EndBlock_view [OF r [unfolded endOf_def] st1_def] obtain vals at where
    st': "a_strategy app' = st1\<lparr>s_CurrentHeight := (s_CurrentHeight st1)\<lparr>Validators := vals\<rparr>, s_AuthTable := Some at\<rparr>"
    and v': "EthAuthTable (a_vars app') = EthAuthTable (a_vars app)" by (auto simp: reselected_def)
  have w: "world_ok T (worldOf app')"
    using nxt v table_lawsD(4) [OF l(1) nxt(2)] by (simp add: worldOf_def st' v' st1_def)
  have "\<exists>c. ?cur = Some c \<and> drawable ?e c"
    using ok nxt table_lawsD(6) [OF l(1) nxt(2)] by (auto simp: tableAtCommit_def node_ok_def epochTable_ok_def)
  then have "epochTable_ok ?e (a_strategy app')" using fit(2) by (auto simp: epochTable_ok_def st' st1_def)
  with w k ok have "node_ok T N app'" by (simp add: node_ok_def money_ok_def st' st1_def)
  moreover have "payable app'"
    using fit(1) votes_ok_table [of "a_strategy app'" "withTable ?cur ?st"]
    by (simp add: payable_def st' st1_def withTable_def)
  ultimately show ?thesis using r that by blast
qed

section \<open>Commit\<close>

lemma AccumulateRewards_total:
  assumes "money_ok (a_strategy app)" and "payable app"
  shows "\<exists>ws'. AccumulateRewards db (a_strategy app) ws = Inr ws'"
proof (cases "4 \<le> BlockVersion (s_HF (a_strategy app))")
  case False
  have "0 < yearlyDivisor" by (simp add: yearlyDivisor_def)
  with assms(1) have "bonus_ok (a_strategy app)"
    by (auto simp: bonus_ok_def money_ok_def minerBonusOf_def pos_imp_zdiv_nonneg_iff)
  from accumulateRewards_eq [OF this _ refl, of db ws] assms(2) False show ?thesis
    by (simp add: payable_def AccumulateRewards_def)
qed (simp add: AccumulateRewards_def)

lemma persistAuth_total: "s_AuthTable st \<noteq> None \<Longrightarrow> \<exists>s'. persistAuth e ps st s = Inr s'"
  by (auto simp: persistAuth_def Let_def split: option.splits)

lemma SetPersistenceData_total:
  assumes "EpochBlocks e \<noteq> 0" and "s_NextPosTable (a_strategy app) \<noteq> None" and "s_AuthTable (a_strategy app) \<noteq> None"
  shows "\<exists>s'. SetPersistenceData e ps app = Inr (setCurrentState s' app)"
proof -
  obtain pt where pt: "s_NextPosTable (a_strategy app) = Some pt" using assms(2) by blast
  have "\<exists>s'. persistNext e ps (a_strategy app) s = Inr s'" for s
    using assms(1) persistAuth_total [OF assms(3), of e ps] by (auto simp: persistNext_def atEpochEnd_def pt)
  then obtain s1 where "persistNext e ps (a_strategy app) (currentState app) = Inr s1" by blast
  with assms(1) show ?thesis by (auto simp: SetPersistenceData_def Let_def atEpochEnd_def)
qed

lemma be_Commit_total:
  assumes "healthy_chain en"
  shows "\<exists>b' h. be_Commit en b = (b', Inr h)"
proof -
  obtain s' root where s: "state_Commit en (ws_state (be_work b)) = (s', Inr root)"
    using assms unfolding healthy_chain_def by (metis prod.collapse)
  have w: "snd (WriteBlockWithState en bc blk rs ls s) = None" for bc blk rs ls s
    using assms by (simp add: healthy_chain_def)
  have r: "\<exists>ws. resetWorkState en bc a = Inr ws" for bc a
    using assms unfolding healthy_chain_def resetWorkState_def Let_def by (metis sum.case(2))
  have "\<exists>h. snd (commit en (be_chain b) (be_work b)) = Inr h"
    by (simp add: commit_def s w Let_def split_def)
  then obtain bc' ws' h where c: "commit en (be_chain b) (be_work b) = ((bc', ws'), Inr h)"
    by (metis prod.collapse)
  obtain ws'' where "resetWorkState en bc' (Coinbase (ws_header ws')) = Inr ws''" using r by blast
  with c show ?thesis by (simp add: be_Commit_def es_Commit_def)
qed

lemma Commit_progress:
  assumes L: "progress_laws N T" and ok: "node_ok T N app" and "payable app"
  obtains app' h where "app_Commit (ne_env N) (ne_db N) (ne_ps N) (ne_en N) app = Inr (app', Some h)"
    and "node_ok T N app'"
proof -
  obtain b1 where r: "be_AccumulateRewards (ne_db N) (a_strategy app) (a_backend app) = Inr b1"
    using AccumulateRewards_total [OF _ assms(3), of "ne_db N" "be_work (a_backend app)"] ok
    by (auto simp: be_AccumulateRewards_def node_ok_def)
  have w: "EpochBlocks (ne_env N) \<noteq> 0" "s_NextPosTable (a_strategy (app\<lparr>a_backend := b1\<rparr>)) \<noteq> None"
    "s_AuthTable (a_strategy (app\<lparr>a_backend := b1\<rparr>)) \<noteq> None"
    using L ok by (auto simp: progress_laws_def node_ok_def worldOf_def)
  obtain s' where p: "SetPersistenceData (ne_env N) (ne_ps N) (app\<lparr>a_backend := b1\<rparr>) =
      Inr (setCurrentState s' (app\<lparr>a_backend := b1\<rparr>))"
    using SetPersistenceData_total [OF w] by blast
  let ?app1 = "setCurrentState s' (app\<lparr>a_backend := b1\<rparr>)"
  have "healthy_chain (ne_en N)" using L by (simp add: progress_laws_def)
  then obtain b2 h where c: "be_Commit (ne_en N) (a_backend (?app1\<lparr>a_checkTxState := currentState ?app1\<rparr>)) = (b2, Inr h)"
    using be_Commit_total by blast
  let ?app' = "?app1\<lparr>a_checkTxState := currentState ?app1, a_backend := b2\<rparr>"
  have "app_Commit (ne_env N) (ne_db N) (ne_ps N) (ne_en N) app = Inr (?app', Some h)"
    using r p c by (simp add: app_Commit_def Let_def)
  moreover have "stableView ?app' = stableView app" "worldOf ?app' = worldOf app"
    by (simp_all add: stableView_def recorded_def worldOf_def setCurrentState_def)
  then have "node_ok T N ?app'" using node_ok_frame ok by (metis node_ok_def)
  ultimately show ?thesis by (rule that)
qed

end
