(* ===== verification/NodeProgress.thy ===== *)
theory NodeProgress
  imports NodeSound
begin

text \<open>
  Progress of the node: what theory \<open>NodeSound\<close> shows of each handler, put together for a block, for
  any list of calls (\<open>runNode\<close>), and for a node started from genesis, whose \<open>InitChain\<close> establishes
  the invariant. The last section holds an instance of the txfilter parameters that keeps all the laws,
  on which the properties are evaluated.
\<close>

section \<open>Progress and preservation\<close>

lemma runBlock_progress:
  assumes L: "progress_laws N T" and ok: "node_ok T N app" and "block_fits N blk app"
  obtains app' us h where "runBlock N blk app = Some (Inr (app', us, Some h))" and "node_ok T N app'"
    and "block_ok N blk app"
proof -
  obtain app1 where b: "beginAndDeliver N blk app = Inr app1" and ok1: "node_ok T N app1"
    and v: "LastVoteInfo (s_CurrentHeight (a_strategy app1)) = bb_Votes (bk_Begin blk)"
    by (rule beginAndDeliver_progress [OF L ok])
  obtain app2 resp where e: "endOf N blk app1 = Some (Inr (app2, resp))" and ok2: "node_ok T N app2" and p: "payable app2"
    by (rule EndBlock_progress [OF L ok1]) (use assms(3) b v in \<open>auto simp: block_fits_def Let_def\<close>)
  obtain app3 h where c: "app_Commit (ne_env N) (ne_db N) (ne_ps N) (ne_en N) app2 = Inr (app3, Some h)"
    and ok3: "node_ok T N app3"
    by (rule Commit_progress [OF L ok2 p])
  have "runBlock N blk app = Some (Inr (app3, ValidatorUpdates resp, Some h))"
    using b e c by (simp add: runBlock_def)
  moreover have "block_ok N blk app" using b node_ok_endblock [OF L ok1] by (simp add: block_ok_def)
  ultimately show ?thesis using ok3 that by blast
qed

text \<open>The calls a node gets, as a list, and what it does with them; the forwarding loop, which stores the
  sender of the next local transaction, counts as one of them. An answer to a block carries a hash unless
  its commit failed; \<open>None\<close> is a call that never returns.\<close>

datatype nodeEvent = CheckEvent bytes CheckTxType | TakeEvent TxPreEvent | BlockEvent block

fun runNode ::
  "('c, 'b, 's, 'l, 'x) nodeenv \<Rightarrow> nodeEvent list \<Rightarrow> ('c, 'b, 's, 'l, 'x) EthermintApplication \<Rightarrow>
     (panic + ('c, 'b, 's, 'l, 'x) EthermintApplication \<times> (ValidatorUpdate list \<times> hash option) list) option" where
  "runNode N [] app = Some (Inr (app, []))"
| "runNode N (CheckEvent txBytes ct # evs) app =
     (case CheckTx (ne_te N) (ne_db N) txBytes ct app of
        Inl p \<Rightarrow> Some (Inl p)
      | Inr (app', r) \<Rightarrow> runNode N evs app')"
| "runNode N (TakeEvent obj # evs) app = runNode N evs (storeEvent obj app)"
| "runNode N (BlockEvent blk # evs) app =
     (case runBlock N blk app of
        None \<Rightarrow> None
      | Some (Inl p) \<Rightarrow> Some (Inl p)
      | Some (Inr (app', us, h)) \<Rightarrow>
          map_option (\<lambda>r. panic_bind r (\<lambda>(app'', tr). Inr (app'', (us, h) # tr))) (runNode N evs app'))"

fun fitting :: "('c, 'b, 's, 'l, 'x) nodeenv \<Rightarrow> nodeEvent list \<Rightarrow> ('c, 'b, 's, 'l, 'x) EthermintApplication \<Rightarrow> bool" where
  "fitting N [] app \<longleftrightarrow> True"
| "fitting N (CheckEvent txBytes ct # evs) app \<longleftrightarrow>
     check_fits (ne_te N) txBytes ct app \<and>
     (case CheckTx (ne_te N) (ne_db N) txBytes ct app of Inl p \<Rightarrow> True | Inr (app', r) \<Rightarrow> fitting N evs app')"
| "fitting N (TakeEvent obj # evs) app \<longleftrightarrow> fitting N evs (storeEvent obj app)"
| "fitting N (BlockEvent blk # evs) app \<longleftrightarrow>
     block_fits N blk app \<and>
     (case runBlock N blk app of
        Some (Inr (app', us, h)) \<Rightarrow> fitting N evs app'
      | _ \<Rightarrow> True)"

fun isBlock :: "nodeEvent \<Rightarrow> bool" where
  "isBlock (BlockEvent blk) = True"
| "isBlock (CheckEvent txBytes ct) = False"
| "isBlock (TakeEvent obj) = False"

definition withHash :: "ValidatorUpdate list \<times> hash \<Rightarrow> ValidatorUpdate list \<times> hash option" where
  "withHash a = (fst a, Some (snd a))"

lemma node_run_trans:
  assumes "node_run N app1 tr2 app2" and "node_run N app0 tr1 app1"
  shows "node_run N app0 (tr1 @ tr2) app2"
  using assms
proof (induction rule: node_run.induct)
  case (run_block tr app blk app' us h)
  then show ?case using node_run.run_block by (metis append.assoc)
qed (auto intro: node_run.intros)

lemma storeEvent_ok: "node_ok T N app \<Longrightarrow> node_ok T N (storeEvent obj app)"
  by (simp add: node_ok_def worldOf_def recorded_def mapBackend_def)

text \<open>Once the loop has stored a transaction, the local check that follows meets its condition.\<close>

lemma storeEvent_check_fits: "check_fits te txBytes CheckTxType_Local (storeEvent obj app)"
  by (simp add: check_fits_def mapBackend_def setCurrentTxInfo_def eventInfo_def)

lemma runNode_progress:
  assumes "progress_laws N T" and "node_ok T N app" and "fitting N evs app"
  shows "\<exists>app' tr. runNode N evs app = Some (Inr (app', map withHash tr)) \<and> node_ok T N app' \<and>
    node_run N app tr app' \<and> length tr = length (filter isBlock evs)"
  using assms(2,3)
proof (induction evs arbitrary: app)
  case Nil
  then show ?case by (auto intro: node_run.run_start)
next
  case (Cons ev evs)
  show ?case
  proof (cases ev)
    case (CheckEvent txBytes ct)
    have "s_signer (a_strategy app) \<noteq> None" "check_fits (ne_te N) txBytes ct app"
      using Cons.prems CheckEvent by (auto simp: node_ok_def)
    then obtain app1 r where c: "CheckTx (ne_te N) (ne_db N) txBytes ct app = Inr (app1, r)"
      by (rule CheckTx_progress [where db = "ne_db N"])
    have "node_ok T N app1" by (rule CheckTx_preserves [OF Cons.prems(1) c])
    with Cons.IH [of app1] Cons.prems(2) c CheckEvent node_run_trans
      node_run.run_check [OF node_run.run_start c] show ?thesis by fastforce
  next
    case (TakeEvent obj)
    have "node_ok T N (storeEvent obj app)" by (rule storeEvent_ok [OF Cons.prems(1)])
    with Cons.IH [of "storeEvent obj app"] Cons.prems(2) TakeEvent node_run_trans
      node_run.run_take [OF node_run.run_start] show ?thesis by fastforce
  next
    case (BlockEvent blk)
    then have fits: "block_fits N blk app" using Cons.prems(2) by auto
    obtain app1 us h where r: "runBlock N blk app = Some (Inr (app1, us, Some h))" and ok: "node_ok T N app1"
      and b: "block_ok N blk app"
      by (rule runBlock_progress [OF assms(1) Cons.prems(1) fits])
    obtain app' tr where IH: "runNode N evs app1 = Some (Inr (app', map withHash tr))" "node_ok T N app'"
      "node_run N app1 tr app'" "length tr = length (filter isBlock evs)"
      using Cons.IH [OF ok] Cons.prems(2) r BlockEvent by auto
    have "node_run N app ([] @ [(us, h)] @ tr) app'"
      using node_run_trans [OF IH(3) node_run.run_block [OF node_run.run_start b r]] by simp
    with IH r BlockEvent show ?thesis by (intro exI [of _ app'] exI [of _ "(us, h) # tr"]) (simp add: withHash_def)
  qed
qed


section \<open>From genesis\<close>

text \<open>What \<open>InitChain\<close> relies on about the tables: the operations that build the first table keep their
  package's invariant.\<close>

definition genesis_laws :: "'x env \<Rightarrow> ('x PosTable \<Rightarrow> bool) \<Rightarrow> bool" where
  "genesis_laws e T \<longleftrightarrow>
     T (CreatePosTable e) \<and> (\<forall>pt t. T pt \<longrightarrow> T (SetThreshold e pt t)) \<and> (\<forall>pt. T pt \<longrightarrow> T (InitStruct e pt)) \<and>
     (\<forall>pt a h n pk tm bls ben. T pt \<and> PubKeyAddress e pk = Some tm \<longrightarrow>
        T (fst (InsertPosItem e pt a (NewPosItem e h n pk tm bls ben))))"

lemma InsertPosItemInit_table:
  assumes "genesis_laws e T" and "InsertPosItemInit e a bal ben pk bls st = Inr (st', err)"
    and "s_NextPosTable st = Some pt" and "T pt"
  obtains pt' where "st' = st\<lparr>s_NextPosTable := Some pt'\<rparr>" and "T pt'"
proof -
  from assms(2,3) obtain n tm where tm: "PubKeyAddress e pk = Some tm"
    and "st' = st\<lparr>s_NextPosTable := Some (fst (InsertPosItem e pt a (NewPosItem e 1 n pk tm bls ben)))\<rparr>"
    by (auto simp: InsertPosItemInit_def Let_def split_def)
  then show ?thesis using that assms(1,4) unfolding genesis_laws_def by blast
qed

definition buildingTable :: "('x PosTable \<Rightarrow> bool) \<Rightarrow> 'x Strategy \<Rightarrow> 'x Strategy \<Rightarrow> bool" where
  "buildingTable T st st' \<longleftrightarrow>
     (\<exists>pt. s_NextPosTable st' = Some pt \<and> T pt) \<and> s_AuthTable st' = s_AuthTable st \<and>
     s_CurrEpoch st' = s_CurrEpoch st \<and> s_signer st' = s_signer st"

lemma initValidators_table:
  assumes "genesis_laws e T" and "initValidators e db s vs (st, iv) = Inr (st', iv')"
    and "s_NextPosTable st = Some pt" and "T pt"
  shows "buildingTable T st st'"
  using assms(2-4)
proof (induction vs arbitrary: st iv pt)
  case (Cons v vs)
  obtain addr am where a: "PubKeyAddress e (vu_PubKey v) = Some addr" and am: "s_AccMapInitial st = Some am"
    using Cons.prems(1) by auto
  show ?case
  proof (cases "MapList am addr")
    case None
    with Cons.prems a am have "initValidators e db s vs (st, iv) = Inr (st', iv')" by simp
    from Cons.IH [OF this Cons.prems(2,3)] show ?thesis .
  next
    case (Some item)
    obtain st1 err where ins: "InsertPosItemInit e (am_Signer item) (GetBalance db s (am_Signer item))
        (am_Beneficiary item) (vu_PubKey v) (am_BlsKeyString item) st = Inr (st1, err)"
      using Cons.prems(1) a am Some by auto
    obtain pt1 where st1: "st1 = st\<lparr>s_NextPosTable := Some pt1\<rparr>" and "T pt1"
      by (rule InsertPosItemInit_table [OF assms(1) ins Cons.prems(2,3)])
    obtain st2 iv2 where run: "initValidators e db s vs (st2, iv2) = Inr (st', iv')"
      and st2: "s_NextPosTable st2 = Some pt1" "s_AuthTable st2 = s_AuthTable st" "s_CurrEpoch st2 = s_CurrEpoch st"
        "s_signer st2 = s_signer st"
      using Cons.prems(1) a am Some ins by (auto simp: st1 split: if_splits)
    from Cons.IH [OF run st2(1) \<open>T pt1\<close>] st2 show ?thesis by (simp add: buildingTable_def)
  qed
qed (auto simp: buildingTable_def)

definition epochMembers :: "('c, 'b, 's, 'l, 'x) EthermintApplication \<Rightarrow> nat" where
  "epochMembers app =
     (case cev_PosTable (s_CurrEpoch (a_strategy app)) of None \<Rightarrow> 0 | Some pt \<Rightarrow> card (dom (PosItemMap pt)))"

text \<open>The state Tendermint meets when it calls \<open>InitChain\<close>.\<close>

definition genesis_state ::
  "('x PosTable \<Rightarrow> bool) \<Rightarrow> AccountMap \<Rightarrow> ('c, 'b, 's, 'l, 'x) EthermintApplication \<Rightarrow> bool" where
  "genesis_state T am app \<longleftrightarrow>
     world_ok T (worldOf app) \<and> money_ok (a_strategy app) \<and> 0 \<le> SelectCount (s_CurrEpoch (a_strategy app)) \<and>
     s_signer (a_strategy app) \<noteq> None \<and> recorded app = Map.empty \<and> s_AccMapInitial (a_strategy app) = Some am"

lemma InitChain_progress:
  assumes L: "progress_laws N T" "genesis_laws (ne_env N) T" and g: "genesis_state T am app"
    and acc: "genesis_accepted (ne_env N) (ne_db N) us app" "all_known (ne_env N) am us" and "us \<noteq> []"
  obtains app' where "InitChain (ne_env N) (ne_db N) (ne_ps N) us app = Inr app'"
    and "SelectCount (s_CurrEpoch (a_strategy app')) = SelectCount (s_CurrEpoch (a_strategy app))"
    and "SelectCount (s_CurrEpoch (a_strategy app)) \<le> int (epochMembers app') \<Longrightarrow> node_ok T N app'"
proof -
  let ?e = "ne_env N"
  obtain st0 where t: "SetPosTableThreshold ?e (a_strategy app) = Inr st0"
    and ia: "inserts_accepted ?e (ne_db N) (currentState app) am us st0" and am: "s_AccMapInitial st0 = Some am"
    by (rule genesis_acceptedE [OF acc(1)]) (use g in \<open>simp add: genesis_state_def\<close>)
  obtain st1 iv where r: "initValidators ?e (ne_db N) (currentState app) us (st0, []) = Inr (st1, iv)" and "iv \<noteq> []"
    using initValidators_all [OF am ia acc(2), of "[]"] \<open>us \<noteq> []\<close> by (elim exE conjE) simp
  obtain pt1 th where "s_NextPosTable (a_strategy app) = Some pt1"
    and "st0 = (a_strategy app)\<lparr>s_NextPosTable := Some (SetThreshold ?e pt1 th)\<rparr>"
    using t by (auto simp: SetPosTableThreshold_def split: if_splits)
  moreover have "T pt1" using g calculation(1) by (simp add: genesis_state_def worldOf_def)
  ultimately obtain pt0 where st0: "s_NextPosTable st0 = Some pt0" "T pt0" "s_AuthTable st0 = s_AuthTable (a_strategy app)"
    "s_CurrEpoch st0 = s_CurrEpoch (a_strategy app)" "s_signer st0 = s_signer (a_strategy app)"
    using L(2) by (simp add: genesis_laws_def)
  from initValidators_table [OF L(2) r st0(1,2)] obtain pt where pt: "s_NextPosTable st1 = Some pt" "T pt"
    and st1: "s_AuthTable st1 = s_AuthTable (a_strategy app)" "s_CurrEpoch st1 = s_CurrEpoch (a_strategy app)"
      "s_signer st1 = s_signer (a_strategy app)"
    using st0 by (auto simp: buildingTable_def)
  obtain at where at: "EthAuthTable (a_vars app) = Some at" "s_AuthTable (a_strategy app) \<noteq> None"
    using g by (auto simp: genesis_state_def worldOf_def)
  define cur where "cur = ExportSortedSigners ?e (CopyPosTable ?e (InitStruct ?e pt))"
  define app1 where "app1 = app\<lparr>a_strategy := (SetInitialValidators iv st1)\<lparr>s_NextPosTable := Some (InitStruct ?e pt),
       s_CurrEpoch := (s_CurrEpoch (SetInitialValidators iv st1))\<lparr>cev_PosTable := Some cur\<rparr>\<rparr>,
     a_vars := (a_vars app)\<lparr>CurrentPosTable := Some cur, EthAuthTableCopy := Some (CopyAuthTable ?e at)\<rparr>\<rparr>"
  have "EpochBlocks ?e \<noteq> 0" "s_NextPosTable (a_strategy app1) \<noteq> None" "s_AuthTable (a_strategy app1) \<noteq> None"
    using L(1) at(2) st1(1) by (simp_all add: progress_laws_def app1_def SetInitialValidators_def)
  then obtain s' where p: "SetPersistenceData ?e (ne_ps N) app1 = Inr (setCurrentState s' app1)"
    using SetPersistenceData_total by blast
  have run: "InitChain ?e (ne_db N) (ne_ps N) us app = Inr (setCurrentState s' app1)"
    using t r \<open>iv \<noteq> []\<close> pt at p
    by (simp add: InitChain_def Let_def SetInitialValidators_def app1_def cur_def)
  have T: "T (InitStruct ?e pt)" "drawable ?e cur"
    using L pt(2) table_lawsD(6) [of ?e T "InitStruct ?e pt"]
    by (auto simp: genesis_laws_def progress_laws_def cur_def)
  have "keyed ?e (recorded (setCurrentState s' app1))"
    using initValidators_spec [OF r, of "set us"] g SetPosTableThreshold_frame(2) [OF t]
    by (simp add: genesis_state_def recorded_def app1_def SetInitialValidators_def setCurrentState_def keyed_def)
  then have "node_ok T N (setCurrentState s' app1)"
    if "SelectCount (s_CurrEpoch (a_strategy app)) \<le> int (epochMembers (setCurrentState s' app1))"
    using that g st1 at T
    by (simp add: node_ok_def genesis_state_def worldOf_def epochTable_ok_def money_ok_def epochMembers_def
        app1_def SetInitialValidators_def setCurrentState_def)
  moreover have "SelectCount (s_CurrEpoch (a_strategy (setCurrentState s' app1))) =
      SelectCount (s_CurrEpoch (a_strategy app))"
    by (simp add: app1_def SetInitialValidators_def setCurrentState_def st1)
  ultimately show ?thesis using that run by blast
qed

text \<open>A first start followed by the handshake reaches such a state.\<close>

lemma Info_total:
  assumes "length (HeightArray w) \<le> length (VersionArray w)"
    and "TotalBalance (s_CurrEpoch (a_strategy app)) = Some t"
  obtains resp where "Info w en app = Inr (mapStrategy (\<lambda>st. st\<lparr>s_CurrEpoch := (s_CurrEpoch st)
      \<lparr>MinorBonus := Some (t div halfYearlyDivisor)\<rparr>\<rparr>) app, resp)"
proof -
  obtain v where "versionAt w (a_strategy app) (big_Int64 (b_Number en (CurrentBlock en (be_chain (a_backend app))))) 1 =
      Inr v" using versionAt_total [OF assms(1)] by blast
  moreover have "0 < halfYearlyDivisor" by (simp add: halfYearlyDivisor_def)
  ultimately show ?thesis using that assms(2) by (simp add: Info_def Let_def)
qed

lemma started_genesis_state:
  assumes "genesis_laws e T" and "a_strategy app = freshStrategy e fl chainId t m" and "0 \<le> t"
    and "EthAuthTable (a_vars app) \<noteq> None" and "0 \<le> fl_SelectCount fl"
  shows "genesis_state T \<lparr>MapList = m, FilePath = []\<rparr>
    (mapStrategy (\<lambda>st. st\<lparr>s_CurrEpoch := (s_CurrEpoch st)\<lparr>MinorBonus := Some (t div halfYearlyDivisor)\<rparr>\<rparr>) app)"
proof -
  have "0 < halfYearlyDivisor" by (simp add: halfYearlyDivisor_def)
  with assms show ?thesis
    by (simp add: genesis_state_def mapStrategy_def worldOf_def freshStrategy_def NewStrategy_def money_ok_def
        recorded_def genesis_laws_def pos_imp_zdiv_nonneg_iff)
qed

lemma genesis_progress:
  assumes L: "progress_laws N T" "genesis_laws (ne_env N) T" and "range_order ordG"
    and "fresh_start (ne_env N) (ne_en N) (ne_ps N) b" and "genesis_ok gf alloc ea vs"
    and tb: "tb = (\<Sum>a \<in> dom alloc. the (alloc a))" "0 \<le> tb" "big_Int64 tb \<noteq> 0"
    and "length vs \<le> length (ea_EthAccounts ea)" and a: "announced (ne_env N) vs us" and "us \<noteq> []"
    and "EthAuthTable gv \<noteq> None" and "0 \<le> fl_SelectCount fl"
  obtains app0 m app1 resp where
    "startApp (ne_env N) (ne_en N) (ne_ps N) (ne_w N) setHead ordG gf fl chainId b gv = Inr app0"
    and "Info (ne_w N) (ne_en N) app0 = Inr (app1, resp)"
    and "a_strategy app0 = freshStrategy (ne_env N) fl chainId tb m"
    and "\<forall>i < length vs. m (gv_TmAddress (vs ! i)) = Some (genesisItem (ne_env N) ea vs i)"
    and "app1 = mapStrategy (\<lambda>st. st\<lparr>s_CurrEpoch := (s_CurrEpoch st)
      \<lparr>MinorBonus := Some (tb div halfYearlyDivisor)\<rparr>\<rparr>) app0"
    and "genesis_accepted (ne_env N) (ne_db N) us app1 \<longrightarrow>
      (\<exists>app2. InitChain (ne_env N) (ne_db N) (ne_ps N) us app1 = Inr app2 \<and>
        SelectCount (s_CurrEpoch (a_strategy app2)) = fl_SelectCount fl \<and>
        (fl_SelectCount fl \<le> int (epochMembers app2) \<longrightarrow> node_ok T N app2))"
proof -
  have k: "length vs = min (length vs) (length (ea_EthAccounts ea))" using assms(9) by simp
  obtain app0 m where s: "startApp (ne_env N) (ne_en N) (ne_ps N) (ne_w N) setHead ordG gf fl chainId b gv = Inr app0"
    and st: "a_strategy app0 = freshStrategy (ne_env N) fl chainId tb m"
    and v: "a_vars app0 = gv\<lparr>Bigguy := HexToAddress (ne_env N) (BigguyStr (ne_w N))\<rparr>"
    and m: "dom m = gv_TmAddress ` set vs" "\<forall>i < length vs. m (gv_TmAddress (vs ! i)) = Some (genesisItem (ne_env N) ea vs i)"
    using startApp_fresh [OF assms(3-5) k tb(3) [unfolded tb(1)], of "ne_w N" setHead fl chainId gv] by (auto simp: tb(1))
  let ?app1 = "mapStrategy (\<lambda>st. st\<lparr>s_CurrEpoch := (s_CurrEpoch st)\<lparr>MinorBonus := Some (tb div halfYearlyDivisor)\<rparr>\<rparr>) app0"
  have "length (HeightArray (ne_w N)) \<le> length (VersionArray (ne_w N))" using L(1) by (simp add: progress_laws_def)
  moreover have "TotalBalance (s_CurrEpoch (a_strategy app0)) = Some tb" by (simp add: st freshStrategy_def)
  ultimately obtain resp where i: "Info (ne_w N) (ne_en N) app0 = Inr (?app1, resp)" by (rule Info_total)
  have "EthAuthTable (a_vars app0) \<noteq> None" using assms(12) by (simp add: v)
  note g = started_genesis_state [OF L(2) st tb(2) this assms(13)]
  have sc: "SelectCount (s_CurrEpoch (a_strategy ?app1)) = fl_SelectCount fl"
    by (simp add: mapStrategy_def st freshStrategy_def)
  have ic: "\<exists>app2. InitChain (ne_env N) (ne_db N) (ne_ps N) us ?app1 = Inr app2 \<and>
        SelectCount (s_CurrEpoch (a_strategy app2)) = fl_SelectCount fl \<and>
        (fl_SelectCount fl \<le> int (epochMembers app2) \<longrightarrow> node_ok T N app2)"
    if acc: "genesis_accepted (ne_env N) (ne_db N) us ?app1"
    by (rule InitChain_progress [OF L g acc announced_all_known [OF a m(1)] assms(11)]) (simp add: sc)
  show ?thesis by (rule that [OF s i st m(2) refl]) (intro impI ic)
qed

section \<open>A txfilter that keeps the laws\<close>

text \<open>A table of at most two signers, drawn from in turn, whose invariant the laws can be checked for.\<close>

definition liveSigners :: "unit PosTable \<Rightarrow> address list" where
  "liveSigners pt = [s \<leftarrow> [1, 2]. PosItemMap pt s \<noteq> None]"

definition livePick :: "unit PosTable \<Rightarrow> int \<Rightarrow> address \<times> PosItem" where
  "livePick pt i =
     (let ss = liveSigners pt; s = ss ! nat (i mod int (length ss)) in (s, the (PosItemMap pt s)))"

definition liveInsert :: "unit PosTable \<Rightarrow> address \<Rightarrow> PosItem \<Rightarrow> unit PosTable \<times> string option" where
  "liveInsert pt a it =
     (if a \<in> {1, 2} \<and> PosItemMap pt a = None \<and> UnbondPosItemMap pt a = None \<and>
         TmAddressToSignerMap pt (TmAddress it) = None \<and> 0 < Slots it
      then InsertPosItem sampleEnv pt a it else (pt, Some ''rejected''))"

definition liveEnv :: "unit env" where
  "liveEnv = sampleEnv
     \<lparr>SelectItemBySeedValue := (\<lambda>pt seed i. livePick pt i), SelectItemByHeightValue := livePick,
      InsertPosItem := liveInsert, ExportSortedSigners := (\<lambda>pt. pt\<lparr>SortedSigners := liveSigners pt\<rparr>)\<rparr>"

definition liveTable :: "unit PosTable \<Rightarrow> bool" where
  "liveTable pt \<longleftrightarrow>
     (\<forall>s it. PosItemMap pt s = Some it \<longrightarrow> (s = 1 \<or> s = 2) \<and> pk_Type (pi_PubKey it) = TmAddress it \<and> TmAddress it \<noteq> [] \<and>
        0 < Slots it \<and> TmAddressToSignerMap pt (TmAddress it) = Some s) \<and>
     (\<forall>a s. TmAddressToSignerMap pt a = Some s \<longrightarrow> PosItemMap pt s \<noteq> None \<or> UnbondPosItemMap pt s \<noteq> None)"

definition liveNodeEnv :: "(Header list, Header, store, unit, unit) nodeenv" where
  "liveNodeEnv = sampleNodeEnv\<lparr>ne_env := liveEnv\<rparr>"

lemmas live_env_defs = liveEnv_def sampleEnv_def

lemma live_ops [simp]:
  "SelectItemBySeedValue liveEnv pt seed i = livePick pt i" "SelectItemByHeightValue liveEnv pt i = livePick pt i"
  "InsertPosItem liveEnv = liveInsert" "ExportSortedSigners liveEnv pt = pt\<lparr>SortedSigners := liveSigners pt\<rparr>"
  "CopyPosTable liveEnv pt = pt" "InitStruct liveEnv pt = pt" "TryRemoveUnbondPosItems liveEnv pt h ss = (pt, 0)"
  "TopKSigners liveEnv pt n = take (nat n) (SortedSigners pt)" "EpochBlocks liveEnv = 200"
  "PubKeyAddress liveEnv k = (if pk_Type k = [] then None else Some (pk_Type k))"
  "SetThreshold liveEnv pt t = pt\<lparr>Threshold := t\<rparr>"
  "NewPosItem liveEnv h n pk tm bls b = \<lparr>Slots = n, pi_PubKey = pk, TmAddress = tm, pi_BlsKeyString = bls,
     Beneficiary = b, pi_Height = h, BeneficiaryBonus = Some 0\<rparr>"
  by (simp_all add: live_env_defs)

lemma liveTableI:
  assumes "\<And>s it. PosItemMap pt s = Some it \<Longrightarrow> (s = 1 \<or> s = 2) \<and> pk_Type (pi_PubKey it) = TmAddress it \<and>
      TmAddress it \<noteq> [] \<and> 0 < Slots it \<and> TmAddressToSignerMap pt (TmAddress it) = Some s"
    and "\<And>a s. TmAddressToSignerMap pt a = Some s \<Longrightarrow> PosItemMap pt s \<noteq> None \<or> UnbondPosItemMap pt s \<noteq> None"
  shows "liveTable pt"
  using assms unfolding liveTable_def by blast

lemma liveTableD:
  assumes "liveTable pt"
  shows "PosItemMap pt s = Some it \<Longrightarrow> (s = 1 \<or> s = 2) \<and> pk_Type (pi_PubKey it) = TmAddress it \<and>
      TmAddress it \<noteq> [] \<and> 0 < Slots it \<and> TmAddressToSignerMap pt (TmAddress it) = Some s"
    and "TmAddressToSignerMap pt a = Some s \<Longrightarrow> PosItemMap pt s \<noteq> None \<or> UnbondPosItemMap pt s \<noteq> None"
  using assms unfolding liveTable_def by blast+

lemma liveSigners_set:
  assumes "liveTable pt"
  shows "set (liveSigners pt) = dom (PosItemMap pt)"
proof -
  have "dom (PosItemMap pt) \<subseteq> {1, 2}" using liveTableD(1) [OF assms] by blast
  moreover have "set (liveSigners pt) = {1, 2} \<inter> dom (PosItemMap pt)" by (auto simp: liveSigners_def)
  ultimately show ?thesis by blast
qed

lemma liveSigners_distinct [simp]: "distinct (liveSigners pt)"
  by (simp add: liveSigners_def)

lemma liveTable_sorted [simp]: "liveTable (pt\<lparr>SortedSigners := ss\<rparr>) = liveTable pt"
  "liveSigners (pt\<lparr>SortedSigners := ss\<rparr>) = liveSigners pt"
  by (simp_all add: liveTable_def liveSigners_def)

lemma livePick_member:
  assumes "liveTable pt" and "dom (PosItemMap pt) \<noteq> {}"
  shows "fst (livePick pt i) \<in> dom (PosItemMap pt)" and "snd (livePick pt i) = the (PosItemMap pt (fst (livePick pt i)))"
proof -
  have "0 < int (length (liveSigners pt))" using assms liveSigners_set by fastforce
  then have "nat (i mod int (length (liveSigners pt))) < length (liveSigners pt)"
    by (metis nat_less_iff pos_mod_bound pos_mod_sign)
  then show "fst (livePick pt i) \<in> dom (PosItemMap pt)"
    using liveSigners_set [OF assms(1)] nth_mem by (fastforce simp: livePick_def Let_def)
qed (simp add: livePick_def Let_def)

lemma even_i64 [simp]: "even (i64 x) \<longleftrightarrow> even x"
  unfolding i64_def by (simp add: dvd_mod_iff)

lemma live_drawn:
  assumes "liveTable pt" and "dom (PosItemMap pt) \<noteq> {}"
  shows "drawn liveEnv pt seed height j =
    Some (TmAddress (snd (livePick pt (if height = -1 then int j else i64 (height + int j)))))"
proof -
  have "pk_Type (pi_PubKey (snd (livePick pt i))) = TmAddress (snd (livePick pt i)) \<and> TmAddress (snd (livePick pt i)) \<noteq> []" for i
    using livePick_member [OF assms, of i] assms(1) unfolding liveTable_def by (metis domD option.sel)
  then show ?thesis by (simp add: drawn_def pickItem_def)
qed

lemma live_two_draws:
  assumes "liveTable pt" and "dom (PosItemMap pt) = {1, 2}"
  shows "drawn liveEnv pt seed height 0 \<noteq> drawn liveEnv pt seed height 1"
proof -
  have ne: "dom (PosItemMap pt) \<noteq> {}" using assms(2) by simp
  have ss: "liveSigners pt = [1, 2]" using assms(2) by (auto simp: liveSigners_def domIff)
  have pick: "fst (livePick pt i) = (if even i then 1 else 2)" for i
    by (auto simp: livePick_def Let_def ss even_iff_mod_2_eq_zero odd_iff_mod_2_eq_one)
  let ?i = "\<lambda>j. if height = -1 then int j else i64 (height + int j)"
  let ?it = "\<lambda>j. snd (livePick pt (?i j))"
  have "TmAddressToSignerMap pt (TmAddress (?it j)) = Some (fst (livePick pt (?i j)))" for j
    using livePick_member [OF assms(1) ne, of "?i j"] assms(1) unfolding liveTable_def by (metis domD option.sel)
  moreover have "fst (livePick pt (?i 0)) \<noteq> fst (livePick pt (?i 1))" by (simp add: pick)
  ultimately have "TmAddress (?it 0) \<noteq> TmAddress (?it 1)" by (metis option.inject)
  then show ?thesis by (simp only: live_drawn [OF assms(1) ne] option.inject not_False_eq_True)
qed

lemma live_drawable:
  assumes "liveTable pt"
  shows "drawable liveEnv pt"
  unfolding drawable_def
proof (intro allI impI)
  fix seed height want
  assume w: "want \<le> card (dom (PosItemMap pt))"
  have sub: "dom (PosItemMap pt) \<subseteq> {1, 2}" using liveTableD(1) [OF assms] by blast
  have "card (dom (PosItemMap pt)) \<le> card {1, 2 :: address}" by (rule card_mono [OF _ sub]) simp
  then have c: "card (dom (PosItemMap pt)) \<le> 2" by simp
  show "(\<exists>n. enoughDraws liveEnv pt seed height n want) \<and> enoughDraws liveEnv pt seed height want 0"
  proof (cases "dom (PosItemMap pt) = {}")
    case True
    with w have "want = 0" by simp
    then show ?thesis by (auto simp: enoughDraws_def intro: exI [of _ 0])
  next
    case False
    note d = live_drawn [OF assms False, of seed height]
    have two: "drawn liveEnv pt seed height ` {0..<2} = {drawn liveEnv pt seed height 0, drawn liveEnv pt seed height 1}"
      by (auto simp: numeral_2_eq_2 less_Suc_eq)
    have "want \<le> card (drawn liveEnv pt seed height ` {0..<2})"
    proof (cases "dom (PosItemMap pt) = {1, 2}")
      case True
      from live_two_draws [OF assms this, of seed height] w c show ?thesis unfolding two by simp
    next
      case False
      with sub have "card (dom (PosItemMap pt)) < card {1, 2 :: address}" by (intro psubset_card_mono) auto
      then have "want \<le> 1" using w by simp
      moreover have "1 \<le> card {drawn liveEnv pt seed height 0, drawn liveEnv pt seed height 1}" by (simp add: Suc_le_eq card_gt_0_iff)
      ultimately show ?thesis unfolding two by simp
    qed
    then have "enoughDraws liveEnv pt seed height 2 want" by (simp add: enoughDraws_def d)
    moreover have "enoughDraws liveEnv pt seed height want 0" using w c by (simp add: enoughDraws_def d)
    ultimately show ?thesis by blast
  qed
qed

lemma live_postable:
  assumes "liveTable pt"
  shows "postable_ok liveEnv (pt\<lparr>SortedSigners := liveSigners pt\<rparr>)"
proof -
  have "set (take k (liveSigners pt)) \<subseteq> dom (PosItemMap pt)" for k
    using set_take_subset [of k "liveSigners pt"] liveSigners_set [OF assms] by simp
  moreover have "pk_Type (pi_PubKey it) = TmAddress it \<and> TmAddress it \<noteq> [] \<and> 0 < Slots it \<and>
      TmAddressToSignerMap pt (TmAddress it) = Some s" if "PosItemMap pt s = Some it" for s it
    using assms that by (simp add: liveTable_def)
  ultimately show ?thesis
    using liveSigners_set [OF assms] by (simp add: postable_ok_def) (metis option.inject)
qed

lemma live_remove:
  assumes "liveTable pt" and "s \<in> dom (PosItemMap pt)" and "RemovePosItem liveEnv pt s h b = (pt', err)"
  shows "liveTable pt' \<and> (err = None \<or> s \<in> dom (UnbondPosItemMap pt'))"
proof -
  obtain x where pt': "PosItemMap pt' = (PosItemMap pt)(s := None)" "UnbondPosItemMap pt' = (UnbondPosItemMap pt)(s \<mapsto> x)"
    "TmAddressToSignerMap pt' = TmAddressToSignerMap pt" and "err = None"
    using assms(2,3) by (cases b) (auto simp: live_env_defs)
  moreover have "liveTable pt'"
  proof (rule liveTableI)
    fix t it
    assume "PosItemMap pt' t = Some it"
    then have "PosItemMap pt t = Some it" by (simp add: pt' split: if_splits)
    from liveTableD(1) [OF assms(1) this] show "(t = 1 \<or> t = 2) \<and> pk_Type (pi_PubKey it) = TmAddress it \<and>
      TmAddress it \<noteq> [] \<and> 0 < Slots it \<and> TmAddressToSignerMap pt' (TmAddress it) = Some t" by (simp add: pt')
  qed (use liveTableD(2) [OF assms(1)] in \<open>simp add: pt'\<close>)
  ultimately show ?thesis by simp
qed

lemma live_insert:
  assumes "liveTable pt" and "pk_Type (pi_PubKey it) = TmAddress it" and "TmAddress it \<noteq> []"
  shows "liveTable (fst (liveInsert pt a it))"
proof (cases "snd (liveInsert pt a it)")
  case None
  let ?pt = "fst (liveInsert pt a it)"
  from None have pt': "PosItemMap ?pt = (PosItemMap pt)(a \<mapsto> it)" "UnbondPosItemMap ?pt = UnbondPosItemMap pt"
    "TmAddressToSignerMap ?pt = (TmAddressToSignerMap pt)(TmAddress it \<mapsto> a)"
    and ok: "a = 1 \<or> a = 2" "0 < Slots it" "TmAddressToSignerMap pt (TmAddress it) = None"
    by (auto simp: liveInsert_def sampleEnv_def split: if_splits)
  show ?thesis
  proof (rule liveTableI)
    fix t jt
    assume j: "PosItemMap ?pt t = Some jt"
    show "(t = 1 \<or> t = 2) \<and> pk_Type (pi_PubKey jt) = TmAddress jt \<and> TmAddress jt \<noteq> [] \<and> 0 < Slots jt \<and>
        TmAddressToSignerMap ?pt (TmAddress jt) = Some t"
    proof (cases "t = a")
      case True
      with j have "jt = it" by (simp add: pt')
      with True ok assms(2,3) show ?thesis unfolding pt' by simp
    next
      case False
      with j have "PosItemMap pt t = Some jt" by (simp add: pt')
      note old = liveTableD(1) [OF assms(1) this]
      with ok(3) have "TmAddress jt \<noteq> TmAddress it" by auto
      with old show ?thesis by (simp add: pt')
    qed
  next
    fix x t
    assume "TmAddressToSignerMap ?pt x = Some t"
    then show "PosItemMap ?pt t \<noteq> None \<or> UnbondPosItemMap ?pt t \<noteq> None"
      using liveTableD(2) [OF assms(1), of x t] by (simp add: pt' split: if_splits)
  qed
next
  case (Some msg)
  then have "fst (liveInsert pt a it) = pt" by (auto simp: liveInsert_def sampleEnv_def split: if_splits)
  with assms(1) show ?thesis by simp
qed

lemma live_table_laws: "table_laws liveEnv liveTable"
proof -
  have "drawable liveEnv (pt\<lparr>SortedSigners := liveSigners pt\<rparr>)" if "liveTable pt" for pt
    using that by (intro live_drawable) simp
  moreover have "liveTable (pt\<lparr>ChangedFlagThisBlock := b\<rparr>)" if "liveTable pt" for pt b
    using that by (simp add: liveTable_def)
  moreover have "s \<in> dom (PosItemMap pt) \<union> dom (UnbondPosItemMap pt)"
    if "liveTable pt" "TmAddressToSignerMap pt a = Some s" for pt a s
    using liveTableD(2) [OF that] by auto
  ultimately show ?thesis
    unfolding table_laws_def using live_postable by (simp, intro conjI allI impI) (auto dest: live_remove)
qed

lemma live_genesis_laws: "genesis_laws liveEnv liveTable"
proof -
  have "liveTable (CreatePosTable liveEnv)" by (simp add: liveTable_def live_env_defs samplePosTable_def)
  moreover have "liveTable (pt\<lparr>Threshold := t\<rparr>)" if "liveTable pt" for pt t using that by (simp add: liveTable_def)
  ultimately show ?thesis unfolding genesis_laws_def using live_insert by simp
qed

lemma live_progress_laws: "progress_laws liveNodeEnv liveTable"
proof -
  have "ne_env liveNodeEnv = liveEnv" "ne_w liveNodeEnv = sampleVersion" "ne_en liveNodeEnv = sampleStoreEth"
    by (simp_all add: liveNodeEnv_def sampleNodeEnv_def)
  moreover have "node_laws liveNodeEnv"
    using sample_node_laws by (simp add: node_laws_def liveNodeEnv_def)
  moreover have "tx_keeps_world (sampleStoreEth :: (Header list, Header, store, unit, unit world) ethenv) liveTable"
    by (simp add: tx_keeps_world_def sampleStoreEth_def)
  moreover have "healthy_chain (sampleStoreEth :: (Header list, Header, store, unit, unit world) ethenv)"
    by (simp add: healthy_chain_def sampleStoreEth_def del: split_paired_Ex)
  ultimately show ?thesis
    using live_table_laws by (simp add: progress_laws_def sampleVersion_def)
qed

definition liveNode :: "(Header list, Header, store, unit, unit) EthermintApplication" where
  "liveNode = mapStrategy (SetSigner 15) sampleNode"

lemma sample_liveTable: "liveTable samplePosTable"
  by (auto simp: liveTable_def samplePosTable_def sampleItem_def sampleKey_def split: if_splits)

lemma live_node_ok: "node_ok liveTable liveNodeEnv liveNode"
proof -
  have "ne_env liveNodeEnv = liveEnv" by (simp add: liveNodeEnv_def)
  then show ?thesis
    using sample_liveTable live_drawable [OF sample_liveTable]
    by (simp add: node_ok_def liveNode_def mapStrategy_def SetSigner_def worldOf_def sample_node_defs
        sampleStrategy_def NewStrategy_def epochTable_ok_def money_ok_def recorded_def keyed_def)
qed

text \<open>A round of the forwarding loop, the local check that follows it, and a block.\<close>

lemma live_fitting:
  "fitting liveNodeEnv [TakeEvent obj, CheckEvent txBytes CheckTxType_Local, BlockEvent sampleBlock] liveNode"
proof -
  let ?app = "storeEvent obj liveNode"
  have ok: "node_ok liveTable liveNodeEnv ?app" by (rule storeEvent_ok [OF live_node_ok])
  have "s_signer (a_strategy ?app) \<noteq> None" using ok by (simp add: node_ok_def)
  then obtain app r where c: "CheckTx (ne_te liveNodeEnv) (ne_db liveNodeEnv) txBytes CheckTxType_Local ?app = Inr (app, r)"
    by (rule CheckTx_progress [OF _ storeEvent_check_fits])
  have ok2: "node_ok liveTable liveNodeEnv app" by (rule CheckTx_preserves [OF ok c])
  have "stableView app = stableView ?app" using CheckTx_stable [OF c] by simp
  then have sc: "SelectCount (s_CurrEpoch (a_strategy app)) = 0"
    by (simp add: stableView_def mapBackend_def liveNode_def mapStrategy_def SetSigner_def sample_node_defs sampleStrategy_def)
  obtain ver :: uint64 where "4 \<le> ver"
    and "versionAt (ne_w liveNodeEnv) (a_strategy app) 600 5 = Inr ver"
    using that [of 4] that [of 5]
    by (cases "IsHarfForkPassed (s_HF (a_strategy app))") (simp_all add: liveNodeEnv_def sampleNodeEnv_def sample_version_600)
  then have "block_fits liveNodeEnv sampleBlock app"
    by (intro block_fits_modern [OF live_progress_laws ok2 sc]) (simp_all add: sampleBlock_def)
  then show ?thesis
    using c storeEvent_check_fits [of _ txBytes obj liveNode] by (simp split: option.splits sum.splits)
qed


text \<open>The same from genesis.\<close>

definition liveFlags :: startFlags where
  "liveFlags = (sampleFlags False)\<lparr>fl_SelectCount := 0\<rparr>"

definition liveVars :: "unit txfilterVars" where
  "liveVars = sampleVars\<lparr>EthAuthTable := Some sampleAuthTable\<rparr>"

definition liveBlock :: block where
  "liveBlock = sampleBlock\<lparr>bk_Begin := (bk_Begin sampleBlock)\<lparr>bb_Height := 1\<rparr>\<rparr>"

lemma live_fields [simp]:
  "ne_env liveNodeEnv = liveEnv" "ne_en liveNodeEnv = sampleStoreEth" "ne_ps liveNodeEnv = samplePersist"
  "ne_w liveNodeEnv = sampleVersion" "ne_db liveNodeEnv = sampleStoreDb"
  by (simp_all add: liveNodeEnv_def sampleNodeEnv_def)

lemma live_fresh:
  "fresh_start liveEnv (sampleStoreEth :: (Header list, Header, store, unit, unit world) ethenv) samplePersist sampleBlank"
  using sample_fresh by (simp add: fresh_start_def liveEnv_def)

lemma live_announced: "announced liveEnv sampleGenDoc sampleGenesis"
  by (simp add: announced_def sampleGenDoc_def sampleGenesis_def sampleKey_def)

lemma live_accepted:
  assumes "a_strategy app = (freshStrategy liveEnv liveFlags 15 1000 m)
      \<lparr>s_CurrEpoch := (s_CurrEpoch (freshStrategy liveEnv liveFlags 15 1000 m))\<lparr>MinorBonus := q\<rparr>\<rparr>"
    and "\<forall>i < length sampleGenDoc.
      m (gv_TmAddress (sampleGenDoc ! i)) = Some (genesisItem liveEnv sampleAccounts sampleGenDoc i)"
  shows "genesis_accepted liveEnv sampleStoreDb sampleGenesis app"
proof -
  have "m ''A1'' = Some \<lparr>am_Signer = 1, am_Beneficiary = 3, am_BlsKeyString = ''k1''\<rparr>"
    "m ''A2'' = Some \<lparr>am_Signer = 2, am_Beneficiary = 4, am_BlsKeyString = ''k2''\<rparr>"
    using assms(2) [THEN spec, of 0] assms(2) [THEN spec, of 1]
    by (simp_all add: sampleGenDoc_def genesisItem_def sampleAccounts_def live_env_defs)
  then show ?thesis
    by (simp add: genesis_accepted_def assms(1) SetPosTableThreshold_def InsertPosItemInit_def big_Int64_def big_Div_def
        i64_def freshStrategy_def NewStrategy_def sampleGenesis_def sampleKey_def liveInsert_def Let_def
        sampleStoreDb_def samplePosTable_def live_env_defs)
qed

lemma live_start_ok:
  "(0 :: int) \<le> 1000" "big_Int64 1000 \<noteq> 0" "length sampleGenDoc \<le> length (ea_EthAccounts sampleAccounts)"
  "sampleGenesis \<noteq> []" "EthAuthTable liveVars \<noteq> None" "0 \<le> fl_SelectCount liveFlags" "\<not> fl_RollbackFlag liveFlags"
  "fl_SelectCount liveFlags \<le> int n"
  by (simp_all add: big_Int64_def i64_def sampleGenDoc_def sampleAccounts_def sampleGenesis_def liveVars_def liveFlags_def
      sampleFlags_def)

lemma live_block_version: "versionAt sampleVersion st 1 5 = Inr 5"
  by (simp add: versionAt_def sampleVersion_def forkVersion_none numeral_nat less_Suc_eq nth_Cons')

lemma live_genesis:
  obtains app0 app1 resp app2 where
    "startApp liveEnv (sampleStoreEth :: (Header list, Header, store, unit, unit world) ethenv) samplePersist
      sampleVersion (\<lambda>h c. c) sortedKeys sampleFiles liveFlags 15 sampleBlank liveVars = Inr app0"
    and "Info sampleVersion (sampleStoreEth :: (Header list, Header, store, unit, unit world) ethenv) app0 = Inr (app1, resp)"
    and "genesis_accepted liveEnv sampleStoreDb sampleGenesis app1"
    and "InitChain liveEnv sampleStoreDb samplePersist sampleGenesis app1 = Inr app2"
    and "node_ok liveTable liveNodeEnv app2" and "fitting liveNodeEnv [BlockEvent liveBlock] app2"
proof -
  note o = live_start_ok
  obtain app0 m app1 resp where s: "startApp liveEnv (sampleStoreEth :: (Header list, Header, store, unit, unit world) ethenv)
      samplePersist sampleVersion (\<lambda>h c. c) sortedKeys sampleFiles liveFlags 15 sampleBlank liveVars = Inr app0"
    and i: "Info sampleVersion (sampleStoreEth :: (Header list, Header, store, unit, unit world) ethenv) app0 = Inr (app1, resp)"
    and st: "a_strategy app0 = freshStrategy liveEnv liveFlags 15 1000 m"
    and m: "\<forall>i < length sampleGenDoc.
      m (gv_TmAddress (sampleGenDoc ! i)) = Some (genesisItem liveEnv sampleAccounts sampleGenDoc i)"
    and app1: "app1 = mapStrategy (\<lambda>st. st\<lparr>s_CurrEpoch := (s_CurrEpoch st)
      \<lparr>MinorBonus := Some (1000 div halfYearlyDivisor)\<rparr>\<rparr>) app0"
    and ic: "genesis_accepted liveEnv sampleStoreDb sampleGenesis app1 \<longrightarrow>
      (\<exists>app2. InitChain liveEnv sampleStoreDb samplePersist sampleGenesis app1 = Inr app2 \<and>
        SelectCount (s_CurrEpoch (a_strategy app2)) = fl_SelectCount liveFlags \<and>
        (fl_SelectCount liveFlags \<le> int (epochMembers app2) \<longrightarrow> node_ok liveTable liveNodeEnv app2))"
    by (rule genesis_progress [where setHead = "\<lambda>h c. c" and chainId = 15, OF live_progress_laws, unfolded live_fields, OF live_genesis_laws range_order_sortedKeys
        live_fresh sample_genesis_ok sample_total [symmetric] o(1,2,3) live_announced o(4,5,6)])
  have acc: "genesis_accepted liveEnv sampleStoreDb sampleGenesis app1"
    by (rule live_accepted [OF _ m]) (simp add: app1 mapStrategy_def st)
  obtain app2 where c: "InitChain liveEnv sampleStoreDb samplePersist sampleGenesis app1 = Inr app2"
    and ok: "node_ok liveTable liveNodeEnv app2" and z: "SelectCount (s_CurrEpoch (a_strategy app2)) = 0"
    using ic acc by (auto simp: liveFlags_def)
  have "block_fits liveNodeEnv liveBlock app2"
    by (rule block_fits_modern [where ver = 5, OF live_progress_laws ok z])
      (simp_all add: liveBlock_def sampleBlock_def live_block_version word_le_nat_alt)
  then have "fitting liveNodeEnv [BlockEvent liveBlock] app2" by (simp split: option.splits sum.splits)
  from that [OF s i acc c ok this] show ?thesis .
qed

end
