(* ===== verification/NodeRestart.thy ===== *)
theory NodeRestart
  imports NodeProgress
begin

text \<open>
  Crashes and restarts of a node. A process that dies leaves only what go-ethereum's database holds. With
  the default garbage collection (\<open>gcmode=full\<close>) the account states are written only now and then
  (\<open>trie_time_limit\<close>), so that the chain reopens at the last block whose state was written, which may be any
  block the node has committed. \<open>ethermintCmd\<close> then makes a new application from it (\<open>startApp\<close> with
  \<open>InitPersistData\<close>), Tendermint makes its handshake (\<open>Info\<close>), gives the node the blocks after that one
  again and goes on. The theory carries the round trip of the persisted strategy (\<open>AppBlockProps\<close>) along
  whole lives of a node, in which the process may die at any moment.
\<close>

section \<open>What is relied on\<close>

text \<open>The code stored at the two addresses that hold the tables.\<close>

definition codeAt :: "'x env \<Rightarrow> ('s, 'x) persist \<Rightarrow> 's \<Rightarrow> bytes \<times> bytes" where
  "codeAt e ps s = (GetCode ps s (SendToLock e), GetCode ps s (SendToUnlock e))"

text \<open>Balances and transactions do not change it: these addresses are not contracts.\<close>

definition accounts_keep_code ::
  "'x env \<Rightarrow> 's statedb \<Rightarrow> ('s, 'x) persist \<Rightarrow> ('c, 'b, 's, 'l, 'w) ethenv \<Rightarrow> bool" where
  "accounts_keep_code e db ps en \<longleftrightarrow>
     (\<forall>s a v. codeAt e ps (SetBalance db s a v) = codeAt e ps s) \<and>
     (\<forall>s a v. codeAt e ps (AddBalance db s a v) = codeAt e ps s) \<and>
     (\<forall>s h k i. codeAt e ps (Prepare en s h k i) = codeAt e ps s) \<and>
     (\<forall>bc h tx i g s u w g' s' u' w' r.
        ApplyTransactionWithInfo en bc h tx i (g, s, u, w) = ((g', s', u', w'), r) \<longrightarrow>
        codeAt e ps s' = codeAt e ps s)"

text \<open>The database: committing a state changes nothing that can be read from it, and a written block
  brings its state back.\<close>

definition durable_chain :: "'x env \<Rightarrow> ('s, 'x) persist \<Rightarrow> ('c, 'b, 's, 'l, 'w) ethenv \<Rightarrow> bool" where
  "durable_chain e ps en \<longleftrightarrow>
     (\<forall>s s' h. state_Commit en s = (s', Inr h) \<longrightarrow>
        codeAt e ps s' = codeAt e ps s \<and> TryGet ps s' = TryGet ps s \<and> GetState ps s' = GetState ps s) \<and>
     (\<forall>bc b rs ls s bc'. WriteBlockWithState en bc b rs ls s = (bc', None) \<longrightarrow> bc_State en bc' = Inr s)"

definition restart_laws :: "('c, 'b, 's, 'l, 'x) nodeenv \<Rightarrow> bool" where
  "restart_laws N \<longleftrightarrow>
     node_laws N \<and> storage_laws (ne_ps N) \<and> places_ok (ne_env N) \<and>
     accounts_keep_code (ne_env N) (ne_db N) (ne_ps N) (ne_en N) \<and> durable_chain (ne_env N) (ne_ps N) (ne_en N) \<and>
     (\<forall>h c. bc_State (ne_en N) (ne_upgradeConfig N h c) = bc_State (ne_en N) c) \<and>
     length (HeightArray (ne_w N)) \<le> length (VersionArray (ne_w N))"

lemma restart_lawsD:
  assumes "restart_laws N"
  shows "node_laws N" and "storage_laws (ne_ps N)" and "places_ok (ne_env N)"
    and "accounts_keep_code (ne_env N) (ne_db N) (ne_ps N) (ne_en N)"
    and "durable_chain (ne_env N) (ne_ps N) (ne_en N)"
    and "bc_State (ne_en N) (ne_upgradeConfig N h c) = bc_State (ne_en N) c"
    and "length (HeightArray (ne_w N)) \<le> length (VersionArray (ne_w N))"
  using assms by (simp_all add: restart_laws_def)

section \<open>The handlers keep the stored tables\<close>

lemma rewardLoop_code:
  assumes "accounts_keep_code e db ps en" and "rewardLoop db st bonus weight vs s = Inr s'"
  shows "codeAt e ps s' = codeAt e ps s"
  using assms(2)
proof (induction vs arbitrary: s)
  case (Cons v vs)
  then show ?case using assms(1) by (auto simp: accounts_keep_code_def split: if_splits)
qed simp

lemma be_AccumulateRewards_code:
  assumes "accounts_keep_code e db ps en" and "be_AccumulateRewards db st b = Inr b'"
  shows "codeAt e ps (ws_state (be_work b')) = codeAt e ps (ws_state (be_work b)) \<and> be_chain b' = be_chain b"
proof -
  have "codeAt e ps (AddBalance db s a v) = codeAt e ps s" for s a v
    using assms(1) by (simp add: accounts_keep_code_def)
  with assms(2) show ?thesis
    by (auto simp: be_AccumulateRewards_def AccumulateRewards_def accumulateRewards_def Let_def split: if_splits
        dest!: rewardLoop_code [OF assms(1)])
qed

lemma Punish_code:
  assumes "accounts_keep_code e db ps en"
  shows "codeAt e ps (Punish db p s a) = codeAt e ps s"
  using assms
  by (cases "p_SubBalanceStrategy p")
    (auto simp: Punish_def burn_subBalance_def transfer_subBalance_def subBalance_def Let_def accounts_keep_code_def)

lemma punishOne_code:
  assumes "accounts_keep_code e db ps en" and "punishOne e' db p h ev (s, st) = Inr (s', st')"
  shows "codeAt e ps s' = codeAt e ps s \<and> s_CurrEpoch st' = s_CurrEpoch st"
  using assms(2)
  by (auto simp: punishOne_def Let_def Punish_code [OF assms(1)] split: option.splits if_splits prod.splits)

lemma punishAll_code:
  assumes "accounts_keep_code e db ps en" and "punishAll e' db p h evs (s, st) = Inr (s', st')"
  shows "codeAt e ps s' = codeAt e ps s \<and> s_CurrEpoch st' = s_CurrEpoch st"
  using assms(2)
  by (induction evs arbitrary: s st) (auto dest!: punishOne_code [OF assms(1)])

text \<open>What a restart will find in the working state, and the data of the epoch it stems from.\<close>

definition vaultView ::
  "('c, 'b, 's, 'l, 'x) nodeenv \<Rightarrow> ('c, 'b, 's, 'l, 'x) EthermintApplication \<Rightarrow> (bytes \<times> bytes) \<times> 'x CurrEpochValData" where
  "vaultView N app = (codeAt (ne_env N) (ne_ps N) (currentState app), s_CurrEpoch (a_strategy app))"

lemma BeginBlock_vault:
  assumes "restart_laws N" and "BeginBlock (ne_env N) (ne_db N) (ne_en N) (ne_w N) req app = Inr app'"
  shows "vaultView N app' = vaultView N app"
  using assms(2)
  by (auto simp: BeginBlock_def Let_def vaultView_def currentState_def setCurrentState_def DoPunish_def
      be_UpdateHeaderWithTimeInfo_def updateHeaderWithTimeInfo_def updateHeaderCoinbase_def
      dest!: punishAll_code [OF restart_lawsD(4) [OF assms(1)]])

lemma be_DeliverTx_code:
  assumes "accounts_keep_code e db ps en" and "be_DeliverTx en tx i (b, w) = ((b', w'), r)"
  shows "codeAt e ps (ws_state (be_work b')) = codeAt e ps (ws_state (be_work b))"
proof -
  let ?s0 = "Prepare en (ws_state (be_work b)) (tx_Hash tx) 0 (txIndex (be_work b))"
  obtain g s' u v res where a: "ApplyTransactionWithInfo en (be_chain b) (ws_header (be_work b)) tx i
      (gp (be_work b), ?s0, totalUsedGas (be_work b), w) = ((g, s', u, v), res)" by (metis surj_pair)
  then have "codeAt e ps s' = codeAt e ps ?s0" using assms(1) unfolding accounts_keep_code_def by blast
  also have "\<dots> = codeAt e ps (ws_state (be_work b))" using assms(1) by (simp add: accounts_keep_code_def)
  finally show ?thesis using assms(2) a by (auto simp: be_DeliverTx_def deliverTx_def Let_def split: sum.splits)
qed

lemma app_DeliverTx_vault:
  assumes "restart_laws N" and "app_DeliverTx (ne_en N) (ne_te N) txBytes app = Inr (app', r)"
  shows "vaultView N app' = vaultView N app"
  using assms(2) unfolding app_DeliverTx_def
  by (auto simp: Let_def vaultView_def currentState_def DeleteCachedTxInfo_def split: sum.splits prod.splits if_splits
      dest!: be_DeliverTx_code [OF restart_lawsD(4) [OF assms(1)]])

lemma deliverAll_vault:
  assumes "restart_laws N" and "deliverAll N txs app = Inr app'"
  shows "vaultView N app' = vaultView N app"
  using assms(2) by (induction txs arbitrary: app) (auto dest: app_DeliverTx_vault [OF assms(1)])

lemma beginAndDeliver_vault:
  assumes "restart_laws N" and "beginAndDeliver N blk app = Inr app'"
  shows "vaultView N app' = vaultView N app"
  using assms(2) by (auto simp: beginAndDeliver_def dest!: BeginBlock_vault [OF assms(1)] deliverAll_vault [OF assms(1)])

lemma CheckTx_vault:
  assumes "CheckTx te db txBytes ct app = Inr (app', r)"
  shows "vaultView N app' = vaultView N app \<and> currentState app' = currentState app"
proof -
  have v: "vaultView N app1 = vaultView N app \<and> currentState app1 = currentState app"
    if "validateTx te db tx ct app = Inr (app1, r1)" for tx app1 r1
    using validateTx_validated [OF that]
    by (auto elim!: validatedE simp: vaultView_def currentState_def InsertCachedTxInfo_def DeleteCachedTxInfo_def)
  with assms show ?thesis by (auto simp: CheckTx_def split: if_splits sum.splits dest: v)
qed

section \<open>Recoverable states\<close>

definition epochData_ok :: "'x CurrEpochValData \<Rightarrow> bool" where
  "epochData_ok ep \<longleftrightarrow> cev_PosTable ep \<noteq> None \<and> (\<exists>tb. TotalBalance ep = Some tb \<and> big_Int64 tb \<noteq> 0)"

text \<open>What a start makes of a stored table.\<close>

definition rebuilt :: "'x env \<Rightarrow> ('x PosTable \<Rightarrow> 'x PosTable) \<Rightarrow> 'x PosTable \<Rightarrow> 'x PosTable" where
  "rebuilt e strip pt = ExportSortedSigners e (InitStruct e (strip pt))"

text \<open>The stored data of an epoch is that of the epoch the node is in: the same table, or the one a start made
  of it, and the same total balance.\<close>

definition inEpoch :: "'x env \<Rightarrow> ('x PosTable \<Rightarrow> 'x PosTable) \<Rightarrow> 'x CurrEpochValData \<Rightarrow> 'x CurrEpochValData \<Rightarrow> bool" where
  "inEpoch e strip ep cur \<longleftrightarrow>
     (\<exists>pt. cev_PosTable ep = Some pt \<and> (cev_PosTable cur = Some pt \<or> cev_PosTable cur = Some (rebuilt e strip pt))) \<and>
     TotalBalance cur = TotalBalance ep"

text \<open>What a restart brings back of an epoch.\<close>

definition epochRestored ::
  "'x env \<Rightarrow> ('x PosTable \<Rightarrow> 'x PosTable) \<Rightarrow> 'x CurrEpochValData \<Rightarrow> 'x CurrEpochValData \<Rightarrow> bool" where
  "epochRestored e strip ep ep' \<longleftrightarrow>
     (\<exists>pt. (cev_PosTable ep = Some pt \<or> cev_PosTable ep = Some (rebuilt e strip pt)) \<and>
        cev_PosTable ep' = Some (rebuilt e strip pt)) \<and> TotalBalance ep' = TotalBalance ep"

text \<open>Tables are stored in a form that can be read back, and they are those of the current epoch, unless the
  commit is about to store those (\<open>fresh\<close>).\<close>

definition vault ::
  "('c, 'b, 's, 'l, 'x) nodeenv \<Rightarrow> ('x PosTable \<Rightarrow> 'x PosTable) \<Rightarrow> bool \<Rightarrow> ('c, 'b, 's, 'l, 'x) EthermintApplication \<Rightarrow> bool" where
  "vault N strip fresh app \<longleftrightarrow>
     (\<exists>d ep nx. stored (ne_env N) (ne_ps N) (currentState app) ep nx \<and> codec_ok (ne_env N) (ne_ps N) strip d ep nx \<and>
        epochData_ok ep \<and> (fresh \<or> inEpoch (ne_env N) strip ep (s_CurrEpoch (a_strategy app))))"

definition staged ::
  "('c, 'b, 's, 'l, 'x) nodeenv \<Rightarrow> ('x PosTable \<Rightarrow> 'x PosTable) \<Rightarrow> ('c, 'b, 's, 'l, 'x) EthermintApplication \<Rightarrow> bool" where
  "staged N strip app \<longleftrightarrow> vault N strip False app \<and> epochData_ok (s_CurrEpoch (a_strategy app))"

text \<open>The state a commit expects.\<close>

definition endsEpoch :: "('c, 'b, 's, 'l, 'x) nodeenv \<Rightarrow> ('c, 'b, 's, 'l, 'x) EthermintApplication \<Rightarrow> bool" where
  "endsEpoch N app \<longleftrightarrow> chv_Height (s_CurrentHeight (a_strategy app)) mod EpochBlocks (ne_env N) = 0"

definition ready ::
  "('c, 'b, 's, 'l, 'x) nodeenv \<Rightarrow> ('x PosTable \<Rightarrow> 'x PosTable) \<Rightarrow> ('c, 'b, 's, 'l, 'x) EthermintApplication \<Rightarrow> bool" where
  "ready N strip app \<longleftrightarrow> vault N strip (endsEpoch N app) app \<and> epochData_ok (s_CurrEpoch (a_strategy app))"

text \<open>The head of the chain holds a state from which the recorded validators can be read.\<close>

definition durable ::
  "('c, 'b, 's, 'l, 'x) nodeenv \<Rightarrow> ('x PosTable \<Rightarrow> 'x PosTable) \<Rightarrow> ('c, 'b, 's, 'l, 'x) EthermintApplication \<Rightarrow> bool" where
  "durable N strip app \<longleftrightarrow>
     bc_State (ne_en N) (be_chain (a_backend app)) = Inr (currentState app) \<and>
     (\<exists>d ep nx. TryGet (ne_ps N) (currentState app) (SendToLock (ne_env N)) heightKey = Inr (MarshalHeight (ne_ps N) d) \<and>
        GetState (ne_ps N) (currentState app) (SendToLock (ne_env N)) (BytesToHash (ne_ps N) heightKey) =
          Keccak256Hash (ne_ps N) (MarshalHeight (ne_ps N) d) \<and>
        codec_ok (ne_env N) (ne_ps N) strip d ep nx \<and> Validators d = recorded app)"

text \<open>JSON keeps what a block leaves to be stored.\<close>

definition json_ok ::
  "('c, 'b, 's, 'l, 'x) nodeenv \<Rightarrow> ('x PosTable \<Rightarrow> 'x PosTable) \<Rightarrow> ('c, 'b, 's, 'l, 'x) EthermintApplication \<Rightarrow> bool" where
  "json_ok N strip app \<longleftrightarrow>
     (\<forall>nx \<in> set_option (s_NextPosTable (a_strategy app)).
        codec_ok (ne_env N) (ne_ps N) strip (s_CurrentHeight (a_strategy app)) (s_CurrEpoch (a_strategy app)) nx)"

lemma codec_ok_mix:
  assumes "codec_ok e ps strip d ep nx" and "codec_ok e ps strip d' ep' nx'"
  shows "codec_ok e ps strip d (if p then ep else ep') (if q then nx else nx')"
  using assms by (auto simp: codec_ok_def)

lemma stored_codeAt: "stored e ps s ep nx \<longleftrightarrow> codeAt e ps s = (MarshalCurrEpoch ps ep, MarshalPosTable ps nx)"
  by (simp add: stored_def codeAt_def)

lemma staged_vaultView:
  assumes "vaultView N app' = vaultView N app"
  shows "staged N strip app' \<longleftrightarrow> staged N strip app"
  using assms by (auto simp: staged_def vault_def vaultView_def stored_codeAt)

lemma EndBlock_epoch:
  assumes "EndBlock e w cH uC ordV ordA height seed app = Some (Inr (app', resp))"
    and "epochData_ok (s_CurrEpoch (a_strategy app))"
  shows "epochData_ok (s_CurrEpoch (a_strategy app'))"
  using EndBlock_view [OF assms(1) refl] assms
  by (auto simp: epochData_ok_def reselected_def tableAtCommit_def EndBlock_def epochChange_def Let_def atEpochEnd_def
      split: if_splits sum.splits)

lemma EndBlock_ready:
  assumes r: "EndBlock (ne_env N) w cH uC ordV ordA height seed app = Some (Inr (app', resp))" and "staged N strip app"
    and h: "chv_Height (s_CurrentHeight (a_strategy app)) = height"
  shows "ready N strip app'"
proof -
  have v: "chv_Height (s_CurrentHeight (a_strategy app')) = height"
    using EndBlock_view [OF r refl] h by (auto simp: reselected_def)
  have "s_CurrEpoch (a_strategy app') = s_CurrEpoch (a_strategy app)" if "height mod EpochBlocks (ne_env N) \<noteq> 0"
    using EndBlock_view [OF r refl] that by (auto simp: reselected_def tableAtCommit_def)
  moreover have "currentState app' = currentState app" using EndBlock_frame [OF r] by (simp add: currentState_def)
  ultimately have "vault N strip (endsEpoch N app') app'"
    using assms(2) by (cases "height mod EpochBlocks (ne_env N) = 0") (auto simp: staged_def vault_def endsEpoch_def v)
  then show ?thesis using EndBlock_epoch [OF r] assms(2) by (simp add: ready_def staged_def)
qed

lemma beginAndDeliver_height:
  assumes "beginAndDeliver N blk app = Inr app'"
  shows "chv_Height (s_CurrentHeight (a_strategy app')) = bb_Height (bk_Begin blk)"
proof -
  have d: "s_CurrentHeight (a_strategy app2) = s_CurrentHeight (a_strategy app1)" if "deliverAll N txs app1 = Inr app2" for txs app1 app2
    using that
    by (induction txs arbitrary: app1)
      (auto simp: app_DeliverTx_def Let_def setWorld_def split: sum.splits prod.splits if_splits)
  show ?thesis
    using assms
    by (auto simp: beginAndDeliver_def BeginBlock_def Let_def setCurrentState_def DoPunish_def dest!: d punishAll_recorded)
qed

text \<open>A commit makes the staged data durable.\<close>

lemma be_Commit_state:
  assumes "durable_chain e ps en" and "be_Commit en b = (b', Inr h)"
  shows "bc_State en (be_chain b') = Inr (ws_state (be_work b')) \<and>
    codeAt e ps (ws_state (be_work b')) = codeAt e ps (ws_state (be_work b)) \<and>
    TryGet ps (ws_state (be_work b')) = TryGet ps (ws_state (be_work b)) \<and>
    GetState ps (ws_state (be_work b')) = GetState ps (ws_state (be_work b))"
proof -
  have "\<exists>s' root. state_Commit en (ws_state (be_work b)) = (s', Inr root) \<and>
      (\<exists>blk rs ls. WriteBlockWithState en (be_chain b) blk rs ls s' = (be_chain b', None)) \<and>
      (\<exists>r. resetWorkState en (be_chain b') r = Inr (be_work b'))"
    using assms(2)
    by (auto simp: be_Commit_def es_Commit_def commit_def Let_def split: prod.splits sum.splits option.splits) blast+
  then obtain s' root blk rs ls bc' where c: "state_Commit en (ws_state (be_work b)) = (s', Inr root)"
    and w: "WriteBlockWithState en (be_chain b) blk rs ls s' = (bc', None)"
    and b': "be_chain b' = bc'" "\<exists>r. resetWorkState en bc' r = Inr (be_work b')" by blast
  have "bc_State en bc' = Inr s'" using assms(1) w unfolding durable_chain_def by blast
  moreover from this b'(2) have "ws_state (be_work b') = s'" by (auto dest: resetWorkState_header)
  moreover have "codeAt e ps s' = codeAt e ps (ws_state (be_work b)) \<and> TryGet ps s' = TryGet ps (ws_state (be_work b)) \<and>
      GetState ps s' = GetState ps (ws_state (be_work b))"
    using assms(1) c unfolding durable_chain_def by blast
  ultimately show ?thesis using b'(1) by simp
qed

lemma Commit_durable:
  assumes L: "restart_laws N" and c: "app_Commit (ne_env N) (ne_db N) (ne_ps N) (ne_en N) app = Inr (app', Some h)"
    and st: "ready N strip app" and j: "json_ok N strip app'"
  shows "staged N strip app' \<and> durable N strip app'"
proof -
  let ?e = "ne_env N" and ?ps = "ne_ps N"
  from c obtain b1 app1 b2 where r: "be_AccumulateRewards (ne_db N) (a_strategy app) (a_backend app) = Inr b1"
    and p: "SetPersistenceData ?e ?ps (app\<lparr>a_backend := b1\<rparr>) = Inr app1"
    and b2: "be_Commit (ne_en N) (a_backend app1) = (b2, Inr h)"
    and app': "app' = app1\<lparr>a_checkTxState := currentState app1, a_backend := b2\<rparr>"
    by (auto simp: app_Commit_def Let_def split: prod.splits sum.splits)
  obtain s where app1: "app1 = setCurrentState s (app\<lparr>a_backend := b1\<rparr>)" using SetPersistenceData_Inr [OF p] by blast
  then have s1: "a_strategy app' = a_strategy app" by (simp add: app')
  obtain nxt where nxt: "s_NextPosTable (a_strategy (app\<lparr>a_backend := b1\<rparr>)) = Some nxt"
    using p by (auto simp: SetPersistenceData_def persistNext_def Let_def deref_def panic_bind_def split: option.splits)
  from st obtain d ep0 nx0 where v: "stored ?e ?ps (currentState app) ep0 nx0" "codec_ok ?e ?ps strip d ep0 nx0" "epochData_ok ep0"
    "endsEpoch N app \<or> inEpoch ?e strip ep0 (s_CurrEpoch (a_strategy app))"
    by (auto simp: ready_def vault_def)
  then have "stored ?e ?ps (currentState (app\<lparr>a_backend := b1\<rparr>)) ep0 nx0"
    using be_AccumulateRewards_code [OF restart_lawsD(4) [OF L] r] by (simp add: stored_codeAt currentState_def)
  then have "chv_Height (s_CurrentHeight (a_strategy (app\<lparr>a_backend := b1\<rparr>))) mod EpochBlocks ?e = 0 \<or>
      stored ?e ?ps (currentState (app\<lparr>a_backend := b1\<rparr>)) ep0 nx0" ..
  note k = SetPersistenceData_stored [OF restart_lawsD(2,3) [OF L] p nxt refl this]
  note cs = be_Commit_state [OF restart_lawsD(5) [OF L] b2, folded currentState_def]
  have cur: "currentState app' = ws_state (be_work b2)" by (simp add: app' currentState_def)
  have codec: "codec_ok ?e ?ps strip (s_CurrentHeight (a_strategy app)) (s_CurrEpoch (a_strategy app)) nxt"
    using j nxt by (simp add: json_ok_def s1)
  let ?last = "chv_Height (s_CurrentHeight (a_strategy app)) mod EpochBlocks ?e = 0"
  have "stored ?e ?ps (currentState app') (if ?last then s_CurrEpoch (a_strategy app) else ep0)
      (if ChangedFlagThisBlock nxt \<or> ?last then nxt else nx0)"
    using k(1) cs by (simp add: stored_codeAt cur)
  moreover have e0: "epochData_ok (s_CurrEpoch (a_strategy app))" using st by (simp add: ready_def)
  then have "epochData_ok (if ?last then s_CurrEpoch (a_strategy app) else ep0)" using v(3) by simp
  moreover have "inEpoch ?e strip (if ?last then s_CurrEpoch (a_strategy app) else ep0) (s_CurrEpoch (a_strategy app'))"
    using v(4) e0 by (auto simp: inEpoch_def endsEpoch_def epochData_ok_def s1)
  ultimately have "vault N strip False app'" unfolding vault_def using codec_ok_mix [OF codec v(2)] by blast
  moreover have "durable N strip app'"
  proof -
    have rec: "recorded app' = Validators (s_CurrentHeight (a_strategy app))" "be_chain (a_backend app') = be_chain b2"
      by (simp_all add: recorded_def s1) (simp add: app')
    show ?thesis unfolding durable_def cur rec using cs k(2,3) codec by auto
  qed
  ultimately show ?thesis using st by (simp add: staged_def ready_def s1)
qed

lemma runBlock_durable:
  assumes "restart_laws N" and "runBlock N blk app = Some (Inr (app', us, Some h))"
    and "staged N strip app" and "json_ok N strip app'"
  shows "staged N strip app' \<and> durable N strip app'"
proof -
  obtain app1 app2 resp where b: "beginAndDeliver N blk app = Inr app1"
    and e: "endOf N blk app1 = Some (Inr (app2, resp))"
    and c: "app_Commit (ne_env N) (ne_db N) (ne_ps N) (ne_en N) app2 = Inr (app', Some h)"
    using assms(2) by (auto simp: runBlock_def split: sum.splits)
  have "staged N strip app1" using staged_vaultView [OF beginAndDeliver_vault [OF assms(1) b]] assms(3) by blast
  then have "ready N strip app2" by (rule EndBlock_ready [OF e [unfolded endOf_def] _ beginAndDeliver_height [OF b]])
  then show ?thesis by (rule Commit_durable [OF assms(1) c _ assms(4)])
qed

lemma runBlock_epoch:
  assumes "restart_laws N" and "runBlock N blk app = Some (Inr (app', us, Some h))"
    and "epochData_ok (s_CurrEpoch (a_strategy app))"
  shows "epochData_ok (s_CurrEpoch (a_strategy app'))"
proof -
  obtain app1 app2 resp where b: "beginAndDeliver N blk app = Inr app1"
    and e: "endOf N blk app1 = Some (Inr (app2, resp))"
    and c: "app_Commit (ne_env N) (ne_db N) (ne_ps N) (ne_en N) app2 = Inr (app', Some h)"
    using assms(2) by (auto simp: runBlock_def split: sum.splits)
  have "epochData_ok (s_CurrEpoch (a_strategy app1))"
    using beginAndDeliver_vault [OF assms(1) b] assms(3) by (simp add: vaultView_def)
  then have "epochData_ok (s_CurrEpoch (a_strategy app2))" by (rule EndBlock_epoch [OF e [unfolded endOf_def]])
  moreover have "a_strategy app' = a_strategy app2"
    using Commit_facts [OF _ c] restart_lawsD(1) [OF assms(1)] by (simp add: node_laws_def)
  ultimately show ?thesis by simp
qed

section \<open>The restart\<close>

text \<open>The database reopens at a block that was committed: its state is the head state, the block the head.\<close>

definition reopens ::
  "('c, 'b, 's, 'l, 'x) nodeenv \<Rightarrow> ('c, 'b, 's, 'l) Backend \<Rightarrow> ('c, 'b, 's, 'l, 'x) EthermintApplication \<Rightarrow> bool" where
  "reopens N b app \<longleftrightarrow>
     bc_State (ne_en N) (be_chain b) = Inr (currentState app) \<and>
     CurrentBlock (ne_en N) (be_chain b) = CurrentBlock (ne_en N) (be_chain (a_backend app))"

text \<open>Where a process may be when it dies: between two blocks, after any number of deliveries, or after the
  end of a block that is not committed yet. Nothing of this reaches the chain.\<close>

definition interrupted ::
  "('c, 'b, 's, 'l, 'x) nodeenv \<Rightarrow> ('c, 'b, 's, 'l, 'x) EthermintApplication \<Rightarrow>
     ('c, 'b, 's, 'l, 'x) EthermintApplication \<Rightarrow> bool" where
  "interrupted N app app1 \<longleftrightarrow>
     app1 = app \<or> (\<exists>blk. beginAndDeliver N blk app = Inr app1) \<or>
     (\<exists>blk app0 resp. beginAndDeliver N blk app = Inr app0 \<and> endOf N blk app0 = Some (Inr (app1, resp)))"

lemma interrupted_reopens:
  assumes "restart_laws N" and "interrupted N app x" and "reopens N (a_backend app) app1"
    and "be_chain b = be_chain (a_backend x)"
  shows "reopens N b app1"
proof -
  have mid: "be_chain (a_backend app0) = be_chain (a_backend app)" if "beginAndDeliver N blk app = Inr app0" for blk app0
    using beginAndDeliver_frame [OF that] by (simp add: chainView_def)
  have uc: "CurrentBlock (ne_en N) (ne_upgradeConfig N h c) = CurrentBlock (ne_en N) c" for h c
    using restart_lawsD(1) [OF assms(1)] by (simp add: node_laws_def)
  show ?thesis
    using assms(2,3) mid uc restart_lawsD(6) [OF assms(1)]
    by (auto simp: interrupted_def endOf_def reopens_def assms(4) dest!: EndBlock_frame)
qed

text \<open>The start of a process on a chain whose head holds the stored data.\<close>

lemma restart_starts:
  assumes L: "restart_laws N" and chain: "bc_State (ne_en N) (be_chain b) = Inr s" and fl: "\<not> fl_RollbackFlag fl"
    and h: "TryGet (ne_ps N) s (SendToLock (ne_env N)) heightKey = Inr (MarshalHeight (ne_ps N) d1)"
      "GetState (ne_ps N) s (SendToLock (ne_env N)) (BytesToHash (ne_ps N) heightKey) =
        Keccak256Hash (ne_ps N) (MarshalHeight (ne_ps N) d1)"
      "codec_ok (ne_env N) (ne_ps N) strip d1 ep1 nx1"
    and v: "stored (ne_env N) (ne_ps N) s ep nx" "codec_ok (ne_env N) (ne_ps N) strip d2 ep nx" "cev_PosTable ep = Some pt"
      "TotalBalance ep = Some tb" "big_Int64 tb \<noteq> 0"
  obtains app2 ws where "resetWorkState (ne_en N) (be_chain b) (HexToAddress (ne_env N) InitReceiver) = Inr ws"
    and "startApp (ne_env N) (ne_en N) (ne_ps N) (ne_w N) setHead ordG gf fl chainId b gv = Inr app2"
    and "a_backend app2 = b\<lparr>be_work := ws\<rparr>" and "recorded app2 = Validators d1"
    and "TotalBalance (s_CurrEpoch (a_strategy app2)) = Some tb"
    and "cev_PosTable (s_CurrEpoch (a_strategy app2)) = Some (rebuilt (ne_env N) strip pt)"
proof -
  let ?e = "ne_env N" and ?ps = "ne_ps N" and ?en = "ne_en N"
  from chain obtain app0 where n: "newApp ?e ?en fl chainId b gv = Inr app0"
    by (simp add: newApp_def NewEthermintApplication_def InitEthState_def resetWorkState_def Let_def)
  obtain ws where ws: "resetWorkState ?en (be_chain b) (HexToAddress ?e InitReceiver) = Inr ws"
    and b0: "a_backend app0 = b\<lparr>be_work := ws\<rparr>"
    and s0: "a_strategy app0 = SetSigner chainId (NewStrategy\<lparr>s_BlsSelectStrategy := fl_BlsSelectStrategy fl\<rparr>)"
    by (rule newApp_Inr [OF n])
  have cs0: "currentState app0 = s" using resetWorkState_header [OF ws] chain by (simp add: currentState_def b0)
  have noRoll: "mapBackend (whetherRollbackEthApp setHead (fl_RollbackFlag fl) (fl_RollbackHeight fl)) app0 = app0"
    using fl by (simp add: mapBackend_def whetherRollbackEthApp_def)
  let ?st0 = "a_strategy app0"
  have lh: "loadHeight ?e ?ps s (s_CurrentHeight ?st0) =
      Inr ((s_CurrentHeight ?st0)\<lparr>chv_Height := chv_Height d1, Validators := Validators d1\<rparr>)"
    using h by (simp add: loadHeight_def codec_ok_def s0 SetSigner_def NewStrategy_def)
  have le: "loadEpoch ?e ?ps s (s_CurrEpoch ?st0) = Inr ((s_CurrEpoch ?st0)
      \<lparr>cev_PosTable := Some (rebuilt ?e strip pt), TotalBalance := Some tb\<rparr>)"
    using v by (simp add: rebuilt_def loadEpoch_def codec_ok_def stored_def Let_def)
  obtain ver where ver: "versionAt (ne_w N) ?st0 (chv_Height d1) (BlockVersion (s_HF ?st0)) = Inr ver"
    using versionAt_total [OF restart_lawsD(7) [OF L]] by blast
  have "GetState ?ps s (SendToLock ?e) (BytesToHash ?ps heightKey) \<noteq> 0" using h by (simp add: codec_ok_def)
  moreover have "currentState (app0\<lparr>a_evmErrHeight := x, a_vars := y\<rparr>) = s" for x y using cs0 by (simp add: currentState_def)
  ultimately obtain app1' where ip: "InitPersistData ?e ?ps (ne_w N) app0 = Inr (app1', True)"
    and f1: "a_backend app1' = b\<lparr>be_work := ws\<rparr>" "recorded app1' = Validators d1"
      "TotalBalance (s_CurrEpoch (a_strategy app1')) = Some tb" "cev_PosTable (s_CurrEpoch (a_strategy app1')) = Some (rebuilt ?e strip pt)"
    using lh le ver b0 by (simp add: InitPersistData_def Let_def recorded_def)
  then obtain app2 where a2: "startApp ?e ?en ?ps (ne_w N) setHead ordG gf fl chainId b gv = Inr app2"
    and f2: "a_backend app2 = b\<lparr>be_work := ws\<rparr>" "recorded app2 = Validators d1"
      "TotalBalance (s_CurrEpoch (a_strategy app2)) = Some tb" "cev_PosTable (s_CurrEpoch (a_strategy app2)) = Some (rebuilt ?e strip pt)"
    using v(5) by (simp add: startApp_def n noRoll applyFlags_def recorded_def)
  from that [OF ws a2 f2] show ?thesis .
qed

text \<open>The start of a process on a database that reopens at a commit restores the validators recorded there and
  agrees with the record Tendermint had of it.\<close>

lemma restart_recovers:
  assumes L: "restart_laws N" and st: "staged N strip app" and d: "durable N strip app" and r: "refines N app t"
    and b: "reopens N b app" and fl: "\<not> fl_RollbackFlag fl"
  obtains app2 app3 resp where
    "startApp (ne_env N) (ne_en N) (ne_ps N) (ne_w N) setHead ordG gf fl chainId b gv = Inr app2"
    and "Info (ne_w N) (ne_en N) app2 = Inr (app3, resp)" and "refines N app3 t" and "staged N strip app3"
    and "reopens N (a_backend app3) app" and "recorded app3 = recorded app"
    and "epochRestored (ne_env N) strip (s_CurrEpoch (a_strategy app)) (s_CurrEpoch (a_strategy app3))"
    and "LastBlockHeight resp = big_Int64 (tm_Height t)"
    and "LastBlockAppHash resp = (if tm_Height t = 0 then None else Some (tm_AppHash t))"
proof -
  let ?e = "ne_env N" and ?ps = "ne_ps N" and ?en = "ne_en N" and ?s = "currentState app"
  have chain: "bc_State ?en (be_chain b) = Inr ?s" "CurrentBlock ?en (be_chain b) = CurrentBlock ?en (be_chain (a_backend app))"
    using b by (simp_all add: reopens_def)
  obtain d1 ep1 nx1 where h: "TryGet ?ps ?s (SendToLock ?e) heightKey = Inr (MarshalHeight ?ps d1)"
    "GetState ?ps ?s (SendToLock ?e) (BytesToHash ?ps heightKey) = Keccak256Hash ?ps (MarshalHeight ?ps d1)"
    "codec_ok ?e ?ps strip d1 ep1 nx1" "Validators d1 = recorded app"
    using d by (auto simp: durable_def)
  obtain d2 ep nx pt tb where v: "stored ?e ?ps ?s ep nx" "codec_ok ?e ?ps strip d2 ep nx" "cev_PosTable ep = Some pt"
    "TotalBalance ep = Some tb" "big_Int64 tb \<noteq> 0" "inEpoch ?e strip ep (s_CurrEpoch (a_strategy app))"
    using st by (auto simp: staged_def vault_def epochData_ok_def)
  obtain app2 ws where ws: "resetWorkState ?en (be_chain b) (HexToAddress ?e InitReceiver) = Inr ws"
    and a2: "startApp ?e ?en ?ps (ne_w N) setHead ordG gf fl chainId b gv = Inr app2"
    and f2: "a_backend app2 = b\<lparr>be_work := ws\<rparr>" "recorded app2 = recorded app"
      "TotalBalance (s_CurrEpoch (a_strategy app2)) = Some tb" "cev_PosTable (s_CurrEpoch (a_strategy app2)) = Some (rebuilt ?e strip pt)"
    by (rule restart_starts [OF L chain(1) fl h(1-3) v(1-5), unfolded h(4)])
  have cs: "ws_state ws = ?s" using resetWorkState_header [OF ws] chain(1) by simp
  obtain resp where i2: "Info (ne_w N) ?en app2 = Inr (mapStrategy (\<lambda>st. st\<lparr>s_CurrEpoch := (s_CurrEpoch st)
      \<lparr>MinorBonus := Some (tb div halfYearlyDivisor)\<rparr>\<rparr>) app2, resp)" (is "_ = Inr (?app3, _)")
    by (rule Info_total [OF restart_lawsD(7) [OF L] f2(3)])
  have f3: "a_backend ?app3 = b\<lparr>be_work := ws\<rparr>" "recorded ?app3 = recorded app" "currentState ?app3 = ?s"
    using f2 cs by (simp_all add: mapStrategy_def recorded_def currentState_def)
  have "refines N ?app3 t"
    using r resetWorkState_header [OF ws] chain(2) by (simp add: refines_def f3)
  moreover have ep3: "cev_PosTable (s_CurrEpoch (a_strategy ?app3)) = Some (rebuilt ?e strip pt)"
      "TotalBalance (s_CurrEpoch (a_strategy ?app3)) = Some tb"
    using f2(3,4) by (simp_all add: mapStrategy_def)
  then have "inEpoch ?e strip ep (s_CurrEpoch (a_strategy ?app3))" using v(3,4) by (simp add: inEpoch_def)
  then have "staged N strip ?app3"
    using v(1,2,3,4,5) ep3 unfolding staged_def vault_def f3(3) by (auto simp: epochData_ok_def)
  moreover have "reopens N (a_backend ?app3) app" using chain by (simp add: reopens_def f3)
  moreover have "LastBlockHeight resp = big_Int64 (tm_Height t) \<and>
      LastBlockAppHash resp = (if tm_Height t = 0 then None else Some (tm_AppHash t))"
    using i2 r chain(2) by (auto simp: Info_def Let_def f2(1) refines_def)
  moreover have "epochRestored ?e strip (s_CurrEpoch (a_strategy app)) (s_CurrEpoch (a_strategy ?app3))"
    using v(3,4,6) ep3 by (auto simp: inEpoch_def epochRestored_def)
  ultimately show ?thesis using that a2 i2 f3(2) by blast
qed

section \<open>Lives\<close>

type_synonym answers = "(ValidatorUpdate list \<times> hash) list"

text \<open>A life of a node, the answers \<open>tr\<close> Tendermint has had for the blocks of the present chain, and the
  commits \<open>pts\<close> the database may reopen at, newest first, each with the answers up to it. A crash loses the
  memory of the process, whatever it was doing, and takes the node back to one of these commits: the database
  reopens there, a process is started without rollback, and Tendermint makes its handshake. What is read from the
  genesis files, the flags and the initial values of package variables may differ from start to start.\<close>

inductive node_life ::
  "('c, 'b, 's, 'l, 'x) nodeenv \<Rightarrow> ('x PosTable \<Rightarrow> 'x PosTable) \<Rightarrow> ('c, 'b, 's, 'l, 'x) EthermintApplication \<Rightarrow>
     answers \<Rightarrow> (answers \<times> ('c, 'b, 's, 'l, 'x) EthermintApplication) list \<Rightarrow>
     ('c, 'b, 's, 'l, 'x) EthermintApplication \<Rightarrow> bool"
  for N strip app0 where
  life_start: "node_life N strip app0 [] [] app0"
| life_check: "node_life N strip app0 tr pts app \<Longrightarrow> CheckTx (ne_te N) (ne_db N) txBytes ct app = Inr (app', r) \<Longrightarrow>
    node_life N strip app0 tr pts app'"
| life_take: "node_life N strip app0 tr pts app \<Longrightarrow> node_life N strip app0 tr pts (storeEvent obj app)"
| life_block: "node_life N strip app0 tr pts app \<Longrightarrow> block_ok N blk app \<Longrightarrow>
    runBlock N blk app = Some (Inr (app', us, Some h)) \<Longrightarrow> json_ok N strip app' \<Longrightarrow>
    node_life N strip app0 (tr @ [(us, h)]) ((tr @ [(us, h)], app') # pts) app'"
| life_crash: "node_life N strip app0 tr pts app \<Longrightarrow> pts = later @ (tr1, app1) # earlier \<Longrightarrow> reopens N b app1 \<Longrightarrow>
    \<not> fl_RollbackFlag fl \<Longrightarrow>
    startApp (ne_env N) (ne_en N) (ne_ps N) (ne_w N) setHead ordG gf fl chainId b gv = Inr app2 \<Longrightarrow>
    Info (ne_w N) (ne_en N) app2 = Inr (app3, resp) \<Longrightarrow> node_life N strip app0 tr1 ((tr1, app1) # earlier) app3"

text \<open>There is one commit for every block of the present chain.\<close>

definition commitsOf :: "'a list \<Rightarrow> 'a list list" where
  "commitsOf tr = map (\<lambda>n. take n tr) (rev [1..<Suc (length tr)])"

lemma commitsOf_snoc: "commitsOf (tr @ [x]) = (tr @ [x]) # commitsOf tr"
  by (auto simp: commitsOf_def)

lemma commitsOf_suffix:
  assumes "commitsOf tr = xs @ tr1 # ys"
  shows "commitsOf tr1 = tr1 # ys"
  using assms
proof (induction tr arbitrary: xs rule: rev_induct)
  case (snoc x tr)
  then show ?case by (cases xs) (auto simp: commitsOf_snoc)
qed (simp add: commitsOf_def)

definition committed ::
  "('c, 'b, 's, 'l, 'x) nodeenv \<Rightarrow> ('x PosTable \<Rightarrow> 'x PosTable) \<Rightarrow> tendermint \<Rightarrow>
     answers \<times> ('c, 'b, 's, 'l, 'x) EthermintApplication \<Rightarrow> bool" where
  "committed N strip t pt \<longleftrightarrow>
     refines N (snd pt) (fold (tmBlock (ne_env N)) (fst pt) t) \<and> staged N strip (snd pt) \<and> durable N strip (snd pt)"

definition life_inv ::
  "('c, 'b, 's, 'l, 'x) nodeenv \<Rightarrow> ('x PosTable \<Rightarrow> 'x PosTable) \<Rightarrow> tendermint \<Rightarrow> answers \<Rightarrow>
     (answers \<times> ('c, 'b, 's, 'l, 'x) EthermintApplication) list \<Rightarrow> ('c, 'b, 's, 'l, 'x) EthermintApplication \<Rightarrow> bool" where
  "life_inv N strip t tr pts app \<longleftrightarrow>
     refines N app (fold (tmBlock (ne_env N)) tr t) \<and> staged N strip app \<and>
     (\<forall>pt \<in> set pts. committed N strip t pt) \<and> map fst pts = commitsOf tr \<and>
     (pts \<noteq> [] \<longrightarrow> reopens N (a_backend app) (snd (hd pts)))"

text \<open>What neither the chain nor the stored tables notice.\<close>

lemma life_inv_frame:
  assumes "life_inv N strip t tr pts app" and "vaultView N app' = vaultView N app" and "chainView app' = chainView app"
  shows "life_inv N strip t tr pts app'"
  using assms refines_frame [OF assms(3)] staged_vaultView [OF assms(2)]
  by (auto simp: life_inv_def reopens_def chainView_def)

lemma storeEvent_vault: "vaultView N (storeEvent obj app) = vaultView N app"
  by (simp add: vaultView_def currentState_def mapBackend_def setCurrentTxInfo_def)

lemma node_life_inv:
  assumes "node_life N strip app0 tr pts app" and "restart_laws N" and "refines N app0 t" and "staged N strip app0"
  shows "life_inv N strip t tr pts app"
  using assms
proof (induction rule: node_life.induct)
  case life_start
  then show ?case by (simp add: life_inv_def commitsOf_def)
next
  case (life_check tr pts app txBytes ct app' r)
  then show ?case
    using life_inv_frame [OF life_check.IH [OF life_check.prems]] CheckTx_vault [OF life_check.hyps(2)]
      CheckTx_frame [OF life_check.hyps(2)] by blast
next
  case (life_take tr pts app obj)
  then show ?case using life_inv_frame [OF _ storeEvent_vault storeEvent_frame] by blast
next
  case (life_block tr pts app blk app' us h)
  then have IH: "life_inv N strip t tr pts app" by blast
  have r: "refines N app' (tmBlock (ne_env N) (us, h) (fold (tmBlock (ne_env N)) tr t))"
    by (rule runBlock_refines [OF restart_lawsD(1) [OF life_block.prems(1)] _ life_block.hyps(2,3)])
      (use IH in \<open>simp add: life_inv_def\<close>)
  have "staged N strip app' \<and> durable N strip app'"
    by (rule runBlock_durable [OF life_block.prems(1) life_block.hyps(3) _ life_block.hyps(4)])
      (use IH in \<open>simp add: life_inv_def\<close>)
  with IH r show ?case by (auto simp: life_inv_def committed_def commitsOf_snoc reopens_def durable_def)
next
  case (life_crash tr pts app later tr1 app1 earlier b fl setHead ordG gf chainId gv app2 app3 resp)
  then have IH: "life_inv N strip t tr pts app" by blast
  then have c: "committed N strip t (tr1, app1)" and "commitsOf tr = map fst later @ tr1 # map fst earlier"
    using life_crash.hyps(2) by (auto simp: life_inv_def)
  then have pts: "map fst ((tr1, app1) # earlier) = commitsOf tr1" using commitsOf_suffix by fastforce
  have c': "staged N strip app1" "durable N strip app1" "refines N app1 (fold (tmBlock (ne_env N)) tr1 t)"
    using c by (simp_all add: committed_def)
  obtain app2' app3' resp' where
    "startApp (ne_env N) (ne_en N) (ne_ps N) (ne_w N) setHead ordG gf fl chainId b gv = Inr app2'"
    and "Info (ne_w N) (ne_en N) app2' = Inr (app3', resp')" and "refines N app3' (fold (tmBlock (ne_env N)) tr1 t)"
    and "staged N strip app3'" and "reopens N (a_backend app3') app1"
    by (rule restart_recovers [OF life_crash.prems(1) c' life_crash.hyps(3,4)])
  with IH pts life_crash.hyps(5,6) show ?case by (simp add: life_inv_def life_crash.hyps(2))
qed

text \<open>C5. A node survives crashes, even with recent states lost. From a state that agrees with Tendermint
  and whose tables are stored, let it live: checks, rounds of the forwarding loop, admissible blocks
  (\<open>block_ok\<close>, as in C3) whose stored data JSON gives back (\<open>json_ok\<close>), and crashes at
  any moment, each taking it back to some commit of its chain (\<open>pts\<close>, one per block), since states
  reach the disk only now and then. At every moment head, header and the addresses of the recorded validators
  are what Tendermint has after the answers \<open>tr\<close>. At whichever commit the database reopens, start
  (without rollback) and handshake succeed: height and hash of that block are reported, from which Tendermint
  replays; the validators recorded there, the total balance and the epoch's table (rebuilt from its JSON) are
  back. A database that lost nothing of the chain reopens at the last commit, wherever the handlers were
  interrupted. Assumed: \<open>restart_laws\<close>. Not covered: a crash before the first state is on
  disk.\<close>

theorem node_survives_crashes:
  assumes "restart_laws N" and "refines N app0 t" and "staged N strip app0" and "node_life N strip app0 tr pts app"
    and "record = (\<lambda>tr. fold (tmBlock (ne_env N)) tr t)"
  shows "refines N app (record tr) \<and> map fst pts = commitsOf tr \<and>
    (\<forall>tr1 app1 b fl setHead ordG gf chainId gv.
       (tr1, app1) \<in> set pts \<and> reopens N b app1 \<and> \<not> fl_RollbackFlag fl \<longrightarrow>
       (\<exists>app2 app3 resp.
          startApp (ne_env N) (ne_en N) (ne_ps N) (ne_w N) setHead ordG gf fl chainId b gv = Inr app2 \<and>
          Info (ne_w N) (ne_en N) app2 = Inr (app3, resp) \<and> recorded app3 = recorded app1 \<and> refines N app3 (record tr1) \<and>
          epochRestored (ne_env N) strip (s_CurrEpoch (a_strategy app1)) (s_CurrEpoch (a_strategy app3)) \<and>
          LastBlockHeight resp = big_Int64 (tm_Height (record tr1)) \<and>
          LastBlockAppHash resp = (if tm_Height (record tr1) = 0 then None else Some (tm_AppHash (record tr1))))) \<and>
    (\<forall>x b. pts \<noteq> [] \<and> interrupted N app x \<and> be_chain b = be_chain (a_backend x) \<longrightarrow> reopens N b (snd (hd pts)))"
proof (intro conjI allI impI)
  have inv: "life_inv N strip t tr pts app" by (rule node_life_inv [OF assms(4,1,2,3)])
  then show "refines N app (record tr)" and "map fst pts = commitsOf tr" by (simp_all add: life_inv_def assms(5))
  show "reopens N b (snd (hd pts))" if "pts \<noteq> [] \<and> interrupted N app x \<and> be_chain b = be_chain (a_backend x)" for x b
    using interrupted_reopens [OF assms(1)] that inv by (auto simp: life_inv_def)
  show "\<exists>app2 app3 resp.
          startApp (ne_env N) (ne_en N) (ne_ps N) (ne_w N) setHead ordG gf fl chainId b gv = Inr app2 \<and>
          Info (ne_w N) (ne_en N) app2 = Inr (app3, resp) \<and> recorded app3 = recorded app1 \<and> refines N app3 (record tr1) \<and>
          epochRestored (ne_env N) strip (s_CurrEpoch (a_strategy app1)) (s_CurrEpoch (a_strategy app3)) \<and>
          LastBlockHeight resp = big_Int64 (tm_Height (record tr1)) \<and>
          LastBlockAppHash resp = (if tm_Height (record tr1) = 0 then None else Some (tm_AppHash (record tr1)))"
    if i: "(tr1, app1) \<in> set pts \<and> reopens N b app1 \<and> \<not> fl_RollbackFlag fl" for tr1 app1 b fl setHead ordG gf chainId gv
  proof -
    have "staged N strip app1" "durable N strip app1" "refines N app1 (record tr1)"
      using inv i by (auto simp: life_inv_def committed_def assms(5))
    then show ?thesis by (rule restart_recovers [OF assms(1)]) (use i in blast)+
  qed
qed

section \<open>From genesis\<close>

lemma initValidators_epoch:
  assumes "initValidators e db s vs (st, iv) = Inr (st', iv')"
  shows "s_CurrEpoch st' = s_CurrEpoch st \<and> chv_Height (s_CurrentHeight st') = chv_Height (s_CurrentHeight st)"
  using assms
proof (induction vs arbitrary: st iv)
  case (Cons v vs)
  have ins: "s_CurrEpoch st1 = s_CurrEpoch st \<and> s_CurrentHeight st1 = s_CurrentHeight st"
    if "InsertPosItemInit e a bal ben pk bls st = Inr (st1, err)" for a bal ben pk bls st1 err
    using that by (auto simp: InsertPosItemInit_def Let_def split: prod.splits)
  from Cons.prems show ?case
    by (auto split: option.splits if_splits dest!: Cons.IH ins)
qed simp

text \<open>\<open>InitChain\<close> stores the tables: it runs at height 0, which ends an epoch.\<close>

lemma InitChain_staged:
  assumes "storage_laws (ne_ps N)" and "places_ok (ne_env N)"
    and "InitChain (ne_env N) (ne_db N) (ne_ps N) us app = Inr app'"
    and "chv_Height (s_CurrentHeight (a_strategy app)) = 0" and "json_ok N strip app'"
  shows "staged N strip app'"
proof -
  let ?e = "ne_env N" and ?ps = "ne_ps N"
  define st where "st st1 iv pt = (SetInitialValidators iv st1)\<lparr>s_NextPosTable := Some (InitStruct ?e pt),
      s_CurrEpoch := (s_CurrEpoch (SetInitialValidators iv st1))\<lparr>cev_PosTable :=
        Some (ExportSortedSigners ?e (CopyPosTable ?e (InitStruct ?e pt)))\<rparr>\<rparr>" for st1 iv pt
  from assms(3) obtain st0 st1 iv pt gv where t: "SetPosTableThreshold ?e (a_strategy app) = Inr st0"
    and l: "initValidators ?e (ne_db N) (currentState app) us (st0, []) = Inr (st1, iv)"
    and p0: "SetPersistenceData ?e ?ps (app\<lparr>a_strategy := st st1 iv pt, a_vars := gv\<rparr>) = Inr app'"
    by (auto simp: InitChain_def Let_def st_def split: if_splits)
  define app1 where "app1 = app\<lparr>a_strategy := st st1 iv pt, a_vars := gv\<rparr>"
  have app1: "a_strategy app1 = st st1 iv pt" by (simp add: app1_def)
  note p = p0 [folded app1_def]
  have st': "a_strategy app' = a_strategy app1" using SetPersistenceData_Inr [OF p] by auto
  obtain tb where tb: "TotalBalance (s_CurrEpoch (a_strategy app)) = Some tb" "big_Int64 tb \<noteq> 0"
    and st0: "s_CurrEpoch st0 = s_CurrEpoch (a_strategy app)" "s_CurrentHeight st0 = s_CurrentHeight (a_strategy app)"
    using t by (auto simp: SetPosTableThreshold_def split: if_splits)
  have h: "chv_Height (s_CurrentHeight (a_strategy app1)) = 0" and ep: "epochData_ok (s_CurrEpoch (a_strategy app1))"
    using initValidators_epoch [OF l] assms(4) tb st0
    by (simp_all add: app1 st_def SetInitialValidators_def epochData_ok_def)
  have nxt: "s_NextPosTable (a_strategy app1) = Some (InitStruct ?e pt)" by (simp add: app1 st_def)
  have "stored ?e ?ps (currentState app') (s_CurrEpoch (a_strategy app1)) (InitStruct ?e pt)"
    using SetPersistenceData_stored(1) [OF assms(1,2) p nxt h [symmetric]] by simp
  moreover have "codec_ok ?e ?ps strip (s_CurrentHeight (a_strategy app1)) (s_CurrEpoch (a_strategy app1)) (InitStruct ?e pt)"
    using assms(5) nxt by (simp add: json_ok_def st')
  moreover have "inEpoch ?e strip (s_CurrEpoch (a_strategy app1)) (s_CurrEpoch (a_strategy app'))"
    using ep by (auto simp: inEpoch_def epochData_ok_def st')
  ultimately show ?thesis using ep by (auto simp: staged_def vault_def st')
qed

section \<open>Witness\<close>

text \<open>A chain that keeps the state of every block, and a codec for given values.\<close>

definition vaultEth :: "((Header \<times> store) list, Header, store, unit, 'w) ethenv" where
  "vaultEth =
     \<lparr>bc_State = (\<lambda>bc. Inr (snd (hd bc))), CurrentBlock = (\<lambda>bc. fst (hd bc)),
      PendingBlockNumber = (\<lambda>bc. hd_Number (fst (hd bc)) + 1),
      WriteBlockWithState = (\<lambda>bc b rs ls s. ((b, s) # bc, None)),
      b_Number = hd_Number, b_Hash = (\<lambda>b. word_of_int (hd_Number b)), b_Difficulty = hd_Difficulty,
      b_Time = hd_Time, NewBlock = (\<lambda>h txs rs. h), CalcGasLimit = GasLimit,
      CalcDifficulty = (\<lambda>bc t p. 1), state_Commit = (\<lambda>s. (s, Inr 5)), Prepare = (\<lambda>s a b i. s),
      GetLogs = (\<lambda>s a. []),
      ApplyTransactionWithInfo = (\<lambda>bc h tx i x. (x, Inr \<lparr>r_Logs = [], r_rest = ()\<rparr>))\<rparr>"

definition codecFor :: "CurrentHeightValData \<Rightarrow> unit CurrEpochValData \<Rightarrow> unit PosTable \<Rightarrow> (store, unit) persist" where
  "codecFor d ep nx = samplePersist
     \<lparr>UnmarshalCurrEpoch := (\<lambda>b old. Inr (old\<lparr>cev_PosTable := cev_PosTable ep, TotalBalance := TotalBalance ep\<rparr>)),
      UnmarshalHeight := (\<lambda>b old. Inr (old\<lparr>chv_Height := chv_Height d, Validators := Validators old ++ Validators d\<rparr>)),
      InitPosTable := (\<lambda>s. nx)\<rparr>"

definition crashEnv ::
  "(store, unit) persist \<Rightarrow> ((Header \<times> store) list, Header, store, unit, unit) nodeenv" where
  "crashEnv ps =
     \<lparr>ne_env = sampleEnv, ne_db = sampleStoreDb, ne_ps = ps, ne_en = vaultEth, ne_te = sampleTxEnv,
      ne_w = sampleVersion, ne_canonicalHash = (\<lambda>c. 0), ne_upgradeConfig = (\<lambda>h c. c),
      ne_ordV = sortedKeys, ne_ordA = sortedKeys\<rparr>"

definition crashStore :: store where
  "crashStore = (\<lambda>a. if a = SendToLock sampleEnv then [4] else [1], \<lambda>p. 0, \<lambda>p. [])"

definition crashNode :: "((Header \<times> store) list, Header, store, unit, unit) EthermintApplication" where
  "crashNode =
     \<lparr>a_backend = \<lparr>be_chain = [(sampleHeader, crashStore)], be_work = sampleStoreWork\<lparr>ws_state := crashStore\<rparr>,
        currentTxInfo = sampleTxInfo 0, cachedTxInfo = Map.empty\<rparr>,
      a_checkTxState = crashStore, a_strategy = SetInitialAccountMap sampleMap (sampleStrategy 5 0),
      a_punishment = appPunishment, a_vars = sampleVars\<lparr>EthAuthTable := Some sampleAuthTable\<rparr>,
      a_evmErrHeight = 0\<rparr>"

lemma codecFor_fields [simp]:
  "GetCode (codecFor d ep nx) = GetCode samplePersist" "SetCode (codecFor d ep nx) = SetCode samplePersist"
  "GetState (codecFor d ep nx) = GetState samplePersist" "SetState (codecFor d ep nx) = SetState samplePersist"
  "TryGet (codecFor d ep nx) = TryGet samplePersist" "TryUpdate (codecFor d ep nx) = TryUpdate samplePersist"
  "BytesToHash (codecFor d ep nx) = BytesToHash samplePersist" "Keccak256Hash (codecFor d ep nx) = Keccak256Hash samplePersist"
  "MarshalPosTable (codecFor d ep nx) = MarshalPosTable samplePersist" "MarshalAuthTable (codecFor d ep nx) = MarshalAuthTable samplePersist"
  "MarshalExtendAuthTable (codecFor d ep nx) = MarshalExtendAuthTable samplePersist"
  "MarshalCurrEpoch (codecFor d ep nx) = MarshalCurrEpoch samplePersist"
  "MarshalHeight (codecFor d ep nx) = MarshalHeight samplePersist"
  by (simp_all add: codecFor_def samplePersist_def)

lemma codecFor_persists: "SetPersistenceData e (codecFor d ep nx) app = SetPersistenceData e samplePersist app"
proof -
  have "persistAuth e (codecFor d ep nx) st s = persistAuth e samplePersist st s" for st s
    by (cases "s_AuthTable st") (simp_all add: persistAuth_def Let_def)
  then show ?thesis by (simp add: SetPersistenceData_def persistNext_def persistHeight_def Let_def cong: if_cong)
qed

lemma codecFor_ok: "codec_ok e (codecFor d ep nx) id d ep nx"
  by (simp add: codec_ok_def) (simp add: codecFor_def samplePersist_def option.map_id)

lemma crash_laws: "restart_laws (crashEnv (codecFor d ep nx))"
proof -
  have "storage_laws (codecFor d ep nx)" using sample_storage_laws by (simp add: storage_laws_def)
  moreover have "length (HeightArray sampleVersion) \<le> length (VersionArray sampleVersion)" by (simp add: sampleVersion_def)
  ultimately show ?thesis
    by (auto simp: restart_laws_def crashEnv_def node_laws_def range_order_sortedKeys blockchain_laws_def sample_places
        accounts_keep_code_def durable_chain_def vaultEth_def sampleStoreDb_def)
qed

lemma crash_begin:
  obtains app1 where "beginAndDeliver (crashEnv ps) sampleBlock crashNode = Inr app1"
    and "s_NextPosTable (a_strategy app1) = Some samplePosTable" and "s_AuthTable (a_strategy app1) = Some sampleAuthTable"
    and "EthAuthTable (a_vars app1) = Some sampleAuthTable" and "BlockVersion (s_HF (a_strategy app1)) = 4"
    and "chv_Height (s_CurrentHeight (a_strategy app1)) = 600" and "recorded app1 = Map.empty"
proof -
  have "s_NextPosTable (a_strategy crashNode) = Some samplePosTable"
    "samplePosTable\<lparr>ChangedFlagThisBlock := False\<rparr> = samplePosTable"
    "s_AuthTable (a_strategy crashNode) = Some sampleAuthTable" "IsHarfForkPassed (s_HF (a_strategy crashNode))"
    "EthAuthTable (a_vars crashNode) = Some sampleAuthTable"
    "Validators (s_CurrentHeight (a_strategy crashNode)) = Map.empty"
    by (simp_all add: crashNode_def sampleMap_def SetInitialAccountMap_def sampleStrategy_def NewStrategy_def
        samplePosTable_def)
  then have "\<exists>app1. beginAndDeliver (crashEnv ps) sampleBlock crashNode = Inr app1 \<and>
      s_NextPosTable (a_strategy app1) = Some samplePosTable \<and> s_AuthTable (a_strategy app1) = Some sampleAuthTable \<and>
      EthAuthTable (a_vars app1) = Some sampleAuthTable \<and> BlockVersion (s_HF (a_strategy app1)) = 4 \<and>
      chv_Height (s_CurrentHeight (a_strategy app1)) = 600 \<and> recorded app1 = Map.empty"
    by (simp add: beginAndDeliver_def BeginBlock_def Let_def crashEnv_def sampleBlock_def
        sample_version_600 Receiver_def DoPunish_def recorded_def setCurrentState_def)
  then show ?thesis using that by blast
qed

lemma crash_runBlock:
  obtains app' us h where "\<forall>d ep nx. block_ok (crashEnv (codecFor d ep nx)) sampleBlock crashNode \<and>
    runBlock (crashEnv (codecFor d ep nx)) sampleBlock crashNode = Some (Inr (app', us, Some h))"
    and "cev_PosTable (s_CurrEpoch (a_strategy app')) = Some samplePosTable"
    and "TotalBalance (s_CurrEpoch (a_strategy app')) = TotalBalance (s_CurrEpoch (a_strategy crashNode))"
proof -
  let ?N = "crashEnv samplePersist"
  obtain app1 where b: "beginAndDeliver ?N sampleBlock crashNode = Inr app1"
    and f: "s_NextPosTable (a_strategy app1) = Some samplePosTable" "s_AuthTable (a_strategy app1) = Some sampleAuthTable"
      "EthAuthTable (a_vars app1) = Some sampleAuthTable" "BlockVersion (s_HF (a_strategy app1)) = 4"
      "chv_Height (s_CurrentHeight (a_strategy app1)) = 600" "recorded app1 = Map.empty"
    by (rule crash_begin)
  have ok: "endblock_ok sampleEnv sampleVersion 600 None app1"
    using sample_postable_ok f by (simp add: endblock_ok_def sampleVersion_def) (simp add: sampleEnv_def)
  have "keyed sampleEnv (recorded app1)" by (simp add: f keyed_def)
  from endblock_step [OF this range_order_sortedKeys ok, of "\<lambda>c. 0" "\<lambda>h c. c" sortedKeys]
  obtain app2 resp where e: "endOf ?N sampleBlock app1 = Some (Inr (app2, resp))"
    by (auto simp: answers_def endOf_def crashEnv_def sampleBlock_def)
  have tb: "TotalBalance (s_CurrEpoch (a_strategy app1)) = TotalBalance (s_CurrEpoch (a_strategy crashNode))"
    using b by (auto simp: beginAndDeliver_def BeginBlock_def Let_def crashEnv_def sampleBlock_def DoPunish_def setCurrentState_def)
  have f2: "s_NextPosTable (a_strategy app2) = Some samplePosTable \<and> BlockVersion (s_HF (a_strategy app2)) = 4 \<and>
      s_AuthTable (a_strategy app2) \<noteq> None \<and> chv_Height (s_CurrentHeight (a_strategy app2)) = 600 \<and>
      cev_PosTable (s_CurrEpoch (a_strategy app2)) = Some samplePosTable \<and>
      TotalBalance (s_CurrEpoch (a_strategy app2)) = TotalBalance (s_CurrEpoch (a_strategy app1))"
    using e f
    by (auto simp: endOf_def crashEnv_def sampleBlock_def EndBlock_def epochChange_def atEpochEnd_def
        GetUpdatedValidators_def blsValidators_def getAuthTmItems_def Let_def mapBackend_def sample_defs
        split: sum.splits if_splits)
  then obtain app3 h where c: "app_Commit sampleEnv sampleStoreDb samplePersist
      (vaultEth :: ((Header \<times> store) list, Header, store, unit, unit world) ethenv) app2 = Inr (app3, Some h)"
    by (auto simp: app_Commit_def be_AccumulateRewards_def AccumulateRewards_def SetPersistenceData_def
        persistNext_def persistAuth_def atEpochEnd_def be_Commit_def es_Commit_def commit_def
        resetWorkState_def Let_def vaultEth_def sampleEnv_def split_def)
  have "block_ok (crashEnv (codecFor d ep nx)) sampleBlock crashNode \<and>
      runBlock (crashEnv (codecFor d ep nx)) sampleBlock crashNode = Some (Inr (app3, ValidatorUpdates resp, Some h))"
    for d ep nx
  proof -
    have "beginAndDeliver (crashEnv (codecFor d ep nx)) sampleBlock crashNode = Inr app1"
      using b by (auto simp: beginAndDeliver_def crashEnv_def sampleBlock_def panic_bind_def split: sum.splits)
    moreover have "endOf (crashEnv (codecFor d ep nx)) sampleBlock app1 = Some (Inr (app2, resp))"
      using e by (simp add: endOf_def crashEnv_def)
    ultimately show ?thesis
      using c ok by (simp add: runBlock_def block_ok_def app_Commit_def codecFor_persists)
        (simp add: crashEnv_def sampleBlock_def app_Commit_def codecFor_persists)
  qed
  moreover have "a_strategy app3 = a_strategy app2"
    using Commit_facts [OF _ c] crash_laws [of _ _ _, THEN restart_lawsD(1)] by (simp add: node_laws_def crashEnv_def)
  ultimately show ?thesis using that f2 tb by simp
qed

theorem node_survives_crashes_witness:
  "\<exists>d ep nx app us h app2 app3 resp.
    runBlock (crashEnv (codecFor d ep nx)) sampleBlock crashNode = Some (Inr (app, us, Some h)) \<and>
    startApp sampleEnv (vaultEth :: ((Header \<times> store) list, Header, store, unit, unit world) ethenv) (codecFor d ep nx)
      sampleVersion (\<lambda>h c. c) sortedKeys sampleFiles (sampleFlags False) 15 (a_backend app) sampleVars = Inr app2 \<and>
    Info sampleVersion (vaultEth :: ((Header \<times> store) list, Header, store, unit, unit world) ethenv) app2 =
      Inr (app3, resp) \<and> recorded app3 = recorded app \<and> LastBlockHeight resp = 1"
proof -
  obtain app us h where run: "\<forall>d ep nx. block_ok (crashEnv (codecFor d ep nx)) sampleBlock crashNode \<and>
      runBlock (crashEnv (codecFor d ep nx)) sampleBlock crashNode = Some (Inr (app, us, Some h))"
    and pt: "cev_PosTable (s_CurrEpoch (a_strategy app)) = Some samplePosTable"
    and tb: "TotalBalance (s_CurrEpoch (a_strategy app)) = TotalBalance (s_CurrEpoch (a_strategy crashNode))"
    by (rule crash_runBlock)
  define d ep nx where "d = s_CurrentHeight (a_strategy app)" and "ep = s_CurrEpoch (a_strategy app)"
    and "nx = the (s_NextPosTable (a_strategy app))"
  let ?N = "crashEnv (codecFor d ep nx)"
  have ok: "block_ok ?N sampleBlock crashNode"
    and r: "runBlock ?N sampleBlock crashNode = Some (Inr (app, us, Some h))" using run by simp_all
  have e0: "epochData_ok (s_CurrEpoch (a_strategy crashNode))"
    by (simp add: epochData_ok_def crashNode_def sampleMap_def SetInitialAccountMap_def sampleStrategy_def big_Int64_def i64_def)
  have "epochData_ok ep" unfolding ep_def by (rule runBlock_epoch [OF crash_laws r e0])
  moreover have "stored sampleEnv (codecFor d ep nx) crashStore ep nx"
    by (simp add: stored_def samplePersist_def crashStore_def) (simp add: sampleEnv_def)
  moreover have "inEpoch sampleEnv id ep (s_CurrEpoch (a_strategy crashNode))"
    using pt tb unfolding ep_def inEpoch_def
    by (simp add: crashNode_def sampleMap_def SetInitialAccountMap_def sampleStrategy_def)
  moreover have "currentState crashNode = crashStore" by (simp add: currentState_def crashNode_def)
  ultimately have st: "staged ?N id crashNode"
    unfolding staged_def vault_def using e0 codecFor_ok [of sampleEnv d ep nx] by (auto simp: crashEnv_def)
  have j: "json_ok ?N id app" using codecFor_ok [of sampleEnv d ep nx]
    by (auto simp: json_ok_def crashEnv_def d_def ep_def nx_def)
  have ref: "refines ?N crashNode \<lparr>tm_Height = 0, tm_AppHash = 0, tm_Validators = Map.empty\<rparr>" (is "refines _ _ ?t")
    by (simp add: refines_def keyed_def recorded_def crashNode_def SetInitialAccountMap_def sampleStrategy_def NewStrategy_def
        sampleStoreWork_def sampleHeader_def crashEnv_def vaultEth_def)
  have life: "node_life ?N id crashNode ([] @ [(us, h)]) (([] @ [(us, h)], app) # []) app"
    by (rule life_block [OF life_start ok r j])
  have i: "interrupted ?N app app" "\<not> fl_RollbackFlag (sampleFlags False)"
    by (simp_all add: interrupted_def sampleFlags_def)
  note lives = node_survives_crashes [OF crash_laws ref st life refl]
  have "reopens ?N (a_backend app) app" using lives i(1) by fastforce
  with lives i(2)
  obtain app2 app3 resp where "startApp (ne_env ?N) (ne_en ?N) (ne_ps ?N) (ne_w ?N) (\<lambda>h c. c) sortedKeys sampleFiles
      (sampleFlags False) 15 (a_backend app) sampleVars = Inr app2"
    and "Info (ne_w ?N) (ne_en ?N) app2 = Inr (app3, resp)" and "recorded app3 = recorded app"
    and "LastBlockHeight resp = big_Int64 (tm_Height (tmBlock sampleEnv (us, h) ?t))"
    by (fastforce simp: crashEnv_def)
  with r show ?thesis by (intro exI) (auto simp: crashEnv_def tmBlock_def big_Int64_def i64_def)
qed

end
