(* ===== verification/Replicas.thy ===== *)
theory Replicas
  imports NodeProgress
begin

text \<open>
  Replicas of the application. Tendermint gives every node of a network the same blocks; the nodes differ in
  what reaches their memory pools, hence in the check state and in the cache of transaction infos, and in the
  order in which the Go runtime walks over their maps. The theory shows that none of this is visible in what
  the nodes agree on: states, hashes, validators.
\<close>

section \<open>What replicas share\<close>

text \<open>Everything but the check state, the transaction infos of the pool, and the senders stored in the
  transactions of the block under construction: a node that finds the info of a relayed transaction in its
  cache hands the transaction on as decoded, one that does not stores the sender in it.\<close>

definition shared :: "('c, 'b, 's, 'l, 'x) EthermintApplication \<Rightarrow>
    'c \<times> ('b, 's, 'l) workState \<times> 'x Strategy \<times> Punishment \<times> 'x txfilterVars \<times> int" where
  "shared app = (be_chain (a_backend app), sealed (be_work (a_backend app)), a_strategy app, a_punishment app, a_vars app,
     a_evmErrHeight app)"

lemma sealedE:
  assumes "sealed ws' = sealed ws"
  obtains T where "ws' = ws\<lparr>transactions := T\<rparr>" and "map unsent T = map unsent (transactions ws)"
proof -
  have "ws' = ws\<lparr>transactions := transactions ws'\<rparr>" "map unsent (transactions ws') = map unsent (transactions ws)"
    using assms by (cases ws; cases ws'; simp add: sealed_def)+
  then show ?thesis by (rule that)
qed

definition pooled :: "(hash \<rightharpoonup> TxInfo) \<Rightarrow> TxInfo \<Rightarrow> 's \<Rightarrow> Transaction list \<Rightarrow> ('c, 'b, 's, 'l, 'x) EthermintApplication \<Rightarrow>
    ('c, 'b, 's, 'l, 'x) EthermintApplication" where
  "pooled c i s T app = app\<lparr>a_checkTxState := s, a_backend := (a_backend app)
     \<lparr>currentTxInfo := i, cachedTxInfo := c, be_work := (be_work (a_backend app))\<lparr>transactions := T\<rparr>\<rparr>\<rparr>"

text \<open>The transactions of the block, without the stored senders.\<close>

definition pendingTxs :: "('c, 'b, 's, 'l, 'x) EthermintApplication \<Rightarrow> Transaction list" where
  "pendingTxs app = map unsent (transactions (be_work (a_backend app)))"

lemma shared_pooled: "map unsent T = pendingTxs app \<Longrightarrow> shared (pooled c i s T app) = shared app"
  by (simp add: shared_def pooled_def sealed_def pendingTxs_def)

lemma sharedE:
  assumes "shared app' = shared app"
  obtains c i s T where "app' = pooled c i s T app" and "map unsent T = pendingTxs app"
proof -
  have "sealed (be_work (a_backend app')) = sealed (be_work (a_backend app))" using assms by (simp add: shared_def)
  then obtain T where w: "be_work (a_backend app') = (be_work (a_backend app))\<lparr>transactions := T\<rparr>"
    and T: "map unsent T = pendingTxs app" by (auto simp: pendingTxs_def elim: sealedE)
  have "app' = pooled (cachedTxInfo (a_backend app')) (currentTxInfo (a_backend app')) (a_checkTxState app') T app"
    using assms w by (cases app; cases app'; cases "a_backend app"; cases "a_backend app'") (simp add: shared_def pooled_def)
  from that [OF this T] show ?thesis .
qed

lemma pooled_fields [simp]:
  "be_chain (a_backend (pooled c i s T app)) = be_chain (a_backend app)"
  "be_work (a_backend (pooled c i s T app)) = (be_work (a_backend app))\<lparr>transactions := T\<rparr>"
  "cachedTxInfo (a_backend (pooled c i s T app)) = c" "a_strategy (pooled c i s T app) = a_strategy app"
  "a_vars (pooled c i s T app) = a_vars app" "a_punishment (pooled c i s T app) = a_punishment app"
  by (simp_all add: pooled_def)

section \<open>The handlers of a block\<close>

text \<open>The pool has no part in any of them, except that a delivery looks for the info of its transaction.\<close>

lemma BeginBlock_pooled:
  "BeginBlock e db en w req (pooled c i s T app) = map_sum id (pooled c i s []) (BeginBlock e db en w req app)"
  by (auto simp: BeginBlock_def Let_def pooled_def panic_bind_def currentState_def setCurrentState_def
      be_UpdateHeaderWithTimeInfo_def updateHeaderWithTimeInfo_def updateHeaderCoinbase_def split: sum.splits prod.splits)

lemma BeginBlock_pending: "BeginBlock e db en w req app = Inr app' \<Longrightarrow> pendingTxs app' = []"
  by (auto simp: BeginBlock_def Let_def pendingTxs_def setCurrentState_def
      be_UpdateHeaderWithTimeInfo_def updateHeaderWithTimeInfo_def updateHeaderCoinbase_def)

lemma epochChange_pooled:
  "epochChange e w cH uC height (pooled c i s T app) = map_sum id (pooled c i s T) (epochChange e w cH uC height app)"
  by (auto simp: epochChange_def Let_def pooled_def panic_bind_def mapBackend_def split: sum.splits)

lemma EndBlock_pooled:
  "EndBlock e w cH uC ordV ordA height seed (pooled c i s T app) =
    map_option (map_sum id (map_prod (pooled c i s T) id)) (EndBlock e w cH uC ordV ordA height seed app)"
proof -
  have u: "(pooled c i s T app)\<lparr>a_strategy := st, a_vars := gv\<rparr> = pooled c i s T (app\<lparr>a_strategy := st, a_vars := gv\<rparr>)"
    for app :: "('a, 'b, 'c, 'd, 'e) EthermintApplication" and st gv by (simp add: pooled_def)
  show ?thesis
    by (auto simp: EndBlock_def epochChange_pooled u panic_bind_def option.map_comp o_def split: sum.splits prod.splits
        intro!: option.map_cong)
qed

lemma EndBlock_pending:
  assumes "EndBlock e w cH uC ordV ordA height seed app = Some (Inr (app', resp))"
  shows "pendingTxs app' = pendingTxs app"
  using EndBlock_frame [OF assms] by (simp add: pendingTxs_def)

text \<open>A block is made of the encoded transactions, so the stored senders do not get into the chain; the next
  block starts without transactions.\<close>

lemma commit_txs:
  assumes "sender_unseen en" and "map unsent T = map unsent (transactions ws)" and "commit en bc ws = ((bc', ws'), r)"
  shows "commit en bc (ws\<lparr>transactions := T\<rparr>) = ((bc', ws'\<lparr>transactions := T\<rparr>), r) \<and> transactions ws' = transactions ws"
  using assms(3) sender_unseenD(2) [OF assms(1,2)]
  by (auto simp: commit_def Let_def split: prod.splits sum.splits option.splits)

lemma es_Commit_txs:
  assumes "sender_unseen en" and "map unsent T = map unsent (transactions ws)" and "es_Commit en bc ws = ((bc', ws'), r)"
  shows "\<exists>T'. es_Commit en bc (ws\<lparr>transactions := T\<rparr>) = ((bc', ws'\<lparr>transactions := T'\<rparr>), r) \<and>
    map unsent T' = map unsent (transactions ws')"
proof -
  obtain bc1 ws1 q where c: "commit en bc ws = ((bc1, ws1), q)" by (metis surj_pair)
  have c': "commit en bc (ws\<lparr>transactions := T\<rparr>) = ((bc1, ws1\<lparr>transactions := T\<rparr>), q)" and t: "transactions ws1 = transactions ws"
    using commit_txs [OF assms(1,2) c] by simp_all
  have self: "w\<lparr>transactions := transactions w\<rparr> = w" for w :: "('b, 'c, 'd) workState" by simp
  show ?thesis
  proof (cases "\<exists>err. r = Inl err")
    case True
    then have "es_Commit en bc (ws\<lparr>transactions := T\<rparr>) = ((bc', ws'\<lparr>transactions := T\<rparr>), r) \<and> transactions ws' = transactions ws"
      using assms(3) c c' t by (auto simp: es_Commit_def split: sum.splits)
    with assms(2) show ?thesis by auto
  next
    case False
    then have "es_Commit en bc (ws\<lparr>transactions := T\<rparr>) = ((bc', ws'), r)"
      using assms(3) c c' by (auto simp: es_Commit_def split: sum.splits)
    then show ?thesis by (intro exI [of _ "transactions ws'"]) simp
  qed
qed

lemma app_Commit_pooled:
  assumes "sender_unseen en" and "map unsent T = pendingTxs app" and "app_Commit e db ps en app = Inr (app', h)"
  shows "\<exists>T'. app_Commit e db ps en (pooled c i s T app) = Inr (pooled c i (a_checkTxState app') T' app', h) \<and>
    map unsent T' = pendingTxs app'"
proof -
  let ?tx = "\<lambda>b. b\<lparr>currentTxInfo := i, cachedTxInfo := c, be_work := (be_work b)\<lparr>transactions := T\<rparr>\<rparr>"
  obtain b1 app1 where r: "be_AccumulateRewards db (a_strategy app) (a_backend app) = Inr b1"
    and p: "SetPersistenceData e ps (app\<lparr>a_backend := b1\<rparr>) = Inr app1"
    using assms(3) by (auto simp: app_Commit_def)
  obtain sx where app1: "app1 = setCurrentState sx (app\<lparr>a_backend := b1\<rparr>)" using SetPersistenceData_Inr [OF p] by blast
  obtain bc' ws' q where es: "es_Commit en (be_chain (a_backend app1)) (be_work (a_backend app1)) = ((bc', ws'), q)"
    by (metis surj_pair)
  have r': "be_AccumulateRewards db (a_strategy app) (?tx (a_backend app)) = Inr (?tx b1)"
    and t1: "transactions (be_work b1) = transactions (be_work (a_backend app))"
    using r by (auto simp: be_AccumulateRewards_def AccumulateRewards_def accumulateRewards_def Let_def split: if_splits)
  have p': "SetPersistenceData e ps ((pooled c i s T app)\<lparr>a_backend := ?tx b1\<rparr>) = Inr (pooled c i s T app1)"
    using p by (auto simp: SetPersistenceData_def Let_def pooled_def panic_bind_def currentState_def setCurrentState_def
        split: sum.splits)
  have "map unsent T = map unsent (transactions (be_work (a_backend app1)))"
    using assms(2) t1 by (simp add: app1 setCurrentState_def pendingTxs_def)
  from es_Commit_txs [OF assms(1) this es] obtain T' where
    es': "es_Commit en (be_chain (a_backend app1)) ((be_work (a_backend app1))\<lparr>transactions := T\<rparr>) =
      ((bc', ws'\<lparr>transactions := T'\<rparr>), q)" and T': "map unsent T' = map unsent (transactions ws')" by blast
  have "app' = app1\<lparr>a_checkTxState := currentState app1, a_backend := (a_backend app1)\<lparr>be_chain := bc', be_work := ws'\<rparr>\<rparr>"
    using assms(3) r p es by (auto simp: app_Commit_def be_Commit_def Let_def split: sum.splits)
  moreover have "app_Commit e db ps en (pooled c i s T app) = Inr (pooled c i (a_checkTxState app') T' app', h)"
    using assms(3) r p es r' p' es'
    by (auto simp: app_Commit_def be_Commit_def Let_def pooled_def currentState_def split: sum.splits)
  ultimately show ?thesis using T' by (auto simp: pendingTxs_def)
qed

section \<open>Deliveries\<close>

text \<open>Two infos the virtual machine does not tell apart.\<close>

definition evm_same :: "('c, 'b, 's, 'l, 'w) ethenv \<Rightarrow> TxInfo \<Rightarrow> TxInfo \<Rightarrow> bool" where
  "evm_same en i j \<longleftrightarrow> (\<forall>bc h tx x. ApplyTransactionWithInfo en bc h tx i x = ApplyTransactionWithInfo en bc h tx j x)"

text \<open>An info stored for a hash is good when a delivery of a transaction with that hash would compute it,
  or one that makes no difference.\<close>

definition info_sound ::
  "('c, 'b, 's, 'l, 'x world) ethenv \<Rightarrow> 'x txenv \<Rightarrow> 'x Strategy \<Rightarrow> hash \<Rightarrow> TxInfo \<Rightarrow> bool" where
  "info_sound en te st h i \<longleftrightarrow>
     (\<forall>txBytes tx. DecodeRLP te txBytes = Inr tx \<and> tx_Hash tx = h \<longrightarrow>
        (\<exists>j. deliverTxInfo te st tx = goOn j \<and> evm_same en i j))"

definition cache_sound ::
  "('c, 'b, 's, 'l, 'x world) ethenv \<Rightarrow> 'x txenv \<Rightarrow> ('c, 'b, 's, 'l, 'x) EthermintApplication \<Rightarrow> bool" where
  "cache_sound en te app \<longleftrightarrow>
     (\<forall>h i. cachedTxInfo (a_backend app) h = Some i \<longrightarrow> info_sound en te (a_strategy app) h i)"

text \<open>A hash identifies a transaction among those that can be decoded.\<close>

definition hash_identifies :: "'x txenv \<Rightarrow> bool" where
  "hash_identifies te \<longleftrightarrow>
     (\<forall>b b' tx tx'. DecodeRLP te b = Inr tx \<and> DecodeRLP te b' = Inr tx' \<and> tx_Hash tx = tx_Hash tx' \<longrightarrow> tx = tx')"

lemma deliverTx_twin:
  assumes "sender_unseen en" and "unsent t' = unsent t" and "evm_same en k' k" and "sealed ws' = sealed ws"
    and "deliverTx en bc t k (ws, w) = ((ws1, w1), r)"
  obtains ws1' where "deliverTx en bc t' k' (ws', w) = ((ws1', w1), r)" and "sealed ws1' = sealed ws1"
proof -
  obtain T where ws': "ws' = ws\<lparr>transactions := T\<rparr>" and T: "map unsent T = map unsent (transactions ws)"
    by (rule sealedE [OF assms(4)])
  have "ApplyTransactionWithInfo en bc h t' k' x = ApplyTransactionWithInfo en bc h t k x" for h x
    using sender_unseenD(1) [OF assms(1,2)] assms(3) [unfolded evm_same_def, rule_format] by simp
  moreover have "tx_Hash t' = tx_Hash t" using assms(2) by (metis unsent_simps(3))
  ultimately have "\<exists>ws1'. deliverTx en bc t' k' (ws', w) = ((ws1', w1), r) \<and> sealed ws1' = sealed ws1"
    using assms(5) T assms(2) by (auto simp: deliverTx_def ws' Let_def sealed_def split: prod.splits sum.splits)
  with that show ?thesis by blast
qed

text \<open>A delivery with a good cache: what is run is the transaction, with a sender stored in it or not, with an
  info the virtual machine does not tell from the computed one.\<close>

definition delivered ::
  "(hash \<rightharpoonup> TxInfo) \<Rightarrow> (('b, 's, 'l) workState \<times> 'x world) \<times> ResponseDeliverTx \<Rightarrow> ('c, 'b, 's, 'l, 'x) EthermintApplication \<Rightarrow>
     panic + ('c, 'b, 's, 'l, 'x) EthermintApplication \<times> ResponseDeliverTx" where
  "delivered c res app =
     (case res of ((ws, w), r) \<Rightarrow>
        Inr (setWorld w (app\<lparr>a_backend := (a_backend app)\<lparr>cachedTxInfo := c, be_work := ws\<rparr>\<rparr>),
          if rd_Code r \<noteq> CodeOK then r else \<lparr>rd_Code = CodeOK, rd_Log = NoReason\<rparr>))"

lemma app_DeliverTx_canon:
  assumes "cache_sound en te app" and "DecodeRLP te txBytes = Inr tx" and j: "deliverTxInfo te (a_strategy app) tx = goOn j"
  obtains t k c where "unsent t = unsent tx" and "evm_same en k j"
    and "app_DeliverTx en te txBytes app =
      delivered c (deliverTx en (be_chain (a_backend app)) t k (be_work (a_backend app), worldOf app)) app"
proof (cases "cachedTxInfo (a_backend app) (tx_Hash tx)")
  case None
  obtain t where t: "ti_Tx j = Some t" "unsent t = unsent tx" by (rule deliverTxInfo_tx [OF j]) blast
  show ?thesis
    by (rule that [OF t(2), of j "cachedTxInfo (a_backend app)"])
      (use None j t(1) assms(2) in \<open>auto simp: evm_same_def app_DeliverTx_def Let_def FetchCachedTxInfo_def goOn_def
        deliveredTx_def be_DeliverTx_def delivered_def split: prod.splits\<close>)
next
  case (Some k)
  have "evm_same en k j"
    using assms(1,2) Some j unfolding cache_sound_def info_sound_def by (metis goOn_inject)
  then show ?thesis
    by (rule that [OF refl, of k "(cachedTxInfo (a_backend app))(tx_Hash tx := None)"])
      (use Some assms(2) in \<open>auto simp: app_DeliverTx_def Let_def FetchCachedTxInfo_def DeleteCachedTxInfo_def goOn_def
        deliveredTx_def be_DeliverTx_def delivered_def split: prod.splits\<close>)
qed

lemma deliverTxInfo_signer:
  assumes "s_signer st' = s_signer st"
  shows "deliverTxInfo te st' = deliverTxInfo te st"
  using assms by (simp add: fun_eq_iff deliverTxInfo_def txSigner_def)

text \<open>No handler of a block adds to the cache or changes the signer.\<close>

definition pool_le :: "('c, 'b, 's, 'l, 'x) EthermintApplication \<Rightarrow> ('c, 'b, 's, 'l, 'x) EthermintApplication \<Rightarrow> bool" where
  "pool_le app' app \<longleftrightarrow> cachedTxInfo (a_backend app') \<subseteq>\<^sub>m cachedTxInfo (a_backend app) \<and>
     s_signer (a_strategy app') = s_signer (a_strategy app)"

lemma pool_le_refl [simp]: "pool_le app app"
  by (simp add: pool_le_def)

lemma pool_le_trans: "pool_le app2 app1 \<Longrightarrow> pool_le app1 app \<Longrightarrow> pool_le app2 app"
  by (auto simp: pool_le_def intro: map_le_trans)

lemma cache_sound_le:
  assumes "cache_sound en te app" and "pool_le app' app"
  shows "cache_sound en te app'"
proof -
  have "cachedTxInfo (a_backend app) h = Some i" if "cachedTxInfo (a_backend app') h = Some i" for h i
    using assms(2) that unfolding pool_le_def map_le_def by (metis domI)
  moreover have "deliverTxInfo te (a_strategy app') = deliverTxInfo te (a_strategy app)"
    using assms(2) by (intro deliverTxInfo_signer) (simp add: pool_le_def)
  then have "info_sound en te (a_strategy app') = info_sound en te (a_strategy app)"
    by (simp add: fun_eq_iff info_sound_def)
  ultimately show ?thesis using assms(1) unfolding cache_sound_def by metis
qed

lemma punishAll_signer:
  assumes "punishAll e db p h evs (s, st) = Inr (s', st')"
  shows "s_signer st' = s_signer st"
proof -
  have "s_signer st1 = s_signer st0" if "punishOne e db p h ev (s0, st0) = Inr (s1, st1)" for ev s0 st0 s1 st1
    using that by (auto simp: punishOne_def Let_def split: option.splits if_splits prod.splits)
  with assms show ?thesis by (induction evs arbitrary: s st) auto
qed

lemma BeginBlock_pool: "BeginBlock e db en w req app = Inr app' \<Longrightarrow> pool_le app' app"
  by (auto simp: BeginBlock_def Let_def pool_le_def setCurrentState_def DoPunish_def be_UpdateHeaderWithTimeInfo_def
      dest!: punishAll_signer)

lemma app_DeliverTx_pool: "app_DeliverTx en te txBytes app = Inr (app', r) \<Longrightarrow> pool_le app' app"
  by (auto simp: app_DeliverTx_def Let_def pool_le_def be_DeliverTx_def DeleteCachedTxInfo_def setWorld_def map_le_def
      split: sum.splits prod.splits if_splits)

lemma EndBlock_pool:
  assumes "EndBlock e w cH uC ordV ordA height seed app = Some (Inr (app', resp))"
  shows "pool_le app' app"
proof -
  have "cachedTxInfo (a_backend app') = cachedTxInfo (a_backend app)"
    using assms by (auto simp: EndBlock_def epochChange_def Let_def mapBackend_def split: sum.splits if_splits)
  with EndBlock_view [OF assms refl] show ?thesis by (auto simp: pool_le_def reselected_def)
qed

lemma app_Commit_pool: "app_Commit e db ps en app = Inr (app', h) \<Longrightarrow> pool_le app' app"
  by (auto simp: app_Commit_def be_AccumulateRewards_def SetPersistenceData_def be_Commit_def Let_def pool_le_def
      setCurrentState_def split: prod.splits)

section \<open>Two replicas, one block\<close>

text \<open>Two states that agree on what replicas share, each with good infos in its own cache.\<close>

definition twins ::
  "('c, 'b, 's, 'l, 'x) nodeenv \<Rightarrow> ('c, 'b, 's, 'l, 'x) EthermintApplication \<Rightarrow> ('c, 'b, 's, 'l, 'x) EthermintApplication \<Rightarrow> bool" where
  "twins N app app' \<longleftrightarrow> shared app' = shared app \<and> cache_sound (ne_en N) (ne_te N) app \<and> cache_sound (ne_en N) (ne_te N) app'"

lemma twinsI:
  assumes "twins N app app'" and "shared app1' = shared app1" and "pool_le app1 app" and "pool_le app1' app'"
  shows "twins N app1 app1'"
  using assms unfolding twins_def by (blast intro: cache_sound_le)

lemma BeginBlock_twins:
  assumes "twins N app app'" and "BeginBlock e db en w req app = Inr app1"
  obtains app1' where "BeginBlock e db en w req app' = Inr app1'" and "twins N app1 app1'"
proof -
  obtain c i s T where "app' = pooled c i s T app"
    using assms(1) by (auto simp: twins_def elim: sharedE)
  then have r: "BeginBlock e db en w req app' = Inr (pooled c i s [] app1)" by (simp add: BeginBlock_pooled assms(2))
  have sh: "shared (pooled c i s [] app1) = shared app1"
    by (rule shared_pooled) (simp add: BeginBlock_pending [OF assms(2)])
  show ?thesis by (rule that [OF r twinsI [OF assms(1) sh BeginBlock_pool [OF assms(2)] BeginBlock_pool [OF r]]])
qed

lemma app_DeliverTx_shared:
  assumes U: "sender_unseen en" and sh: "shared app' = shared app" and s: "cache_sound en te app" "cache_sound en te app'"
    and d: "app_DeliverTx en te txBytes app = Inr (app1, r)"
  shows "\<exists>app1'. app_DeliverTx en te txBytes app' = Inr (app1', r) \<and> shared app1' = shared app1"
proof (cases "DecodeRLP te txBytes")
  case (Inl err)
  with d sh show ?thesis by (auto simp: app_DeliverTx_def)
next
  case (Inr tx)
  have f: "be_chain (a_backend app') = be_chain (a_backend app)" "a_strategy app' = a_strategy app"
    "sealed (be_work (a_backend app')) = sealed (be_work (a_backend app))" "worldOf app' = worldOf app"
    using sh by (simp_all add: shared_def worldOf_def)
  show ?thesis
  proof (cases "\<exists>j. deliverTxInfo te (a_strategy app) tx = goOn j")
    case False
    have "FetchCachedTxInfo (tx_Hash tx) (a_backend a) = None" if "cache_sound en te a" "a_strategy a = a_strategy app" for a
      using that Inr False unfolding cache_sound_def info_sound_def FetchCachedTxInfo_def by (metis option.exhaust)
    with s f have n: "FetchCachedTxInfo (tx_Hash tx) (a_backend app) = None" "FetchCachedTxInfo (tx_Hash tx) (a_backend app') = None"
      by blast+
    have "deliverTxInfo te (a_strategy app) tx \<noteq> Inr (Inr i)" for i using False by (simp add: goOn_def)
    with d n f(2) sh Inr show ?thesis by (auto simp: app_DeliverTx_def Let_def split: sum.splits)
  next
    case True
    then obtain j where j: "deliverTxInfo te (a_strategy app) tx = goOn j" by blast
    obtain t k c where t: "unsent t = unsent tx" "evm_same en k j" and run: "app_DeliverTx en te txBytes app =
        delivered c (deliverTx en (be_chain (a_backend app)) t k (be_work (a_backend app), worldOf app)) app"
      by (rule app_DeliverTx_canon [OF s(1) Inr j])
    obtain t' k' c' where t': "unsent t' = unsent tx" "evm_same en k' j" and run': "app_DeliverTx en te txBytes app' =
        delivered c' (deliverTx en (be_chain (a_backend app)) t' k' (be_work (a_backend app'), worldOf app)) app'"
      by (rule app_DeliverTx_canon [OF s(2) Inr j [folded f(2)], unfolded f(1,4)])
    obtain ws w q where e: "deliverTx en (be_chain (a_backend app)) t k (be_work (a_backend app), worldOf app) = ((ws, w), q)"
      by (metis surj_pair)
    have "unsent t' = unsent t" "evm_same en k' k" using t t' by (simp_all add: evm_same_def)
    then obtain ws' where e': "deliverTx en (be_chain (a_backend app)) t' k' (be_work (a_backend app'), worldOf app) = ((ws', w), q)"
      and "sealed ws' = sealed ws" by (rule deliverTx_twin [OF U _ _ f(3) e])
    with run run' e d sh show ?thesis by (auto simp: delivered_def shared_def setWorld_def Let_def split: prod.splits)
  qed
qed

lemma app_DeliverTx_twins:
  assumes "sender_unseen (ne_en N)" and "twins N app app'" and "app_DeliverTx (ne_en N) (ne_te N) tx app = Inr (app1, r)"
  obtains app1' where "app_DeliverTx (ne_en N) (ne_te N) tx app' = Inr (app1', r)" and "twins N app1 app1'"
proof -
  obtain app1' where r: "app_DeliverTx (ne_en N) (ne_te N) tx app' = Inr (app1', r)" and sh: "shared app1' = shared app1"
    using app_DeliverTx_shared [OF assms(1) _ _ _ assms(3)] assms(2) by (auto simp: twins_def)
  show ?thesis
    by (rule that [OF r twinsI [OF assms(2) sh app_DeliverTx_pool [OF assms(3)] app_DeliverTx_pool [OF r]]])
qed

lemma deliverAll_twins:
  assumes "sender_unseen (ne_en N)" and "twins N app app'" and "deliverAll N txs app = Inr app1"
  obtains app1' where "deliverAll N txs app' = Inr app1'" and "twins N app1 app1'"
  using assms(2,3)
proof (induction txs arbitrary: app app' thesis)
  case (Cons tx txs)
  from Cons.prems(3) obtain app2 r where d: "app_DeliverTx (ne_en N) (ne_te N) tx app = Inr (app2, r)"
    and rest: "deliverAll N txs app2 = Inr app1" by auto
  obtain app2' where d': "app_DeliverTx (ne_en N) (ne_te N) tx app' = Inr (app2', r)" and t: "twins N app2 app2'"
    by (rule app_DeliverTx_twins [OF assms(1) Cons.prems(2) d])
  show ?case by (rule Cons.IH [OF _ t rest], rule Cons.prems(1)) (simp_all add: d')
qed simp

lemma beginAndDeliver_twins:
  assumes "sender_unseen (ne_en N)" and "twins N app app'" and "beginAndDeliver N blk app = Inr app1"
  obtains app1' where "beginAndDeliver N blk app' = Inr app1'" and "twins N app1 app1'"
proof -
  from assms(3) obtain app2 where b: "BeginBlock (ne_env N) (ne_db N) (ne_en N) (ne_w N) (bk_Begin blk) app = Inr app2"
    and d: "deliverAll N (bk_Txs blk) app2 = Inr app1" by (auto simp: beginAndDeliver_def)
  obtain app2' where b': "BeginBlock (ne_env N) (ne_db N) (ne_en N) (ne_w N) (bk_Begin blk) app' = Inr app2'"
    and t: "twins N app2 app2'" by (rule BeginBlock_twins [OF assms(2) b])
  obtain app1' where d': "deliverAll N (bk_Txs blk) app2' = Inr app1'" and t1: "twins N app1 app1'"
    by (rule deliverAll_twins [OF assms(1) t d])
  show ?thesis by (rule that [OF _ t1]) (simp add: beginAndDeliver_def b' d')
qed

text \<open>The order in which the changes of the authorisation table are walked over shows in the events only.\<close>

lemma GetUpdatedValidators_auth_order:
  assumes "GetUpdatedValidators e w ordV ordA height seed stg = Some (Inr (stg', resp))"
  shows "\<exists>evs. GetUpdatedValidators e w ordV ordA' height seed stg = Some (Inr (stg', resp\<lparr>Events := evs\<rparr>))"
proof -
  have a: "\<exists>ev'. getAuthTmItems ordA' st = Inr (st', ev')" if "getAuthTmItems ordA st = Inr (st', ev)" for st st' ev
    using that by (auto simp: getAuthTmItems_def Let_def split: option.splits if_splits)
  have f: "\<exists>evs. selectFinish ordV ordA' st sl = Inr (st', resp\<lparr>Events := evs\<rparr>)"
    if "selectFinish ordV ordA st sl = Inr (st', resp)" for st sl st'
    using that by (auto simp: selectFinish_def dest!: a)
  have s: "\<exists>evs. enterSelectValidators e ordV ordA' sd h st = Some (Inr (st', resp\<lparr>Events := evs\<rparr>))"
    if "enterSelectValidators e ordV ordA sd h st = Some (Inr (st', resp))" for sd h st st'
    using that by (auto simp: enterSelectValidators_def split: option.splits dest!: f)
  have b: "\<exists>evs. blsValidators e w ordV ordA' height stg = Inr (stg', resp\<lparr>Events := evs\<rparr>)"
    if "blsValidators e w ordV ordA height stg = Inr (stg', resp)"
    using that by (auto simp: blsValidators_def Let_def dest!: a)
  show ?thesis
    using assms
    by (auto simp: GetUpdatedValidators_def split: sum.splits bool.splits option.splits dest!: s b)
qed

lemma GetUpdatedValidators_orders:
  assumes "keyed e (Validators (s_CurrentHeight (fst stg)))" and "range_order ordV" and "range_order ordV'"
    and "update_ok e w height seed stg" and "GetUpdatedValidators e w ordV ordA height seed stg = Some (Inr (stg', resp))"
  shows "\<exists>resp'. GetUpdatedValidators e w ordV' ordA' height seed stg = Some (Inr (stg', resp')) \<and>
    mset (ValidatorUpdates resp') = mset (ValidatorUpdates resp)"
proof -
  obtain r where "GetUpdatedValidators e w ordV' ordA height seed stg = Some (Inr (stg', r))"
    and m: "mset (ValidatorUpdates r) = mset (ValidatorUpdates resp)"
    using update_order [OF assms(1-4), of ordA] assms(5) by (auto simp: same_answer_def)
  then obtain evs where "GetUpdatedValidators e w ordV' ordA' height seed stg = Some (Inr (stg', r\<lparr>Events := evs\<rparr>))"
    using GetUpdatedValidators_auth_order by blast
  with m show ?thesis by auto
qed

lemma EndBlock_orders:
  assumes k: "keyed e (recorded app)" and o: "range_order ordV" "range_order ordV'" and ok: "endblock_ok e w height seed app"
    and r: "EndBlock e w cH uC ordV ordA height seed app = Some (Inr (app1, resp))"
  shows "\<exists>resp'. EndBlock e w cH uC ordV' ordA' height seed app = Some (Inr (app1, resp')) \<and>
    mset (ValidatorUpdates resp') = mset (ValidatorUpdates resp)"
proof -
  from r obtain ee app2 where ee: "atEpochEnd e height = Inr ee"
    and c: "(if ee then epochChange e w cH uC height app else Inr app) = Inr app2"
    and g: "GetUpdatedValidators e w ordV ordA height seed (a_strategy app2, a_vars app2) =
      Some (Inr ((a_strategy app1, a_vars app1), resp))"
    and app1: "app1 = app2\<lparr>a_strategy := a_strategy app1, a_vars := a_vars app1\<rparr>"
    by (auto simp: EndBlock_def split: sum.splits)
  have "recorded app2 = recorded app \<and> update_ok e w height seed (a_strategy app2, a_vars app2)"
  proof (cases ee)
    case True
    then have z: "EpochBlocks e \<noteq> 0" "height mod EpochBlocks e = 0" using ee by (auto simp: atEpochEnd_Inr_iff)
    with ok obtain nxt where nxt: "s_NextPosTable (a_strategy app) = Some nxt" by (auto simp: endblock_ok_def)
    obtain app3 where "epochChange e w cH uC height app = Inr app3" and "recorded app3 = recorded app"
      and "epoch_ok e w (a_strategy app3)" by (rule epochChange_ok [OF ok z(2) nxt])
    with c True z show ?thesis by (simp add: update_ok_def)
  next
    case False
    with ee c ok show ?thesis by (auto simp: atEpochEnd_Inr_iff endblock_ok_def)
  qed
  then obtain resp' where "GetUpdatedValidators e w ordV' ordA' height seed (a_strategy app2, a_vars app2) =
      Some (Inr ((a_strategy app1, a_vars app1), resp'))" and m: "mset (ValidatorUpdates resp') = mset (ValidatorUpdates resp)"
    using GetUpdatedValidators_orders [OF _ o _ g] k by (auto simp: recorded_def)
  then show ?thesis using ee c app1 by (auto simp: EndBlock_def)
qed

lemma runBlock_twins:
  assumes U: "sender_unseen (ne_en N)" and t: "twins N app app'" and o: "range_order (ne_ordV N)" "range_order ordV'"
    and N': "N' = N\<lparr>ne_ordV := ordV', ne_ordA := ordA'\<rparr>" and k: "keyed (ne_env N) (recorded app)"
    and ok: "block_ok N blk app" and r: "runBlock N blk app = Some (Inr (app1, us, h))"
  obtains app1' us' where "runBlock N' blk app' = Some (Inr (app1', us', h))" and "twins N app1 app1'"
    and "mset us' = mset us" and "distinct (map (addrOf (ne_env N)) us)" and "block_ok N' blk app'"
proof -
  from r obtain app2 app3 resp where b: "beginAndDeliver N blk app = Inr app2" and e: "endOf N blk app2 = Some (Inr (app3, resp))"
    and c: "app_Commit (ne_env N) (ne_db N) (ne_ps N) (ne_en N) app3 = Inr (app1, h)" and us: "us = ValidatorUpdates resp"
    by (auto simp: runBlock_def split: sum.splits)
  have eo: "endblock_ok (ne_env N) (ne_w N) (bb_Height (bk_Begin blk)) (bk_Seed blk) app2" using ok b by (simp add: block_ok_def)
  have k2: "keyed (ne_env N) (recorded app2)" using k beginAndDeliver_frame [OF b] by (simp add: chainView_def)
  obtain app2' where b': "beginAndDeliver N blk app' = Inr app2'" and t2: "twins N app2 app2'"
    by (rule beginAndDeliver_twins [OF U t b])
  obtain resp' where e1: "endOf N' blk app2 = Some (Inr (app3, resp'))" and m: "mset (ValidatorUpdates resp') = mset us"
    using EndBlock_orders [OF k2 o eo e [unfolded endOf_def], of ordA'] by (auto simp: endOf_def N' us)
  obtain cc i s T where p: "app2' = pooled cc i s T app2" and T: "map unsent T = pendingTxs app2"
    using t2 by (auto simp: twins_def elim: sharedE)
  have e': "endOf N' blk app2' = Some (Inr (pooled cc i s T app3, resp'))"
    using e1 by (simp add: endOf_def p EndBlock_pooled)
  have T3: "map unsent T = pendingTxs app3" using T EndBlock_pending [OF e [unfolded endOf_def]] by simp
  have t3: "twins N app3 (pooled cc i s T app3)"
    by (rule twinsI [OF t2 shared_pooled [OF T3] EndBlock_pool [OF e [unfolded endOf_def]] EndBlock_pool [OF e' [unfolded endOf_def]]])
  obtain T' where c': "app_Commit (ne_env N) (ne_db N) (ne_ps N) (ne_en N) (pooled cc i s T app3) =
      Inr (pooled cc i (a_checkTxState app1) T' app1, h)" (is "_ = Inr (?app1', h)") and T': "map unsent T' = pendingTxs app1"
    using app_Commit_pooled [OF U T3 c] by blast
  have t1: "twins N app1 ?app1'"
    by (rule twinsI [OF t3 shared_pooled [OF T'] app_Commit_pool [OF c] app_Commit_pool [OF c']])
  have "deliverAll N' = deliverAll N"
  proof (intro ext)
    fix txs app show "deliverAll N' txs app = deliverAll N txs app" by (induction txs arbitrary: app) (simp_all add: N')
  qed
  then have b1: "beginAndDeliver N' blk app' = Inr app2'" using b' by (simp add: beginAndDeliver_def N')
  then have ok': "block_ok N' blk app'" using eo by (simp add: block_ok_def N' p endblock_ok_def)
  from b1 have r': "runBlock N' blk app' = Some (Inr (?app1', ValidatorUpdates resp', h))"
    using e' c' by (simp add: runBlock_def N')
  have "answers (ne_env N) (recorded app2) recorded (endOf N blk app2)"
    unfolding endOf_def by (rule endblock_step [OF k2 o(1) eo])
  then have "distinct (map (addrOf (ne_env N)) us)" using e by (auto simp: answers_def reports_def us)
  with ok' that [OF r' t1 m] show ?thesis by blast
qed

section \<open>Replicas, any number of blocks\<close>

text \<open>A run of one replica, with the blocks it was given and the answers it made. Between the blocks its
  memory pool works: transactions of other nodes are checked and rechecked, and the forwarding loop stores
  the info of a local transaction and has it checked. The info of a local transaction comes from
  go-ethereum's pool; it has to be one a delivery could have computed.\<close>

inductive replica_run ::
  "('c, 'b, 's, 'l, 'x) nodeenv \<Rightarrow> ('c, 'b, 's, 'l, 'x) EthermintApplication \<Rightarrow> block list \<Rightarrow>
     (ValidatorUpdate list \<times> hash) list \<Rightarrow> ('c, 'b, 's, 'l, 'x) EthermintApplication \<Rightarrow> bool"
  for N app0 where
  replica_start: "replica_run N app0 [] [] app0"
| replica_take: "replica_run N app0 blks tr app \<Longrightarrow> replica_run N app0 blks tr (mapBackend (setCurrentTxInfo i) app)"
| replica_check: "replica_run N app0 blks tr app \<Longrightarrow> CheckTx (ne_te N) (ne_db N) txBytes ct app = Inr (app', r) \<Longrightarrow>
    (ct = CheckTxType_Local \<longrightarrow> (\<forall>tx \<in> set_option (ti_Tx (currentTxInfo (a_backend app))).
       info_sound (ne_en N) (ne_te N) (a_strategy app) (tx_Hash tx) (currentTxInfo (a_backend app)))) \<Longrightarrow>
    replica_run N app0 blks tr app'"
| replica_block: "replica_run N app0 blks tr app \<Longrightarrow> block_ok N blk app \<Longrightarrow>
    runBlock N blk app = Some (Inr (app', us, Some h)) \<Longrightarrow> replica_run N app0 (blks @ [blk]) (tr @ [(us, h)]) app'"

lemma evm_same_refl [simp]: "evm_same en i i"
  by (simp add: evm_same_def)

text \<open>A check stores good infos only.\<close>

lemma remote_info_sound:
  assumes "relay_disjoint te" and "hash_identifies te" and "DecodeRLP te txBytes = Inr tx" and "remoteTxInfo te st tx = goOn i"
  shows "info_sound en te st (tx_Hash tx) i"
  unfolding info_sound_def
proof (intro allI impI)
  fix b tx' assume "DecodeRLP te b = Inr tx' \<and> tx_Hash tx' = tx_Hash tx"
  then have "tx' = tx" using assms(2,3) unfolding hash_identifies_def by blast
  then show "\<exists>j. deliverTxInfo te st tx' = goOn j \<and> evm_same en i j"
    using assms(4) remote_deliver_info [OF assms(1)] by auto
qed

lemma cache_sound_insert:
  assumes "cache_sound en te app" and "info_sound en te (a_strategy app) h i" and "a_strategy app' = a_strategy app"
    and "cachedTxInfo (a_backend app') = (cachedTxInfo (a_backend app))(h \<mapsto> i)"
  shows "cache_sound en te app'"
  using assms by (auto simp: cache_sound_def)

lemma validateTx_replica:
  assumes "validateTx te db tx ct app = Inr (app', r)" and "cache_sound en te app"
    and "\<And>i. ct \<noteq> CheckTxType_Recheck \<Longrightarrow> txInfoFor te (a_strategy app) (a_backend app) tx ct = goOn i \<Longrightarrow>
      info_sound en te (a_strategy app) (tx_Hash tx) i"
  shows "shared app' = shared app \<and> cache_sound en te app'"
  using validateTx_validated [OF assms(1)]
proof (cases rule: validated.cases)
  case (passed i s' gas)
  show ?thesis
  proof (cases "ct = CheckTxType_Recheck")
    case True
    with passed assms(2) show ?thesis by (simp add: shared_def cache_sound_def)
  next
    case False
    with passed assms(3) have "info_sound en te (a_strategy app) (tx_Hash tx) i" by blast
    from cache_sound_insert [OF assms(2) this] False passed show ?thesis
      by (simp add: shared_def InsertCachedTxInfo_def)
  qed
qed (use assms(2) in \<open>auto simp: shared_def cache_sound_def DeleteCachedTxInfo_def\<close>)

lemma CheckTx_replica:
  assumes L: "relay_disjoint te" "hash_identifies te" and r: "CheckTx te db txBytes ct app = Inr (app', r)"
    and s: "cache_sound en te app"
    and loc: "ct = CheckTxType_Local \<longrightarrow> (\<forall>tx \<in> set_option (ti_Tx (currentTxInfo (a_backend app))).
       info_sound en te (a_strategy app) (tx_Hash tx) (currentTxInfo (a_backend app)))"
  shows "shared app' = shared app \<and> cache_sound en te app'"
proof (cases "ct = CheckTxType_Local")
  case True
  with r obtain tx where tx: "ti_Tx (currentTxInfo (a_backend app)) = Some tx"
    and v: "validateTx te db tx ct app = Inr (app', r)" by (auto simp: CheckTx_def)
  show ?thesis by (rule validateTx_replica [OF v s]) (use True loc tx in \<open>simp add: txInfoFor_def\<close>)
next
  case False
  show ?thesis
  proof (cases "DecodeRLP te txBytes")
    case (Inr tx)
    with r False have v: "validateTx te db tx ct app = Inr (app', r)" by (simp add: CheckTx_def)
    show ?thesis
      by (rule validateTx_replica [OF v s])
        (use False in \<open>cases ct; auto simp: txInfoFor_def intro: remote_info_sound [OF L Inr]\<close>)
  qed (use r s False in \<open>auto simp: CheckTx_def\<close>)
qed

lemma take_replica:
  "shared (mapBackend (setCurrentTxInfo i) app) = shared app"
  "cache_sound en te (mapBackend (setCurrentTxInfo i) app) \<longleftrightarrow> cache_sound en te app"
  by (simp_all add: shared_def cache_sound_def mapBackend_def setCurrentTxInfo_def)

lemma shared_chainView:
  assumes "shared app' = shared app"
  shows "chainView app' = chainView app"
  using assms by (auto simp: shared_def chainView_def recorded_def elim!: sealedE)

lemma deliverAll_pool: "deliverAll N txs app = Inr app' \<Longrightarrow> pool_le app' app"
  by (induction txs arbitrary: app) (auto intro: pool_le_trans dest: app_DeliverTx_pool)

lemma runBlock_pool:
  assumes "runBlock N blk app = Some (Inr (app', us, h))"
  shows "pool_le app' app"
proof -
  obtain app1 app2 app3 resp where b: "BeginBlock (ne_env N) (ne_db N) (ne_en N) (ne_w N) (bk_Begin blk) app = Inr app1"
    and d: "deliverAll N (bk_Txs blk) app1 = Inr app2" and e: "endOf N blk app2 = Some (Inr (app3, resp))"
    and c: "app_Commit (ne_env N) (ne_db N) (ne_ps N) (ne_en N) app3 = Inr (app', h)"
    using assms by (auto simp: runBlock_def beginAndDeliver_def split: sum.splits)
  from pool_le_trans [OF app_Commit_pool [OF c] pool_le_trans [OF EndBlock_pool [OF e [unfolded endOf_def]]
      pool_le_trans [OF deliverAll_pool [OF d] BeginBlock_pool [OF b]]]]
  show ?thesis .
qed

lemma replica_run_sound:
  assumes "replica_run N app0 blks tr app" and "relay_disjoint (ne_te N)" and "hash_identifies (ne_te N)"
    and "cache_sound (ne_en N) (ne_te N) app0"
  shows "cache_sound (ne_en N) (ne_te N) app"
  using assms
proof (induction rule: replica_run.induct)
  case (replica_check blks tr app txBytes ct app' r)
  then show ?case using CheckTx_replica [OF _ _ replica_check.hyps(2) _ replica_check.hyps(3)] by blast
next
  case (replica_block blks tr app blk app' us h)
  then show ?case by (blast intro: cache_sound_le runBlock_pool)
qed (simp_all add: take_replica)

lemma replica_run_refines:
  assumes "replica_run N app0 blks tr app" and "relay_disjoint (ne_te N)" and "hash_identifies (ne_te N)"
    and "node_laws N" and "refines N app0 t"
  shows "refines N app (fold (tmBlock (ne_env N)) tr t)"
  using assms
proof (induction rule: replica_run.induct)
  case (replica_take blks tr app i)
  then show ?case using refines_frame [OF shared_chainView [OF take_replica(1)]] by blast
next
  case (replica_check blks tr app txBytes ct app' r)
  then show ?case using refines_frame [OF CheckTx_frame [OF replica_check.hyps(2)]] by blast
next
  case (replica_block blks tr app blk app' us h)
  then show ?case using runBlock_refines by (simp del: split_paired_Ex) blast
qed simp

text \<open>The last block of a run: what follows it is invisible.\<close>

lemma replica_run_last:
  assumes "replica_run N app0 blks tr app" and "relay_disjoint (ne_te N)" and "hash_identifies (ne_te N)"
    and "cache_sound (ne_en N) (ne_te N) app0"
  shows "case rev blks of [] \<Rightarrow> tr = [] \<and> shared app = shared app0
    | blk # bs \<Rightarrow> \<exists>tr1 app1 app2 us h. replica_run N app0 (rev bs) tr1 app1 \<and>
        runBlock N blk app1 = Some (Inr (app2, us, Some h)) \<and> tr = tr1 @ [(us, h)] \<and> shared app = shared app2"
  using assms
proof (induction rule: replica_run.induct)
  case (replica_check blks tr app txBytes ct app' r)
  have "shared app' = shared app"
    using CheckTx_replica [OF replica_check.prems(1,2) replica_check.hyps(2) _ replica_check.hyps(3)]
      replica_run_sound [OF replica_check.hyps(1) replica_check.prems] by blast
  with replica_check.IH [OF replica_check.prems] show ?case by (simp del: split_paired_Ex split: list.splits)
next
  case (replica_block blks tr app blk app' us h)
  then show ?case by (simp del: split_paired_Ex) blast
qed (simp_all add: take_replica split: list.splits)

text \<open>Answers that differ in the order of their updates only.\<close>

definition same_answers :: "(ValidatorUpdate list \<times> hash) list \<Rightarrow> (ValidatorUpdate list \<times> hash) list \<Rightarrow> bool" where
  "same_answers = list_all2 (\<lambda>(us, h) (us', h'). mset us' = mset us \<and> h' = h)"

lemma replica_runs:
  assumes "replica_run N app0 blks tr app" and "replica_run N' app0' blks tr' app'"
    and U: "sender_unseen (ne_en N)"
    and L: "relay_disjoint (ne_te N)" "hash_identifies (ne_te N)" "node_laws N" "range_order ordV'"
    and N': "N' = N\<lparr>ne_ordV := ordV', ne_ordA := ordA'\<rparr>" and "refines N app0 t" and "twins N app0 app0'"
  shows "twins N app app' \<and> same_answers tr tr' \<and> fold (tmBlock (ne_env N)) tr' t = fold (tmBlock (ne_env N)) tr t"
  using assms(1,2)
proof (induction arbitrary: tr' app' rule: replica_run.induct)
  case replica_start
  have s: "cache_sound (ne_en N') (ne_te N') app0'" using assms(10) by (simp add: twins_def N')
  have L': "relay_disjoint (ne_te N')" "hash_identifies (ne_te N')" using L by (simp_all add: N')
  show ?case
    using replica_run_last [OF replica_start L' s] replica_run_sound [OF replica_start L' s] assms(10)
    by (simp add: twins_def N' same_answers_def)
next
  case (replica_take blks tr app i)
  then show ?case by (simp add: twins_def take_replica)
next
  case (replica_check blks tr app txBytes ct app1 r)
  have "cache_sound (ne_en N) (ne_te N) app"
    by (rule replica_run_sound [OF replica_check.hyps(1) L(1,2)]) (use assms(10) in \<open>simp add: twins_def\<close>)
  from CheckTx_replica [OF L(1,2) replica_check.hyps(2) this replica_check.hyps(3)] replica_check.IH [OF replica_check.prems]
  show ?case by (simp add: twins_def)
next
  case (replica_block blks tr app blk app1 us h)
  have s: "cache_sound (ne_en N') (ne_te N') app0'" using assms(10) by (simp add: twins_def N')
  have L': "relay_disjoint (ne_te N')" "hash_identifies (ne_te N')" using L by (simp_all add: N')
  obtain tr1 app2 app3 us' h' where r2: "replica_run N' app0' blks tr1 app2"
    and b': "runBlock N' blk app2 = Some (Inr (app3, us', Some h'))" and tr': "tr' = tr1 @ [(us', h')]"
    and sh: "shared app' = shared app3"
    using replica_run_last [OF replica_block.prems L' s] by auto
  note IH = replica_block.IH [OF r2]
  have k: "keyed (ne_env N) (recorded app)"
    using replica_run_refines [OF replica_block.hyps(1) L(1-3) assms(9)] by (simp add: refines_def)
  have o: "range_order (ne_ordV N)" using L(3) by (simp add: node_laws_def)
  obtain app4 us1 where b1: "runBlock N' blk app2 = Some (Inr (app4, us1, Some h))" and t: "twins N app1 app4"
    and m: "mset us1 = mset us" and d: "distinct (map (addrOf (ne_env N)) us)"
    by (rule runBlock_twins [OF U conjunct1 [OF IH] o L(4) N' k replica_block.hyps(2,3)])
  have "cache_sound (ne_en N) (ne_te N) app'"
    using replica_run_sound [OF replica_block.prems L' s] by (simp add: N')
  moreover have "tmApply (ne_env N) us1 T = tmApply (ne_env N) us T" for T
    using tmApply_perm [OF d m [symmetric]] by simp
  ultimately show ?case
    using IH t b1 b' sh m
    by (auto simp: twins_def tr' same_answers_def tmBlock_def intro!: list_all2_appendI)
qed

text \<open>C6. Replicas stay replicas. Two nodes start from states that agree on chain, working state, strategy
  and package variables, with good infos cached, and get the same admissible blocks (\<open>block_ok\<close>, as
  in C3). In between each checks and rechecks any transactions and stores local ones, so check states and caches
  differ; a local check is admitted only with an info that a delivery would compute or the virtual machine does
  not tell from it (\<open>info_sound\<close>). Map orders may differ. After any number of blocks both have the
  same chain, account state and strategy, and the same block under construction up to the senders stored in its
  transactions; they answered with the same hashes and, up to order, validator updates; Tendermint's record is
  the same; and when one commits the next admissible block, so does the other, with the same hash. Assumed:
  \<open>node_laws\<close>, \<open>relay_disjoint\<close> (no relay address of both kinds),
  \<open>hash_identifies\<close>, \<open>sender_unseen\<close> (go-ethereum ignores the stored sender).\<close>

theorem replicas_agree:
  assumes "node_laws N" and "relay_disjoint (ne_te N)" and "hash_identifies (ne_te N)" and "sender_unseen (ne_en N)"
    and "range_order ordV'" and "N' = N\<lparr>ne_ordV := ordV', ne_ordA := ordA'\<rparr>" and "refines N app0 t" and "twins N app0 app0'"
    and "replica_run N app0 blks tr app" and "replica_run N' app0' blks tr' app'"
  shows "shared app' = shared app \<and> same_answers tr tr' \<and>
    fold (tmBlock (ne_env N)) tr' t = fold (tmBlock (ne_env N)) tr t \<and>
    (\<forall>blk app1 us h. block_ok N blk app \<and> runBlock N blk app = Some (Inr (app1, us, h)) \<longrightarrow>
       (\<exists>app1' us'. runBlock N' blk app' = Some (Inr (app1', us', h)) \<and> mset us' = mset us \<and> shared app1' = shared app1))"
proof -
  have t: "twins N app app'" and a: "same_answers tr tr'" "fold (tmBlock (ne_env N)) tr' t = fold (tmBlock (ne_env N)) tr t"
    using replica_runs [OF assms(9,10,4,2,3,1,5,6,7,8)] by blast+
  have k: "keyed (ne_env N) (recorded app)" and o: "range_order (ne_ordV N)"
    using replica_run_refines [OF assms(9,2,3,1,7)] assms(1) by (simp_all add: refines_def node_laws_def)
  have "\<exists>app1' us'. runBlock N' blk app' = Some (Inr (app1', us', h)) \<and> mset us' = mset us \<and> shared app1' = shared app1"
    if b: "block_ok N blk app" "runBlock N blk app = Some (Inr (app1, us, h))" for blk app1 us h
    by (rule runBlock_twins [OF assms(4) t o assms(5,6) k b]) (auto simp: twins_def)
  then show ?thesis using t a by (auto simp: twins_def)
qed

section \<open>Witness\<close>

text \<open>A block with a transaction, and a replica that has seen the transaction before, holds another check
  state, and walks over its maps backwards.\<close>

definition replicaBlock :: block where
  "replicaBlock = sampleBlock\<lparr>bk_Txs := [[0]]\<rparr>"

definition otherNode :: "(Header list, Header, store, unit, unit) EthermintApplication" where
  "otherNode = pooled [tx_Hash (sampleTx 0) \<mapsto> sampleTxInfo 0] (sampleTxInfo 9) (\<lambda>a. [1], \<lambda>p. 1, \<lambda>p. [])
    (transactions (be_work (a_backend liveNode))) liveNode"

definition otherEnv :: "(Header list, Header, store, unit, unit) nodeenv" where
  "otherEnv = liveNodeEnv\<lparr>ne_ordV := rev \<circ> sortedKeys, ne_ordA := rev \<circ> sortedKeys\<rparr>"

lemma live_te: "ne_te liveNodeEnv = sampleTxEnv"
  by (simp add: liveNodeEnv_def sampleNodeEnv_def)

lemma sample_hash_identifies: "hash_identifies sampleTxEnv" "relay_disjoint sampleTxEnv"
proof -
  have i: "b = b'" if "(ucast (ucast b :: uint64) :: hash) = ucast (ucast b' :: uint64)"
    for b b' :: byte
    using that by (transfer, simp)
  have t: "sampleTx n = sampleTx n' \<longleftrightarrow> n = n'" "tx_Hash (sampleTx n) = word_of_int (uint n)" for n n'
    by (auto simp: sampleTx_def)
  have d: "DecodeRLP sampleTxEnv bs = (case bs of [b] \<Rightarrow> Inr (sampleTx (ucast b)) | _ \<Rightarrow> Inl ''rlp'')" for bs
    by (simp add: sampleTxEnv_def)
  show "hash_identifies sampleTxEnv"
    unfolding hash_identifies_def d by (auto simp: t split: list.splits dest!: i)
  show "relay_disjoint sampleTxEnv" by (simp add: relay_disjoint_def sampleTxEnv_def)
qed

lemma live_replica_block:
  obtains app us h where "runBlock liveNodeEnv replicaBlock liveNode = Some (Inr (app, us, Some h))"
    and "block_ok liveNodeEnv replicaBlock liveNode"
proof -
  have "versionAt (ne_w liveNodeEnv) (a_strategy liveNode) 600 5 = Inr 4"
    by (simp add: sample_version_600 liveNode_def mapStrategy_def SetSigner_def sample_node_defs sampleStrategy_def NewStrategy_def)
  then have f: "block_fits liveNodeEnv replicaBlock liveNode"
    by (intro block_fits_modern [OF live_progress_laws live_node_ok, of _ 4])
      (simp_all add: replicaBlock_def sampleBlock_def liveNode_def mapStrategy_def SetSigner_def sample_node_defs sampleStrategy_def)
  show ?thesis by (rule runBlock_progress [OF live_progress_laws live_node_ok f]) (rule that)
qed

lemma live_twins: "twins liveNodeEnv liveNode otherNode"
proof -
  have s: "s_signer (a_strategy liveNode) \<noteq> None" by (simp add: liveNode_def mapStrategy_def SetSigner_def)
  have "remoteTxInfo sampleTxEnv (a_strategy liveNode) (sampleTx 0) = goOn (sampleTxInfo 0)"
    using s by (auto simp: remoteTxInfo_def plainTxInfo_def senderOf_def txSigner_def sampleTx_def sampleTxInfo_def sampleTxEnv_def
        orReject_def)
  moreover have "DecodeRLP sampleTxEnv [0] = Inr (sampleTx 0)" by (simp add: sampleTxEnv_def)
  ultimately have "info_sound en sampleTxEnv (a_strategy liveNode) (tx_Hash (sampleTx 0)) (sampleTxInfo 0)" for en
    by (intro remote_info_sound sample_hash_identifies)
  moreover have "cachedTxInfo (a_backend liveNode) = Map.empty" by (simp add: liveNode_def mapStrategy_def sampleNode_def)
  ultimately show ?thesis by (simp add: twins_def otherNode_def cache_sound_def live_te shared_pooled pendingTxs_def)
qed

theorem replicas_agree_witness:
  "\<exists>app us app' us' h. runBlock liveNodeEnv replicaBlock liveNode = Some (Inr (app, us, Some h)) \<and>
    runBlock otherEnv replicaBlock otherNode = Some (Inr (app', us', Some h)) \<and> shared app' = shared app \<and>
    same_answers [(us, h)] [(us', h)]"
proof -
  let ?t = "\<lparr>tm_Height = 0, tm_AppHash = 0, tm_Validators = Map.empty\<rparr>"
  have l: "node_laws liveNodeEnv" using live_progress_laws by (simp add: progress_laws_def)
  have o: "range_order (rev \<circ> (sortedKeys :: (string \<rightharpoonup> Validator) \<Rightarrow> string list))"
    using range_order_sortedKeys by (simp add: range_order_def enumerates_def)
  have u: "sender_unseen (ne_en liveNodeEnv)" by (simp add: sender_unseen_def sampleStoreEth_def unsent_def)
  have k: "recorded liveNode = Map.empty" using sample_recorded by (simp add: liveNode_def mapStrategy_def recorded_def SetSigner_def)
  have i: "refines liveNodeEnv liveNode ?t"
    by (simp add: refines_def k keyed_def)
      (simp add: liveNode_def mapStrategy_def sampleNode_def sampleStoreWork_def sampleHeader_def sampleStoreEth_def)
  obtain app us h where r: "runBlock liveNodeEnv replicaBlock liveNode = Some (Inr (app, us, Some h))"
    and ok: "block_ok liveNodeEnv replicaBlock liveNode" by (rule live_replica_block)
  obtain app' us' where r': "runBlock otherEnv replicaBlock otherNode = Some (Inr (app', us', Some h))"
    and ok': "block_ok otherEnv replicaBlock otherNode"
    by (rule runBlock_twins [OF u live_twins _ o otherEnv_def _ ok r]) (use l k in \<open>simp_all add: node_laws_def keyed_def\<close>)
  have run: "replica_run liveNodeEnv liveNode ([] @ [replicaBlock]) ([] @ [(us, h)]) app"
    by (rule replica_run.replica_block [OF replica_run.replica_start ok r])
  have run': "replica_run otherEnv otherNode ([] @ [replicaBlock]) ([] @ [(us', h)]) app'"
    by (rule replica_run.replica_block [OF replica_run.replica_start ok' r'])
  from replicas_agree [OF l _ _ u o otherEnv_def i live_twins run run'] r r' show ?thesis
    by (auto simp: live_te sample_hash_identifies)
qed

end
