(* ===== verification/AppQuery.thy ===== *)
theory AppQuery
  imports AppBlock
begin

text \<open>
  \<open>Query\<close> of \<open>src/app/app.go\<close>: the answers about the proof-of-stake tables, the authorisation table,
  the white list of peers that Tendermint asks for, and the forwarding of everything else to the
  Ethereum RPC client. JSON and the RPC client are fields of \<open>queryenv\<close>; the iteration orders of
  the three maps the white list is built from are arguments.
\<close>

record 'p jsonRequest =
  Method :: string
  Params :: "'p list"

record RequestQuery =
  q_Data :: bytes
  q_Path :: string

record ResponseQuery =
  rq_Code :: CodeType
  rq_Log :: string
  rq_Value :: bytes
  rq_Info :: bytes

text \<open>The value that is marshalled.\<close>

datatype 'r queryResult =
    PosItems "address \<rightharpoonup> PosItem"
  | AuthItems "address \<rightharpoonup> AuthItem"
  | Whitelist "string \<rightharpoonup> int"
  | RpcResult 'r

record ('p, 'r) queryenv =
  UnmarshalRequest :: "bytes \<Rightarrow> string + 'p jsonRequest"
  rpcCall :: "string \<Rightarrow> 'p list \<Rightarrow> string + 'r"
  MarshalResult :: "'r queryResult \<Rightarrow> string + bytes"

definition authEntry :: "'x AuthTable \<Rightarrow> address \<Rightarrow> (string \<times> int) option" where
  "authEntry at key =
     (case AuthItemMap at key of
        None \<Rightarrow> None
      | Some ai \<Rightarrow> map_option (\<lambda>tmAddr. (tmAddr, PermitHeight ai)) (SignerToTmAddressMap at key))"

definition itemEntry :: "(address \<rightharpoonup> PosItem) \<Rightarrow> address \<Rightarrow> (string \<times> int) option" where
  "itemEntry m key = map_option (\<lambda>pi. (TmAddress pi, pi_Height pi)) (m key)"

definition whitelist ::
  "((address \<rightharpoonup> AuthItem) \<Rightarrow> address list) \<Rightarrow> ((address \<rightharpoonup> PosItem) \<Rightarrow> address list) \<Rightarrow>
     'x AuthTable \<Rightarrow> 'x PosTable \<Rightarrow> (string \<rightharpoonup> int)" where
  "whitelist ordA ordP at pt =
     (let m1 = putAll (authEntry at) (ordA (AuthItemMap at)) Map.empty;
          m2 = putAll (itemEntry (UnbondPosItemMap pt)) (ordP (UnbondPosItemMap pt)) m1 in
      putAll (itemEntry (PosItemMap pt)) (ordP (PosItemMap pt)) m2)"

definition queryFail :: "string \<Rightarrow> ResponseQuery" where
  "queryFail err = \<lparr>rq_Code = CodeInternal, rq_Log = err, rq_Value = [], rq_Info = []\<rparr>"

text \<open>The dispatch on the path: a panic, an error of the RPC client, or the result.\<close>

definition queryResultOf ::
  "('p, 'r) queryenv \<Rightarrow> ((address \<rightharpoonup> AuthItem) \<Rightarrow> address list) \<Rightarrow> ((address \<rightharpoonup> PosItem) \<Rightarrow> address list) \<Rightarrow>
     string \<Rightarrow> 'p jsonRequest \<Rightarrow> ('c, 'b, 's, 'l, 'x) EthermintApplication \<Rightarrow> panic + (string + 'r queryResult)" where
  "queryResultOf qe ordA ordP path req app =
     (let st = a_strategy app in
      if contains path ''PosTable'' then
        (if path = ''PosTable/GetCurrentPosTable''
         then panic_bind (deref (cev_PosTable (s_CurrEpoch st))) (\<lambda>pt. Inr (Inr (PosItems (PosItemMap pt))))
         else panic_bind (deref (s_NextPosTable st)) (\<lambda>pt. Inr (Inr (PosItems (PosItemMap pt)))))
      else if contains path ''AuthTable'' then
        panic_bind (deref (EthAuthTable (a_vars app))) (\<lambda>at. Inr (Inr (AuthItems (AuthItemMap at))))
      else if contains path ''/p2p/whitelist'' then
        panic_bind (deref (EthAuthTable (a_vars app))) (\<lambda>at.
        panic_bind (deref (s_NextPosTable st)) (\<lambda>pt. Inr (Inr (Whitelist (whitelist ordA ordP at pt)))))
      else case rpcCall qe (Method req) (Params req) of
        Inl err \<Rightarrow> Inr (Inl err)
      | Inr r \<Rightarrow> Inr (Inr (RpcResult r)))"

definition Query ::
  "('p, 'r) queryenv \<Rightarrow> ((address \<rightharpoonup> AuthItem) \<Rightarrow> address list) \<Rightarrow> ((address \<rightharpoonup> PosItem) \<Rightarrow> address list) \<Rightarrow>
     RequestQuery \<Rightarrow> ('c, 'b, 's, 'l, 'x) EthermintApplication \<Rightarrow> panic + ResponseQuery" where
  "Query qe ordA ordP query app =
     (case UnmarshalRequest qe (q_Data query) of
        Inl err \<Rightarrow> Inr (queryFail err)
      | Inr req \<Rightarrow>
          panic_bind (queryResultOf qe ordA ordP (q_Path query) req app) (\<lambda>r.
            case r of
              Inl err \<Rightarrow> Inr (queryFail err)
            | Inr result \<Rightarrow>
                (case MarshalResult qe result of
                   Inl err \<Rightarrow> Inr (queryFail err)
                 | Inr bs \<Rightarrow> Inr \<lparr>rq_Code = CodeOK, rq_Log = [], rq_Value = bs, rq_Info = bs\<rparr>)))"

section \<open>The white list\<close>

definition hasAddr :: "(address \<rightharpoonup> PosItem) \<Rightarrow> string \<Rightarrow> bool" where
  "hasAddr m a \<longleftrightarrow> (\<exists>s it. m s = Some it \<and> TmAddress it = a)"

definition listed :: "(address \<rightharpoonup> PosItem) \<Rightarrow> string \<Rightarrow> int \<Rightarrow> bool" where
  "listed m a h \<longleftrightarrow> (\<exists>s it. m s = Some it \<and> TmAddress it = a \<and> pi_Height it = h)"

definition permitted :: "'x AuthTable \<Rightarrow> string \<Rightarrow> int \<Rightarrow> bool" where
  "permitted at a h \<longleftrightarrow>
     (\<exists>s ai. AuthItemMap at s = Some ai \<and> SignerToTmAddressMap at s = Some a \<and> PermitHeight ai = h)"

lemma itemEntry_Some_iff: "itemEntry m s = Some (a, h) \<longleftrightarrow> (\<exists>it. m s = Some it \<and> TmAddress it = a \<and> pi_Height it = h)"
  by (auto simp: itemEntry_def)

lemma authEntry_Some_iff:
  "authEntry at s = Some (a, h) \<longleftrightarrow>
     (\<exists>ai. AuthItemMap at s = Some ai \<and> SignerToTmAddressMap at s = Some a \<and> PermitHeight ai = h)"
  by (auto simp: authEntry_def split: option.splits)

lemma enumerated_entry:
  assumes "enumerates ks m" and "dom f \<subseteq> dom m"
  shows "(\<exists>k \<in> set ks. f k = Some (a, h)) \<longleftrightarrow> (\<exists>k. f k = Some (a, h))"
  using assms by (fastforce simp: enumerates_def)

lemma putAll_enumerated:
  assumes "enumerates ks m" and "dom f \<subseteq> dom m" and "putAll f ks acc a = Some b"
  shows "(\<exists>k. f k = Some (a, b)) \<or> acc a = Some b \<and> (\<forall>k c. f k \<noteq> Some (a, c))"
  using putAll_Some_cases [OF assms(3)] enumerated_entry [OF assms(1), of f a] assms(2) by blast

lemma putAll_enumerated_None:
  assumes "enumerates ks m" and "dom f \<subseteq> dom m"
  shows "putAll f ks acc a = None \<longleftrightarrow> acc a = None \<and> (\<forall>k c. f k \<noteq> Some (a, c))"
  using enumerated_entry [OF assms(1), of f a] assms(2) by (auto simp: putAll_None_iff)

text \<open>The specification: a bonded validator is listed with the height of its bond, otherwise a leaving
  one with its height, otherwise an authorised account with its permit height.\<close>

definition whitelist_spec :: "'x AuthTable \<Rightarrow> 'x PosTable \<Rightarrow> string \<Rightarrow> int \<Rightarrow> bool" where
  "whitelist_spec at pt a h \<longleftrightarrow>
     (if hasAddr (PosItemMap pt) a then listed (PosItemMap pt) a h
      else if hasAddr (UnbondPosItemMap pt) a then listed (UnbondPosItemMap pt) a h
      else permitted at a h)"

lemma itemEntry_dom: "dom (itemEntry m) \<subseteq> dom m"
  by (auto simp: itemEntry_def)

lemma authEntry_dom: "dom (authEntry at) \<subseteq> dom (AuthItemMap at)"
  by (auto simp: authEntry_def split: option.splits)

lemma itemEntry_listed: "(\<exists>k. itemEntry m k = Some (a, h)) \<longleftrightarrow> listed m a h"
  by (auto simp: itemEntry_Some_iff listed_def)

lemma itemEntry_hasAddr: "(\<forall>k c. itemEntry m k \<noteq> Some (a, c)) \<longleftrightarrow> \<not> hasAddr m a"
  by (auto simp: itemEntry_Some_iff hasAddr_def)

lemma authEntry_permitted: "(\<exists>k. authEntry at k = Some (a, h)) \<longleftrightarrow> permitted at a h"
  by (auto simp: authEntry_Some_iff permitted_def)

text \<open>The loop over one of the item maps overrides what was collected before it.\<close>

lemma itemLoop_Some:
  assumes "range_order ordP" and "finite (dom m)"
    and "putAll (itemEntry m) (ordP m) acc a = Some h"
  shows "if hasAddr m a then listed m a h else acc a = Some h"
  using putAll_enumerated [OF range_orderD [OF assms(1,2)] itemEntry_dom assms(3)]
  by (auto simp: itemEntry_listed itemEntry_hasAddr) (auto simp: listed_def hasAddr_def)

lemma itemLoop_None:
  assumes "range_order ordP" and "finite (dom m)"
  shows "putAll (itemEntry m) (ordP m) acc a = None \<longleftrightarrow> acc a = None \<and> \<not> hasAddr m a"
  using putAll_enumerated_None [OF range_orderD [OF assms] itemEntry_dom]
  by (simp add: itemEntry_hasAddr)

text \<open>C25. The white list of peers, for every iteration order of the runtime: an address is listed
  exactly when a bonded validator, a leaving validator or an authorised account has it, and the
  height it is listed with is that of a bonded validator when there is one, else that of a leaving
  one, and only otherwise the permit height.\<close>

theorem whitelist_sound_complete:
  assumes "range_order ordA" and "range_order ordP" and "finite (dom (AuthItemMap at))"
    and "finite (dom (PosItemMap pt))" and "finite (dom (UnbondPosItemMap pt))"
  shows "(whitelist ordA ordP at pt a = Some h \<longrightarrow> whitelist_spec at pt a h) \<and>
    (whitelist ordA ordP at pt a = None \<longleftrightarrow> (\<forall>k. \<not> whitelist_spec at pt a k))"
proof -
  define m1 where "m1 = putAll (authEntry at) (ordA (AuthItemMap at)) Map.empty"
  define m2 where "m2 = putAll (itemEntry (UnbondPosItemMap pt)) (ordP (UnbondPosItemMap pt)) m1"
  have w: "whitelist ordA ordP at pt = putAll (itemEntry (PosItemMap pt)) (ordP (PosItemMap pt)) m2"
    by (simp add: whitelist_def m1_def m2_def Let_def)
  have en: "enumerates (ordA (AuthItemMap at)) (AuthItemMap at)" by (rule range_orderD [OF assms(1,3)])
  have m1: "permitted at a k" if "m1 a = Some k" for k
    using putAll_enumerated [OF en authEntry_dom that [unfolded m1_def]] by (auto simp: authEntry_permitted)
  have n1: "m1 a = None \<longleftrightarrow> (\<forall>k. \<not> permitted at a k)"
    using putAll_enumerated_None [OF en authEntry_dom, of Map.empty a]
    by (auto simp: m1_def authEntry_permitted [symmetric])
  have hl: "hasAddr m a \<longleftrightarrow> (\<exists>k. listed m a k)" for m by (auto simp: hasAddr_def listed_def)
  have "whitelist_spec at pt a h" if "whitelist ordA ordP at pt a = Some h"
    using itemLoop_Some [OF assms(2,4) that [unfolded w]]
      itemLoop_Some [OF assms(2,5), of m1 a h, folded m2_def] m1 [of h]
    by (auto simp: whitelist_spec_def split: if_splits)
  moreover have "whitelist ordA ordP at pt a = None \<longleftrightarrow> (\<forall>k. \<not> whitelist_spec at pt a k)"
    unfolding w itemLoop_None [OF assms(2,4)] m2_def itemLoop_None [OF assms(2,5)] n1 whitelist_spec_def
    by (cases "hasAddr (PosItemMap pt) a"; cases "hasAddr (UnbondPosItemMap pt) a") (simp_all add: hl)
  ultimately show ?thesis by blast
qed

theorem whitelist_sound_complete_witness:
  "whitelist sortedKeys sortedKeys sampleAuthTable samplePosTable ''A2'' = Some 0"
proof -
  have w: "(whitelist sortedKeys sortedKeys sampleAuthTable samplePosTable ''A2'' = Some h \<longrightarrow>
      whitelist_spec sampleAuthTable samplePosTable ''A2'' h) \<and>
    (whitelist sortedKeys sortedKeys sampleAuthTable samplePosTable ''A2'' = None \<longleftrightarrow>
      (\<forall>k. \<not> whitelist_spec sampleAuthTable samplePosTable ''A2'' k))" for h
    by (rule whitelist_sound_complete [OF range_order_sortedKeys range_order_sortedKeys])
      (simp_all add: sampleAuthTable_def samplePosTable_def)
  have h: "hasAddr (PosItemMap samplePosTable) ''A2''"
    by (simp add: hasAddr_def samplePosTable_def sampleItem_def) (rule exI [of _ 2], simp)
  have l: "listed (PosItemMap samplePosTable) ''A2'' k \<longleftrightarrow> k = 0" for k
    by (auto simp: listed_def samplePosTable_def sampleItem_def intro!: exI [of _ "2 :: address"] split: if_splits)
  from w show ?thesis by (auto simp: whitelist_spec_def h l)
qed

text \<open>\<open>Query\<close> answers code 0 with the marshalled white list when asked for it.\<close>

lemma Query_whitelist:
  assumes "UnmarshalRequest qe (q_Data query) = Inr req" and "q_Path query = ''/p2p/whitelist''"
    and "EthAuthTable (a_vars app) = Some at" and "s_NextPosTable (a_strategy app) = Some pt"
    and "MarshalResult qe (Whitelist (whitelist ordA ordP at pt)) = Inr bs"
  shows "Query qe ordA ordP query app = Inr \<lparr>rq_Code = CodeOK, rq_Log = [], rq_Value = bs, rq_Info = bs\<rparr>"
  using assms by (simp add: Query_def queryResultOf_def)

end
