(* ===== verification/HttpServer.thy ===== *)
theory HttpServer
  imports Backend StrategySync
begin

text \<open>
  \<open>src/httpserver/\<close>: the read-only HTTP views of the strategy. A handler is a function from the
  strategy and the package variables of txfilter to the bytes it writes, or a panic; \<open>ServeHTTP\<close>
  looks it up by the URL. What a handler marshals is a value of \<open>httpData\<close>, the codec, the printing
  of addresses, the size of the pool's queue and the iteration orders of the maps are the fields of
  \<open>httpenv\<close>.
\<close>

section \<open>Data\<close>

record httpValidator =
  hv_PubKey :: pubKey
  hv_Power :: int
  hv_AddressString :: string
  hv_Signer :: address
  hv_Slots :: int
  hv_Beneficiary :: address
  hv_BlsKeyString :: string

record AccountBean =
  ab_Signer :: string
  ab_Slots :: int
  ab_BeneficiaryBonus :: int
  ab_Beneficiary :: string
  ab_BlsKeyString :: string

record PosItemMapData =
  pd_PosItemMap :: "address \<rightharpoonup> PosItem"
  pd_Threshold :: int
  pd_TotalSlots :: int

record PreBlockProposer =
  pp_PreBlockProposer :: string
  pp_Beneficiary :: address
  pp_Signer :: address

record Encourage =
  en_TotalBalance :: int
  EncourageAverageBlock :: int

datatype 'x httpData =
    PosTableData PosItemMapData
  | AccountMapData "string \<rightharpoonup> AccountBean"
  | ValidatorsData "httpValidator list"
  | ProposerData PreBlockProposer
  | EncourageData Encourage
  | TextData string
  | AuthTableData "'x AuthTable"

record 'x httpenv =
  MarshalHttp :: "'x httpData \<Rightarrow> bytes option"
  AddressString :: "address \<Rightarrow> string"
  GetTxpoolChainHeadSize :: int
  rangeSigners :: "(string \<rightharpoonup> address) \<Rightarrow> string list"
  rangeValidators :: "(string \<rightharpoonup> Validator) \<Rightarrow> string list"
  rangeItems :: "(address \<rightharpoonup> PosItem) \<Rightarrow> address list"

type_synonym 'x handler = "'x Strategy \<times> 'x txfilterVars \<Rightarrow> panic + bytes"

definition toBytes :: "string \<Rightarrow> bytes" where
  "toBytes = map of_char"

text \<open>The end of every handler: the JSON text, or a fixed message when it cannot be made.\<close>

definition writeJson :: "string \<Rightarrow> 'x httpenv \<Rightarrow> 'x httpData \<Rightarrow> bytes" where
  "writeJson msg he d = (case MarshalHttp he d of None \<Rightarrow> toBytes msg | Some bs \<Rightarrow> bs)"

definition marshalError :: string where
  "marshalError = ''error occured when marshal into json''"

section \<open>Handlers\<close>

definition test :: "'x handler" where
  "test stg = Inr (toBytes ''this is test function'')"

definition Hello :: "'x handler" where
  "Hello stg = Inr (toBytes ''Hello'')"

definition posTableData :: "'x PosTable \<Rightarrow> PosItemMapData" where
  "posTableData pt =
     \<lparr>pd_PosItemMap = PosItemMap pt, pd_Threshold = Threshold pt, pd_TotalSlots = TotalSlots pt\<rparr>"

definition GetPosTableData :: "'x httpenv \<Rightarrow> 'x handler" where
  "GetPosTableData he stg =
     panic_bind (deref (cev_PosTable (s_CurrEpoch (fst stg)))) (\<lambda>pt.
       Inr (writeJson marshalError he (PosTableData (posTableData pt))))"

definition GetNextPosTableData :: "'x httpenv \<Rightarrow> 'x handler" where
  "GetNextPosTableData he stg =
     panic_bind (deref (s_NextPosTable (fst stg))) (\<lambda>pt.
       Inr (writeJson marshalError he (PosTableData (posTableData pt))))"

definition accountBean :: "'x httpenv \<Rightarrow> address \<Rightarrow> PosItem \<Rightarrow> panic + AccountBean" where
  "accountBean he signer it =
     panic_bind (deref (BeneficiaryBonus it)) (\<lambda>bonus.
       Inr \<lparr>ab_Signer = AddressString he signer, ab_Slots = Slots it, ab_BeneficiaryBonus = big_Int64 bonus,
            ab_Beneficiary = AddressString he (Beneficiary it), ab_BlsKeyString = pi_BlsKeyString it\<rparr>)"

text \<open>The loop of the two account map handlers.\<close>

fun accountMapLoop ::
  "'x httpenv \<Rightarrow> 'x PosTable \<Rightarrow> string list \<Rightarrow> (string \<rightharpoonup> AccountBean) \<Rightarrow> panic + (string \<rightharpoonup> AccountBean)" where
  "accountMapLoop he pt [] m = Inr m"
| "accountMapLoop he pt (tmAddress # ks) m =
     (case TmAddressToSignerMap pt tmAddress of
        None \<Rightarrow> accountMapLoop he pt ks m
      | Some signer \<Rightarrow>
          (case PosItemMap pt signer of
             None \<Rightarrow> Inl (PanicMsg ''TmAddressToSignerMap and PosItemMap mismatch'')
           | Some it \<Rightarrow>
               panic_bind (accountBean he signer it) (\<lambda>bean. accountMapLoop he pt ks (m(tmAddress \<mapsto> bean)))))"

definition accountMapData :: "'x httpenv \<Rightarrow> 'x PosTable option \<Rightarrow> panic + bytes" where
  "accountMapData he q =
     panic_bind (deref q) (\<lambda>pt.
     panic_bind (accountMapLoop he pt (rangeSigners he (TmAddressToSignerMap pt)) Map.empty) (\<lambda>m.
       Inr (writeJson marshalError he (AccountMapData m))))"

definition GetAccountMapData :: "'x httpenv \<Rightarrow> 'x handler" where
  "GetAccountMapData he stg = accountMapData he (cev_PosTable (s_CurrEpoch (fst stg)))"

definition GetNextAccountMapData :: "'x httpenv \<Rightarrow> 'x handler" where
  "GetNextAccountMapData he stg = accountMapData he (s_NextPosTable (fst stg))"

fun preValidatorsLoop ::
  "'x Strategy \<Rightarrow> string list \<Rightarrow> httpValidator list \<Rightarrow> panic + httpValidator list" where
  "preValidatorsLoop st [] vs = Inr vs"
| "preValidatorsLoop st (tmAddressStr # ks) vs =
     (case Validators (s_CurrentHeight st) tmAddressStr of
        None \<Rightarrow> preValidatorsLoop st ks vs
      | Some v \<Rightarrow>
          panic_bind (deref (cev_PosTable (s_CurrEpoch st))) (\<lambda>pt.
          panic_bind (deref (PosItemMap pt (val_Signer v))) (\<lambda>it.
            preValidatorsLoop st ks (vs @ [
              \<lparr>hv_PubKey = vu_PubKey (val_Update v), hv_Power = Power (val_Update v),
               hv_AddressString = tmAddressStr, hv_Signer = val_Signer v, hv_Slots = 0,
               hv_Beneficiary = Beneficiary it, hv_BlsKeyString = []\<rparr>]))))"

definition GetPreBlockUpdateValidators :: "'x httpenv \<Rightarrow> 'x handler" where
  "GetPreBlockUpdateValidators he stg =
     panic_bind (preValidatorsLoop (fst stg) (rangeValidators he (Validators (s_CurrentHeight (fst stg)))) [])
       (\<lambda>vs. Inr (writeJson marshalError he (ValidatorsData vs)))"

text \<open>A Go map answers the zero value for a missing key: an unknown proposer has the zero signer.\<close>

definition GetPreBlockProposer :: "'x httpenv \<Rightarrow> 'x handler" where
  "GetPreBlockProposer he stg =
     (let st = fst stg; proposer = ProposerAddress (s_CurrentHeight st) in
      panic_bind (deref (cev_PosTable (s_CurrEpoch st))) (\<lambda>pt.
        let signer = (case TmAddressToSignerMap pt proposer of None \<Rightarrow> 0 | Some a \<Rightarrow> a) in
        panic_bind (deref (PosItemMap pt signer)) (\<lambda>it.
          Inr (writeJson marshalError he (ProposerData
            \<lparr>pp_PreBlockProposer = proposer, pp_Beneficiary = Beneficiary it, pp_Signer = signer\<rparr>)))))"

definition candidate :: "address \<Rightarrow> PosItem \<Rightarrow> httpValidator" where
  "candidate signer it =
     \<lparr>hv_PubKey = pi_PubKey it, hv_Power = 1, hv_AddressString = TmAddress it, hv_Signer = signer,
      hv_Slots = Slots it, hv_Beneficiary = Beneficiary it, hv_BlsKeyString = pi_BlsKeyString it\<rparr>"

definition GetAllCandidateValidatorPool :: "'x httpenv \<Rightarrow> 'x handler" where
  "GetAllCandidateValidatorPool he stg =
     panic_bind (deref (cev_PosTable (s_CurrEpoch (fst stg)))) (\<lambda>pt.
       Inr (writeJson marshalError he (ValidatorsData
         (concat (map (\<lambda>s. case PosItemMap pt s of None \<Rightarrow> [] | Some it \<Rightarrow> [candidate s it])
           (rangeItems he (PosItemMap pt)))))))"

fun nextCandidates :: "'x PosTable \<Rightarrow> address list \<Rightarrow> httpValidator list \<Rightarrow> panic + httpValidator list" where
  "nextCandidates pt [] vs = Inr vs"
| "nextCandidates pt (signer # ss) vs =
     panic_bind (deref (PosItemMap pt signer)) (\<lambda>it. nextCandidates pt ss (vs @ [candidate signer it]))"

definition GetNextAllCandidateValidatorPool :: "'x env \<Rightarrow> 'x httpenv \<Rightarrow> 'x handler" where
  "GetNextAllCandidateValidatorPool e he stg =
     panic_bind (deref (s_NextPosTable (fst stg))) (\<lambda>pt.
     panic_bind (nextCandidates pt (TopKSigners e pt 100) []) (\<lambda>vs.
       Inr (writeJson marshalError he (ValidatorsData vs))))"

fun initialValidatorsLoop :: "'x env \<Rightarrow> ValidatorUpdate list \<Rightarrow> httpValidator list \<Rightarrow> panic + httpValidator list" where
  "initialValidatorsLoop e [] vs = Inr vs"
| "initialValidatorsLoop e (v # rest) vs =
     panic_bind (deref (PubKeyAddress e (vu_PubKey v))) (\<lambda>tmAddressStr.
       initialValidatorsLoop e rest (vs @ [
         \<lparr>hv_PubKey = vu_PubKey v, hv_Power = 0, hv_AddressString = tmAddressStr, hv_Signer = 0,
          hv_Slots = 0, hv_Beneficiary = 0, hv_BlsKeyString = []\<rparr>]))"

definition GetInitialValidator :: "'x env \<Rightarrow> 'x httpenv \<Rightarrow> 'x handler" where
  "GetInitialValidator e he stg =
     panic_bind (initialValidatorsLoop e (s_InitialValidators (fst stg)) []) (\<lambda>vs.
       Inr (writeJson marshalError he (ValidatorsData vs)))"

definition GetEncourage :: "'x httpenv \<Rightarrow> 'x handler" where
  "GetEncourage he stg =
     panic_bind (deref (TotalBalance (s_CurrEpoch (fst stg)))) (\<lambda>total.
     panic_bind (big_Div total yearlyDivisor) (\<lambda>minerBonus.
       Inr (writeJson marshalError he (EncourageData
         \<lparr>en_TotalBalance = total, EncourageAverageBlock = minerBonus\<rparr>))))"

definition GetTxPoolEventSize :: "'x httpenv \<Rightarrow> 'x handler" where
  "GetTxPoolEventSize he stg =
     Inr (writeJson ''error occurred when marshal into json'' he
       (TextData (''unread txpool event size: '' @ show_int (GetTxpoolChainHeadSize he))))"

definition GetAuthTable :: "'x httpenv \<Rightarrow> 'x handler" where
  "GetAuthTable he stg =
     panic_bind (deref (EthAuthTable (snd stg))) (\<lambda>at.
       Inr (writeJson ''error occurred when marshal into json'' he (AuthTableData at)))"

section \<open>Dispatch\<close>

definition RegisterFunc :: "'x env \<Rightarrow> 'x httpenv \<Rightarrow> (string \<rightharpoonup> 'x handler) \<Rightarrow> (string \<rightharpoonup> 'x handler)" where
  "RegisterFunc e he m = m
     (''/hello'' \<mapsto> Hello, ''/test'' \<mapsto> test, ''/GetPosTable'' \<mapsto> GetPosTableData he,
      ''/GetAccountMap'' \<mapsto> GetAccountMapData he,
      ''/GetCurrentValidators'' \<mapsto> GetPreBlockUpdateValidators he,
      ''/GetPreBlockProposer'' \<mapsto> GetPreBlockProposer he,
      ''/GetAllCandidateValidators'' \<mapsto> GetAllCandidateValidatorPool he,
      ''/GetEncourage'' \<mapsto> GetEncourage he, ''/GetPosTable'' \<mapsto> GetPosTableData he,
      ''/GetAccountMap'' \<mapsto> GetAccountMapData he,
      ''/GetInitialValidator'' \<mapsto> GetInitialValidator e he,
      ''/GetHeadEventSize'' \<mapsto> GetTxPoolEventSize he)"

definition NewTHandler :: "string \<rightharpoonup> 'x handler" where
  "NewTHandler = Map.empty"

text \<open>The handler of the server: a new one with its functions registered.\<close>

definition NewBaseServer :: "'x env \<Rightarrow> 'x httpenv \<Rightarrow> (string \<rightharpoonup> 'x handler)" where
  "NewBaseServer e he = RegisterFunc e he NewTHandler"

definition ServeHTTP :: "(string \<rightharpoonup> 'x handler) \<Rightarrow> string \<Rightarrow> 'x handler" where
  "ServeHTTP m url stg = (case m url of None \<Rightarrow> Inr [] | Some h \<Rightarrow> h stg)"

section \<open>The account map view\<close>

definition beanEntry :: "'x httpenv \<Rightarrow> 'x PosTable \<Rightarrow> string \<Rightarrow> (string \<times> AccountBean) option" where
  "beanEntry he pt a =
     (case TmAddressToSignerMap pt a of
        None \<Rightarrow> None
      | Some s \<Rightarrow>
          (case PosItemMap pt s of
             None \<Rightarrow> None
           | Some it \<Rightarrow> (case accountBean he s it of Inl p \<Rightarrow> None | Inr bean \<Rightarrow> Some (a, bean))))"

text \<open>Every signer the table knows has an item, with a bonus.\<close>

definition all_bonded :: "'x PosTable \<Rightarrow> bool" where
  "all_bonded pt \<longleftrightarrow>
     (\<forall>s \<in> ran (TmAddressToSignerMap pt). \<exists>it. PosItemMap pt s = Some it \<and> BeneficiaryBonus it \<noteq> None)"

lemma accountBean_Inr_iff: "(\<exists>bean. accountBean he s it = Inr bean) \<longleftrightarrow> BeneficiaryBonus it \<noteq> None"
  by (cases "BeneficiaryBonus it") (simp_all add: accountBean_def deref_def)

definition beanAt :: "'x PosTable \<Rightarrow> string \<Rightarrow> bool" where
  "beanAt pt a \<longleftrightarrow> (\<forall>s. TmAddressToSignerMap pt a = Some s \<longrightarrow>
     (\<exists>it. PosItemMap pt s = Some it \<and> BeneficiaryBonus it \<noteq> None))"

lemma accountMapLoop_ok:
  assumes "\<forall>k \<in> set ks. beanAt pt k"
  shows "accountMapLoop he pt ks m = Inr (putAll (beanEntry he pt) ks m)"
  using assms
  by (induction ks arbitrary: m) (auto simp: beanAt_def beanEntry_def accountBean_def deref_def split: option.splits)

lemma accountMapLoop_panics:
  assumes "\<not> (\<forall>k \<in> set ks. beanAt pt k)"
  shows "\<exists>p. accountMapLoop he pt ks m = Inl p"
  using assms
  by (induction ks arbitrary: m) (auto simp: beanAt_def accountBean_def deref_def split: option.splits)

lemma enumerated_bonded:
  assumes "enumerates ks (TmAddressToSignerMap pt)"
  shows "(\<forall>k \<in> set ks. beanAt pt k) \<longleftrightarrow> all_bonded pt"
  using assms by (fastforce simp: all_bonded_def beanAt_def enumerates_def ran_def)

lemma accountMapData_ok:
  assumes "range_order (rangeSigners he)" and "finite (dom (TmAddressToSignerMap pt))" and "all_bonded pt"
  shows "accountMapData he (Some pt) =
    Inr (writeJson marshalError he (AccountMapData (\<lambda>a. map_option snd (beanEntry he pt a))))"
proof -
  let ?ks = "rangeSigners he (TmAddressToSignerMap pt)"
  have en: "enumerates ?ks (TmAddressToSignerMap pt)" by (rule range_orderD [OF assms(1,2)])
  have key: "fst e = a" if "beanEntry he pt a = Some e" for a e
    using that by (auto simp: beanEntry_def split: option.splits sum.splits)
  have "a \<in> set ?ks" if "beanEntry he pt a \<noteq> None" for a
    using that en by (auto simp: beanEntry_def enumerates_def split: option.splits)
  then have "putAll (beanEntry he pt) ?ks Map.empty a = map_option snd (beanEntry he pt a)" for a
    using key
    by (subst putAll_key_value [where g = "\<lambda>a. map_option snd (beanEntry he pt a)"])
      (auto simp: map_option_case split: option.splits)
  then have "putAll (beanEntry he pt) ?ks Map.empty = (\<lambda>a. map_option snd (beanEntry he pt a))" by blast
  then show ?thesis
    using assms(3) unfolding enumerated_bonded [OF en, symmetric]
    by (simp add: accountMapData_def deref_def accountMapLoop_ok)
qed

lemma accountMapData_total_iff:
  assumes "range_order (rangeSigners he)" and "finite (dom (TmAddressToSignerMap pt))"
  shows "(\<exists>r. accountMapData he (Some pt) = Inr r) \<longleftrightarrow> all_bonded pt"
proof (cases "all_bonded pt")
  case True
  then show ?thesis by (simp add: accountMapData_ok [OF assms])
next
  case False
  then obtain p where "accountMapLoop he pt (rangeSigners he (TmAddressToSignerMap pt)) Map.empty = Inl p"
    using accountMapLoop_panics enumerated_bonded [OF range_orderD [OF assms]] by metis
  with False show ?thesis by (simp add: accountMapData_def deref_def)
qed

text \<open>What \<open>/GetAccountMap\<close> answers, for every iteration order, when every signer the current table knows
  is bonded and has a bonus: the JSON text of the map from Tendermint addresses to the signer, slots,
  bonus, beneficiary and BLS key of the item. Otherwise the handler panics, also for a signer that is no
  longer bonded, a state that the rewards and the slashing treat as legal.\<close>

lemma GetAccountMap_answer:
  assumes "range_order (rangeSigners he)" and "cev_PosTable (s_CurrEpoch st) = Some pt"
    and "finite (dom (TmAddressToSignerMap pt))"
  shows "all_bonded pt \<Longrightarrow> ServeHTTP (NewBaseServer e he) ''/GetAccountMap'' (st, gv) =
      Inr (writeJson marshalError he (AccountMapData (\<lambda>a. map_option snd (beanEntry he pt a))))"
    and "\<not> all_bonded pt \<Longrightarrow> \<exists>p. ServeHTTP (NewBaseServer e he) ''/GetAccountMap'' (st, gv) = Inl p"
  using accountMapData_ok [OF assms(1,3)] accountMapData_total_iff [OF assms(1,3)]
  by (auto simp: ServeHTTP_def NewBaseServer_def RegisterFunc_def GetAccountMapData_def assms(2)
      intro: sum.exhaust [of "accountMapData he (Some pt)"])

section \<open>Availability of the server\<close>

lemma preValidatorsLoop_Inr_iff:
  assumes "cev_PosTable (s_CurrEpoch st) = Some pt"
  shows "(\<exists>r. preValidatorsLoop st ks vs = Inr r) \<longleftrightarrow>
    (\<forall>k \<in> set ks. \<forall>v. Validators (s_CurrentHeight st) k = Some v \<longrightarrow> PosItemMap pt (val_Signer v) \<noteq> None)"
  by (induction ks arbitrary: vs) (auto simp: assms deref_def split: option.splits)

lemma initialValidatorsLoop_Inr_iff:
  "(\<exists>r. initialValidatorsLoop e us vs = Inr r) \<longleftrightarrow> (\<forall>u \<in> set us. PubKeyAddress e (vu_PubKey u) \<noteq> None)"
  by (induction us arbitrary: vs) (auto simp: deref_def split: option.splits)

definition proposerSigner :: "'x Strategy \<Rightarrow> 'x PosTable \<Rightarrow> address" where
  "proposerSigner st pt =
     (case TmAddressToSignerMap pt (ProposerAddress (s_CurrentHeight st)) of None \<Rightarrow> 0 | Some a \<Rightarrow> a)"

definition http_ready :: "'x env \<Rightarrow> 'x Strategy \<Rightarrow> 'x PosTable \<Rightarrow> bool" where
  "http_ready e st pt \<longleftrightarrow>
     TotalBalance (s_CurrEpoch st) \<noteq> None \<and> all_bonded pt \<and>
     (\<forall>v \<in> ran (Validators (s_CurrentHeight st)). val_Signer v \<in> dom (PosItemMap pt)) \<and>
     proposerSigner st pt \<in> dom (PosItemMap pt) \<and>
     (\<forall>u \<in> set (s_InitialValidators st). PubKeyAddress e (vu_PubKey u) \<noteq> None)"

lemma panic_bind_total_iff:
  "(\<exists>r. panic_bind m (\<lambda>x. Inr (f x)) = Inr r) \<longleftrightarrow> (\<exists>x. m = Inr x)"
  by (cases m) auto

lemma view_answers:
  assumes "range_order (rangeSigners he)" and "range_order (rangeValidators he)"
    and "cev_PosTable (s_CurrEpoch st) = Some pt" and "finite (dom (TmAddressToSignerMap pt))"
    and "finite (dom (Validators (s_CurrentHeight st)))"
  shows "(\<exists>r. GetAccountMapData he (st, gv) = Inr r) \<longleftrightarrow> all_bonded pt"
    and "(\<exists>r. GetPreBlockUpdateValidators he (st, gv) = Inr r) \<longleftrightarrow>
      (\<forall>v \<in> ran (Validators (s_CurrentHeight st)). val_Signer v \<in> dom (PosItemMap pt))"
    and "(\<exists>r. GetPreBlockProposer he (st, gv) = Inr r) \<longleftrightarrow> proposerSigner st pt \<in> dom (PosItemMap pt)"
    and "(\<exists>r. GetInitialValidator e he (st, gv) = Inr r) \<longleftrightarrow>
      (\<forall>u \<in> set (s_InitialValidators st). PubKeyAddress e (vu_PubKey u) \<noteq> None)"
    and "(\<exists>r. GetEncourage he (st, gv) = Inr r) \<longleftrightarrow> TotalBalance (s_CurrEpoch st) \<noteq> None"
proof -
  show "(\<exists>r. GetAccountMapData he (st, gv) = Inr r) \<longleftrightarrow> all_bonded pt"
    by (simp add: GetAccountMapData_def assms(3) accountMapData_total_iff [OF assms(1,4)])
  have "enumerates (rangeValidators he (Validators (s_CurrentHeight st))) (Validators (s_CurrentHeight st))"
    by (rule range_orderD [OF assms(2,5)])
  then show "(\<exists>r. GetPreBlockUpdateValidators he (st, gv) = Inr r) \<longleftrightarrow>
      (\<forall>v \<in> ran (Validators (s_CurrentHeight st)). val_Signer v \<in> dom (PosItemMap pt))"
    by (simp add: GetPreBlockUpdateValidators_def panic_bind_total_iff preValidatorsLoop_Inr_iff [OF assms(3)])
      (fastforce simp: enumerates_def ran_def)
  show "(\<exists>r. GetPreBlockProposer he (st, gv) = Inr r) \<longleftrightarrow> proposerSigner st pt \<in> dom (PosItemMap pt)"
    by (auto simp: GetPreBlockProposer_def assms(3) deref_def proposerSigner_def Let_def split: option.splits)
  show "(\<exists>r. GetInitialValidator e he (st, gv) = Inr r) \<longleftrightarrow>
      (\<forall>u \<in> set (s_InitialValidators st). PubKeyAddress e (vu_PubKey u) \<noteq> None)"
    by (simp add: GetInitialValidator_def panic_bind_total_iff initialValidatorsLoop_Inr_iff)
  show "(\<exists>r. GetEncourage he (st, gv) = Inr r) \<longleftrightarrow> TotalBalance (s_CurrEpoch st) \<noteq> None"
    by (auto simp: GetEncourage_def deref_def big_Div_def yearlyDivisor_def split: option.splits)
qed

text \<open>C26. Exactly when the HTTP server can serve every URL without a panic, once there is a current
  table: when the total balance is set, every known signer is still bonded, with a bonus that is not nil, so is the signer of
  every recorded validator and the proposer of the last block, and the keys of the initial
  validators convert.\<close>

theorem ServeHTTP_total_iff:
  assumes "range_order (rangeSigners he)" and "range_order (rangeValidators he)"
    and "cev_PosTable (s_CurrEpoch st) = Some pt" and "finite (dom (TmAddressToSignerMap pt))"
    and "finite (dom (Validators (s_CurrentHeight st)))"
  shows "(\<forall>url. \<exists>bs. ServeHTTP (NewBaseServer e he) url (st, gv) = Inr bs) \<longleftrightarrow> http_ready e st pt"
proof -
  note v = view_answers [OF assms, where gv = gv]
  have others: "\<exists>r. Hello (st, gv) = Inr r" "\<exists>r. test (st, gv) = Inr r" "\<exists>r. GetPosTableData he (st, gv) = Inr r"
    "\<exists>r. GetAllCandidateValidatorPool he (st, gv) = Inr r" "\<exists>r. GetTxPoolEventSize he (st, gv) = Inr r"
    by (simp_all add: Hello_def test_def GetPosTableData_def GetAllCandidateValidatorPool_def
        GetTxPoolEventSize_def assms(3) deref_def)
  define S where "S url \<longleftrightarrow> (\<exists>bs. ServeHTTP (NewBaseServer e he) url (st, gv) = Inr bs)" for url
  have S: "S ''/GetAccountMap'' \<longleftrightarrow> all_bonded pt"
    "S ''/GetCurrentValidators'' \<longleftrightarrow> (\<forall>v \<in> ran (Validators (s_CurrentHeight st)). val_Signer v \<in> dom (PosItemMap pt))"
    "S ''/GetPreBlockProposer'' \<longleftrightarrow> proposerSigner st pt \<in> dom (PosItemMap pt)"
    "S ''/GetInitialValidator'' \<longleftrightarrow> (\<forall>u \<in> set (s_InitialValidators st). PubKeyAddress e (vu_PubKey u) \<noteq> None)"
    "S ''/GetEncourage'' \<longleftrightarrow> TotalBalance (s_CurrEpoch st) \<noteq> None"
    unfolding S_def v [symmetric] by (simp_all add: ServeHTTP_def NewBaseServer_def RegisterFunc_def)
  define U where "U = {''/GetAccountMap'', ''/GetCurrentValidators'', ''/GetPreBlockProposer'',
      ''/GetInitialValidator'', ''/GetEncourage''}"
  have "S url" if "url \<notin> U" for url
    using that others by (simp add: U_def S_def ServeHTTP_def NewBaseServer_def RegisterFunc_def NewTHandler_def)
  then have "(\<forall>url. S url) \<longleftrightarrow> (\<forall>url \<in> U. S url)" by blast
  then have "(\<forall>url. S url) \<longleftrightarrow> http_ready e st pt"
    by (simp add: U_def S http_ready_def del: domIff not_None_eq) argo
  then show ?thesis by (simp add: S_def)
qed

section \<open>Witnesses\<close>

definition sampleHttp :: "unit httpenv" where
  "sampleHttp =
     \<lparr>MarshalHttp = (\<lambda>d. case d of TextData s \<Rightarrow> Some (toBytes s) | _ \<Rightarrow> None),
      AddressString = (\<lambda>a. show_nat (unat a)), GetTxpoolChainHeadSize = 0,
      rangeSigners = sortedKeys, rangeValidators = sortedKeys, rangeItems = sortedKeys\<rparr>"

lemma sampleHttp_orders: "range_order (rangeSigners sampleHttp)" "range_order (rangeValidators sampleHttp)"
  by (simp_all add: sampleHttp_def range_order_sortedKeys)

lemma sample_all_bonded: "all_bonded samplePosTable"
  by (auto simp: all_bonded_def samplePosTable_def sampleItem_def ran_def split: if_splits)

lemma sample_table: "cev_PosTable (s_CurrEpoch (sampleStrategy 5 0)) = Some samplePosTable"
  "finite (dom (TmAddressToSignerMap samplePosTable))"
  by (simp_all add: sampleStrategy_def samplePosTable_def)

theorem ServeHTTP_total_iff_witness:
  "\<not> (\<forall>url. \<exists>bs. ServeHTTP (NewBaseServer sampleEnv sampleHttp) url (sampleStrategy 5 0, sampleVars) = Inr bs)"
proof -
  have "finite (dom (Validators (s_CurrentHeight (sampleStrategy 5 0))))"
    by (simp add: sampleStrategy_def NewStrategy_def)
  from ServeHTTP_total_iff [OF sampleHttp_orders sample_table this, of sampleEnv sampleVars]
  show ?thesis
    by (simp add: http_ready_def proposerSigner_def sampleStrategy_def NewStrategy_def samplePosTable_def)
qed

end
