(* ===== verification/GoFiles.thy ===== *)
theory GoFiles
  imports GoStd
begin

text \<open>
  The further parts of Go's standard library the command line tools use: \<open>filepath.Clean\<close> and
  \<open>filepath.Join\<close> on a system whose separator is the slash, \<open>strconv.Atoi\<close>, \<open>strings.TrimSpace\<close> and
  \<open>strings.ToLower\<close> on ASCII text, and \<open>net.ParseIP\<close> followed by \<open>To4\<close> (IPv4 in dotted form and
  the IPv6 forms, an IPv4-mapped one included) with \<open>IP.String\<close> of the four bytes.
\<close>

section \<open>Paths\<close>

text \<open>The elements of a path, cleaned from left to right: the kept ones are in reverse.\<close>

fun cleanParts :: "bool \<Rightarrow> string list \<Rightarrow> string list \<Rightarrow> string list" where
  "cleanParts rooted kept [] = rev kept"
| "cleanParts rooted kept (p # ps) =
     (if p = [] \<or> p = ''.'' then cleanParts rooted kept ps
      else if p = ''..'' then
        (case kept of
           [] \<Rightarrow> cleanParts rooted (if rooted then [] else [''..'']) ps
         | k # ks \<Rightarrow> cleanParts rooted (if k = ''..'' then ''..'' # kept else ks) ps)
      else cleanParts rooted (p # kept) ps)"

definition Clean :: "string \<Rightarrow> string" where
  "Clean s =
     (if s = [] then ''.''
      else
        (let rooted = (hd s = CHR ''/'');
             out = Join (cleanParts rooted [] (Split s CHR ''/'')) CHR ''/'' in
         if rooted then CHR ''/'' # out else if out = [] then ''.'' else out))"

definition pathJoin :: "string list \<Rightarrow> string" where
  "pathJoin elems =
     (case dropWhile (\<lambda>e. e = []) elems of [] \<Rightarrow> [] | e # es \<Rightarrow> Clean (Join (e # es) CHR ''/''))"

text \<open>The name of one entry of a directory.\<close>

definition plainName :: "string \<Rightarrow> bool" where
  "plainName n \<longleftrightarrow> n \<noteq> [] \<and> n \<noteq> ''.'' \<and> n \<noteq> ''..'' \<and> CHR ''/'' \<notin> set n"

lemma split_at_append:
  "split_at sep acc (a @ sep # b) = split_at sep acc a @ split_at sep [] b"
  by (induction a arbitrary: acc) auto

lemma cleanParts_snoc:
  "plainName n \<Longrightarrow> cleanParts rooted kept (ps @ [n]) = cleanParts rooted kept ps @ [n]"
  by (induction ps arbitrary: kept) (auto simp: plainName_def split: list.splits)

lemma Join_snoc: "Join (ps @ [n]) sep = (if ps = [] then n else Join ps sep @ sep # n)"
  by (induction ps sep rule: Join.induct) auto

lemma Join_pair: "Join [a, b] sep = a @ sep # b"
  by simp

text \<open>The cleaned directory, up to and including the separator before an entry.\<close>

definition dirPrefix :: "string \<Rightarrow> string" where
  "dirPrefix d =
     (if d = [] then []
      else
        (let rooted = (hd d = CHR ''/'');
             ps = cleanParts rooted [] (Split d CHR ''/'') in
         (if rooted then ''/'' else []) @ (if ps = [] then [] else Join ps CHR ''/'' @ ''/'')))"

lemma pathJoin_entry:
  assumes "plainName n"
  shows "pathJoin [d, n] = dirPrefix d @ n"
proof (cases "d = []")
  case True
  then show ?thesis
    using assms cleanParts_snoc [OF assms, of _ "[]" "[]"] split_at_no_sep [of "CHR ''/''" n "[]"]
    by (cases n) (auto simp: pathJoin_def Clean_def dirPrefix_def plainName_def Split_def Let_def)
next
  case False
  have "Split (d @ CHR ''/'' # n) CHR ''/'' = Split d CHR ''/'' @ [n]"
    using assms split_at_no_sep [of "CHR ''/''" n "[]"]
    by (simp add: Split_def split_at_append plainName_def)
  with False assms show ?thesis
    by (simp add: pathJoin_def Clean_def dirPrefix_def cleanParts_snoc Join_snoc Let_def hd_append)
      (auto simp: plainName_def)
qed

lemma pathJoin_inject:
  assumes "plainName n" and "plainName n'"
  shows "pathJoin [d, n] = pathJoin [d, n'] \<longleftrightarrow> n = n'"
  using assms by (simp add: pathJoin_entry)

section \<open>Numbers\<close>

definition Atoi :: "string \<Rightarrow> int option" where
  "Atoi s =
     (let (neg, body) = strip_sign s in
      case ParseUint body of
        Num n \<Rightarrow>
          if \<not> neg \<and> n \<ge> 2 ^ 63 then None
          else if neg \<and> n > 2 ^ 63 then None
          else Some (if neg then - int n else int n)
      | _ \<Rightarrow> None)"

lemma Atoi_bounds: "Atoi s = Some x \<Longrightarrow> - (2 ^ 63) \<le> x \<and> x < 2 ^ 63"
  by (auto simp: Atoi_def Let_def split: prod.splits uint_result.splits if_splits)

lemma Atoi_Nil [simp]: "Atoi [] = None"
  by (simp add: Atoi_def strip_sign_def ParseUint_def)

lemma Atoi_show_int: "- (2 ^ 63) \<le> x \<Longrightarrow> x < 2 ^ 63 \<Longrightarrow> Atoi (show_int x) = Some x"
  by (auto simp: Atoi_def show_int_def ParseUint_show_nat strip_sign_def [of "CHR ''-'' # _"] nat_less_iff)

lemma digit_char_inj: "i < 10 \<Longrightarrow> j < 10 \<Longrightarrow> char_of (48 + i :: nat) = (char_of (48 + j :: nat) :: char) \<Longrightarrow> i = j"
  by (metis digit_val_char option.inject)

lemma show_nat_inject: "show_nat m = show_nat n \<longleftrightarrow> m = n"
proof
  show "show_nat m = show_nat n \<Longrightarrow> m = n"
  proof (induction m arbitrary: n rule: less_induct)
    case (less m)
    have last: "last (show_nat k) = char_of (48 + k mod 10)" for k
      by (subst show_nat.simps) simp
    have butlast: "butlast (show_nat k) = (if k < 10 then [] else show_nat (k div 10))" for k
      by (subst show_nat.simps) simp
    have mod: "m mod 10 = n mod 10"
      using last [of m] last [of n] less.prems by (intro digit_char_inj) auto
    have ten: "m < 10 \<longleftrightarrow> n < 10"
      using butlast [of m] butlast [of n] less.prems show_nat_nonempty by (metis (full_types))
    show ?case
    proof (cases "m < 10")
      case True
      with ten mod show ?thesis by simp
    next
      case False
      with ten butlast [of m] butlast [of n] less.prems have "show_nat (m div 10) = show_nat (n div 10)" by simp
      with less.IH [of "m div 10" "n div 10"] False have "m div 10 = n div 10" by simp
      with mod show ?thesis by (metis div_mult_mod_eq)
    qed
  qed
qed simp

lemma show_int_nat: "show_int (int n) = show_nat n"
  by (simp add: show_int_def)

section \<open>Text\<close>

definition is_space :: "char \<Rightarrow> bool" where
  "is_space c \<longleftrightarrow> c = CHR '' '' \<or> (9 \<le> (of_char c :: nat) \<and> (of_char c :: nat) \<le> 13)"

definition TrimSpace :: "string \<Rightarrow> string" where
  "TrimSpace s = rev (dropWhile is_space (rev (dropWhile is_space s)))"

definition lower_char :: "char \<Rightarrow> char" where
  "lower_char c =
     (if 65 \<le> (of_char c :: nat) \<and> (of_char c :: nat) \<le> 90 then char_of ((of_char c :: nat) + 32) else c)"

definition ToLower :: "string \<Rightarrow> string" where
  "ToLower s = map lower_char s"

lemma TrimSpace_no_space: "TrimSpace s \<noteq> [] \<Longrightarrow> \<not> is_space (hd (rev (TrimSpace s)))"
  by (metis TrimSpace_def hd_dropWhile rev_is_Nil_conv rev_rev_ident)

section \<open>IP addresses\<close>

text \<open>Decimal and hexadecimal numbers at the head of a string: the value and what follows, \<open>None\<close>
  when there is no digit or the value reaches \<open>0xFFFFFF\<close>.\<close>

fun dtoi_loop :: "nat \<Rightarrow> bool \<Rightarrow> string \<Rightarrow> (nat \<times> string) option" where
  "dtoi_loop n seen [] = (if seen then Some (n, []) else None)"
| "dtoi_loop n seen (c # cs) =
     (case digit_val c of
        None \<Rightarrow> if seen then Some (n, c # cs) else None
      | Some d \<Rightarrow> if 0xFFFFFF \<le> n * 10 + d then None else dtoi_loop (n * 10 + d) True cs)"

definition hex_val :: "char \<Rightarrow> nat option" where
  "hex_val c =
     (case digit_val c of
        Some d \<Rightarrow> Some d
      | None \<Rightarrow>
          let k = (of_char c :: nat) in
          if 97 \<le> k \<and> k \<le> 102 then Some (k - 87) else if 65 \<le> k \<and> k \<le> 70 then Some (k - 55) else None)"

fun xtoi_loop :: "nat \<Rightarrow> bool \<Rightarrow> string \<Rightarrow> (nat \<times> string) option" where
  "xtoi_loop n seen [] = (if seen then Some (n, []) else None)"
| "xtoi_loop n seen (c # cs) =
     (case hex_val c of
        None \<Rightarrow> if seen then Some (n, c # cs) else None
      | Some d \<Rightarrow> if 0xFFFFFF \<le> n * 16 + d then None else xtoi_loop (n * 16 + d) True cs)"

text \<open>\<open>k\<close> numbers of at most 255, a dot before each but the first.\<close>

fun parseIPv4Loop :: "nat \<Rightarrow> bool \<Rightarrow> string \<Rightarrow> bytes option" where
  "parseIPv4Loop 0 later s = (if s = [] then Some [] else None)"
| "parseIPv4Loop (Suc k) later s =
     (if s = [] \<or> (later \<and> hd s \<noteq> CHR ''.'') then None
      else
        (case dtoi_loop 0 False (if later then tl s else s) of
           None \<Rightarrow> None
         | Some (n, s') \<Rightarrow>
             if 0xFF < n then None
             else map_option (\<lambda>bs. word_of_nat n # bs) (parseIPv4Loop k True s')))"

definition parseIPv4 :: "string \<Rightarrow> bytes option" where
  "parseIPv4 s = parseIPv4Loop 4 False s"

text \<open>The groups of an IPv6 address: \<open>k\<close> groups may still come, \<open>ip\<close> holds the bytes read and
  \<open>ell\<close> the position of the double colon. The result is what was read and what is left of the text.\<close>

fun parseIPv6Loop :: "nat \<Rightarrow> bytes \<Rightarrow> nat option \<Rightarrow> string \<Rightarrow> (bytes \<times> nat option \<times> string) option" where
  "parseIPv6Loop 0 ip ell s = Some (ip, ell, s)"
| "parseIPv6Loop (Suc k) ip ell s =
     (case xtoi_loop 0 False s of
        None \<Rightarrow> None
      | Some (n, r) \<Rightarrow>
          if 0xFFFF < n then None
          else if r \<noteq> [] \<and> hd r = CHR ''.'' then
            (if (ell = None \<and> length ip \<noteq> 12) \<or> 16 < length ip + 4 then None
             else case parseIPv4 s of None \<Rightarrow> None | Some ip4 \<Rightarrow> Some (ip @ ip4, ell, []))
          else
            (let ip' = ip @ [word_of_nat (n div 256), word_of_nat n] in
             if r = [] then Some (ip', ell, [])
             else if hd r \<noteq> CHR '':'' \<or> tl r = [] then None
             else if hd (tl r) = CHR '':'' then
               (if ell \<noteq> None then None
                else if tl (tl r) = [] then Some (ip', Some (length ip'), [])
                else parseIPv6Loop k ip' (Some (length ip')) (tl (tl r)))
             else parseIPv6Loop k ip' ell (tl r)))"

definition parseIPv6 :: "string \<Rightarrow> bytes option" where
  "parseIPv6 s =
     (let lead = (is_prefix ''::'' s); s' = (if lead then drop 2 s else s) in
      if lead \<and> s' = [] then Some (replicate 16 0)
      else
        (case parseIPv6Loop 8 [] (if lead then Some 0 else None) s' of
           None \<Rightarrow> None
         | Some (ip, ell, r) \<Rightarrow>
             if r \<noteq> [] then None
             else if length ip < 16 then
               (case ell of
                  None \<Rightarrow> None
                | Some p \<Rightarrow> Some (take p ip @ replicate (16 - length ip) 0 @ drop p ip))
             else if ell \<noteq> None then None
             else Some ip))"

definition v4InV6Prefix :: bytes where
  "v4InV6Prefix = [0, 0, 0, 0, 0, 0, 0, 0, 0, 0, 0xFF, 0xFF]"

fun ParseIPFrom :: "string \<Rightarrow> string \<Rightarrow> bytes option" where
  "ParseIPFrom s [] = None"
| "ParseIPFrom s (c # cs) =
     (if c = CHR ''.'' then map_option (\<lambda>ip. v4InV6Prefix @ ip) (parseIPv4 s)
      else if c = CHR '':'' then parseIPv6 s
      else ParseIPFrom s cs)"

definition ParseIP :: "string \<Rightarrow> bytes option" where
  "ParseIP s = ParseIPFrom s s"

definition To4 :: "bytes option \<Rightarrow> bytes option" where
  "To4 ip =
     (case ip of
        None \<Rightarrow> None
      | Some b \<Rightarrow>
          if length b = 4 then Some b
          else if length b = 16 \<and> take 12 b = v4InV6Prefix then Some (drop 12 b)
          else None)"

definition IP_String :: "bytes \<Rightarrow> string" where
  "IP_String ip = Join (map (\<lambda>b. show_nat (unat b)) ip) CHR ''.''"

lemmas parseIP_numeral [simp] =
  parseIPv4Loop.simps(2) [of "pred_numeral k" for k, folded numeral_eq_Suc]
  parseIPv6Loop.simps(2) [of "pred_numeral k" for k, folded numeral_eq_Suc]

lemmas ParseIP_defs = To4_def ParseIP_def parseIPv6_def parseIPv4_def digit_val_def hex_val_def v4InV6Prefix_def

lemma ParseIP_v4: "To4 (ParseIP ''192.168.0.250'') = Some [192, 168, 0, 250]"
  by (simp add: ParseIP_defs)

lemma ParseIP_v4_mapped: "To4 (ParseIP ''::ffff:1.2.3.4'') = Some [1, 2, 3, 4]"
  by (simp add: ParseIP_defs) (simp add: numeral_eq_Suc)

lemma ParseIP_not_v4:
  "To4 (ParseIP ''2001:db8::1'') = None" "To4 (ParseIP ''1.2.3'') = None" "To4 (ParseIP ''256.1.1.1'') = None"
  by (simp_all add: ParseIP_defs)

lemma To4_length: "To4 ip = Some b \<Longrightarrow> length b = 4"
  by (auto simp: To4_def split: option.splits if_splits)

lemma show_nat_no_dot: "CHR ''.'' \<notin> set (show_nat n)"
proof
  assume "CHR ''.'' \<in> set (show_nat n)"
  then obtain d where "d < 10" and "CHR ''.'' = (char_of (48 + d :: nat) :: char)" using show_nat_digits by blast
  then have "digit_val CHR ''.'' = Some d" by simp
  then show False by (simp add: digit_val_def)
qed

lemma IP_String_inject:
  assumes "ip \<noteq> []" and "ip' \<noteq> []"
  shows "IP_String ip = IP_String ip' \<longleftrightarrow> ip = ip'"
proof
  assume eq: "IP_String ip = IP_String ip'"
  let ?f = "\<lambda>b :: byte. show_nat (unat b)"
  have split: "Split (IP_String x) CHR ''.'' = map ?f x" if "x \<noteq> []" for x
    unfolding IP_String_def using that show_nat_no_dot by (intro Split_Join) auto
  from split [OF assms(1)] split [OF assms(2)] eq have m: "map ?f ip = map ?f ip'" by simp
  have "inj ?f" by (auto simp: inj_def show_nat_inject word_unat_eq_iff)
  with m show "ip = ip'" by (simp add: inj_map_eq_map)
qed simp

end
