(* ===== verification/CliFlags.thy ===== *)
theory CliFlags
  imports GoFiles
begin

text \<open>
  The command line: the flags of \<open>src/cmd/utils/flags.go\<close> with their names and default values, the
  lists of flags \<open>src/cmd/dtfn/main.go\<close> gives to the application, and the context from which the
  commands read them. The context is an object of the \<open>cli\<close> package, so it is a record of the reading
  functions the commands call. Flags of go-ethereum's command line utilities are not defined in this
  repository: \<open>EthUtilsFlag\<close> refers to one by the name of its Go variable.
\<close>

section \<open>Flags\<close>

datatype cliFlag =
    StringFlag string string
  | IntFlag string int
  | Int64Flag string int
  | Uint64Flag string nat
  | BoolFlag string
  | EthUtilsFlag string

definition GenesisTargetGasLimit :: int where
  "GenesisTargetGasLimit = 100000000"

definition LogLevelFlag :: cliFlag where
  "LogLevelFlag = StringFlag ''logLevel'' ''info''"

definition TendermintAddrFlag :: cliFlag where
  "TendermintAddrFlag = StringFlag ''tendermint_addr'' ''tcp://localhost:26657''"

definition ABCIAddrFlag :: cliFlag where
  "ABCIAddrFlag = StringFlag ''abci_laddr'' ''tcp://0.0.0.0:26658''"

definition ABCIProtocolFlag :: cliFlag where
  "ABCIProtocolFlag = StringFlag ''abci_protocol'' ''socket''"

definition VerbosityFlag :: cliFlag where
  "VerbosityFlag = IntFlag ''verbosity'' 3"

definition TrieTimeLimitFlag :: cliFlag where
  "TrieTimeLimitFlag = IntFlag ''trie_time_limit'' 60"

definition ConfigFileFlag :: cliFlag where
  "ConfigFileFlag = StringFlag ''config'' []"

definition TargetGasLimitFlag :: cliFlag where
  "TargetGasLimitFlag = Uint64Flag ''target_gas_limit'' (nat GenesisTargetGasLimit)"

definition WithTendermintFlag :: cliFlag where
  "WithTendermintFlag = BoolFlag ''with-tendermint''"

definition VersionConfigTypeFlag :: cliFlag where
  "VersionConfigTypeFlag = IntFlag ''version_config_type'' 0"

definition VersionConfigFile :: cliFlag where
  "VersionConfigFile = StringFlag ''version_config_file'' ''/root/gelchain_config/version.yaml''"

definition PrivValidatorListenAddr :: cliFlag where
  "PrivValidatorListenAddr = StringFlag ''priv_validator_laddr'' []"

definition PrivValidator :: cliFlag where
  "PrivValidator = StringFlag ''priv_validator_file'' []"

definition FastSync :: cliFlag where
  "FastSync = BoolFlag ''fast_sync''"

definition PersistentPeers :: cliFlag where
  "PersistentPeers = StringFlag ''persistent_peers'' []"

definition AddrBook :: cliFlag where
  "AddrBook = StringFlag ''addr_book_file'' []"

definition RoutabilityStrict :: cliFlag where
  "RoutabilityStrict = BoolFlag ''routable_strict''"

definition PrivatePeerIDs :: cliFlag where
  "PrivatePeerIDs = StringFlag ''private_peer_ids'' []"

definition PexReactor :: cliFlag where
  "PexReactor = BoolFlag ''pex''"

definition TendermintP2PListenAddress :: cliFlag where
  "TendermintP2PListenAddress = StringFlag ''tendermint_p2paddr'' []"

definition TendermintP2PExternalAddress :: cliFlag where
  "TendermintP2PExternalAddress = StringFlag ''tm_external_addr'' []"

definition MempoolBroadcastFlag :: cliFlag where
  "MempoolBroadcastFlag = BoolFlag ''broadcast_tx''"

definition TmConsEmptyBlock :: cliFlag where
  "TmConsEmptyBlock = BoolFlag ''tm_cons_emptyblock''"

definition TmConsEBlockInteval :: cliFlag where
  "TmConsEBlockInteval = Uint64Flag ''tm_cons_eb_inteval'' 0"

definition TmConsProposeTimeout :: cliFlag where
  "TmConsProposeTimeout = Uint64Flag ''propose_timeout'' 0"

definition TmConsNeedProofBlock :: cliFlag where
  "TmConsNeedProofBlock = BoolFlag ''need_proof_block''"

definition TmInitialEthAccount :: cliFlag where
  "TmInitialEthAccount = StringFlag ''initial_eth_account'' []"

definition TmBlsSelectStrategy :: cliFlag where
  "TmBlsSelectStrategy = BoolFlag ''bls_select_strategy''"

definition TestNetVals :: cliFlag where
  "TestNetVals = IntFlag ''v'' 4"

definition TestNetNVals :: cliFlag where
  "TestNetNVals = IntFlag ''n'' 0"

definition TestNetP2PPort :: cliFlag where
  "TestNetP2PPort = IntFlag ''p2p-port'' 26656"

definition TestNetpOpulatePersistentPeers :: cliFlag where
  "TestNetpOpulatePersistentPeers = BoolFlag ''populate-persistent-peers''"

definition TestNetOutput :: cliFlag where
  "TestNetOutput = StringFlag ''o'' ''./mytestnet''"

definition TestNetNodeDir :: cliFlag where
  "TestNetNodeDir = StringFlag ''node-dir-prefix'' ''node''"

definition TestNetHostnamePrefix :: cliFlag where
  "TestNetHostnamePrefix = StringFlag ''hostname-prefix'' ''node''"

definition TestnetStartingIPAddress :: cliFlag where
  "TestnetStartingIPAddress = StringFlag ''starting-ip-address'' []"

definition TxpoolThreshold :: cliFlag where
  "TxpoolThreshold = IntFlag ''txpool_threshold'' 38000"

definition TxpoolPriceLimit :: cliFlag where
  "TxpoolPriceLimit = IntFlag ''price_limit'' 1000"

definition RollbackHeight :: cliFlag where
  "RollbackHeight = Int64Flag ''rollback_height'' 200"

definition RollbackFlag :: cliFlag where
  "RollbackFlag = BoolFlag ''rollback_flag''"

definition SelectCountFlag :: cliFlag where
  "SelectCountFlag = IntFlag ''select_count'' 7"

definition SelectBlockNumber :: cliFlag where
  "SelectBlockNumber = Int64Flag ''select_block_number'' 1"

definition SelectStrategy :: cliFlag where
  "SelectStrategy = BoolFlag ''select_strategy''"

definition DKGMembersLimitFlag :: cliFlag where
  "DKGMembersLimitFlag = IntFlag ''dkg_members_limit'' 100"

definition MaxInPeers :: cliFlag where
  "MaxInPeers = IntFlag ''max_in_peers'' 29"

definition MaxOutPeers :: cliFlag where
  "MaxOutPeers = IntFlag ''max_out_peers'' 11"

definition PexInitDelay :: cliFlag where
  "PexInitDelay = IntFlag ''pex_init_delay'' 180"

definition MempoolSize :: cliFlag where
  "MempoolSize = IntFlag ''mempool_size'' 50000"

definition MempoolThreshold :: cliFlag where
  "MempoolThreshold = IntFlag ''mempool_threshold'' 10000"

definition MempoolHeightThreshold :: cliFlag where
  "MempoolHeightThreshold = IntFlag ''mempool_height_threshold'' 100"

definition FlowControlFlag :: cliFlag where
  "FlowControlFlag = BoolFlag ''flow_control''"

definition FlowControlMaxSleepTime :: cliFlag where
  "FlowControlMaxSleepTime = IntFlag ''flow_control_sleep'' 10"

definition LRUCacheSize :: cliFlag where
  "LRUCacheSize = IntFlag ''block_cache_Size'' 64"

section \<open>The flags of the application\<close>

definition nodeFlags :: "cliFlag list" where
  "nodeFlags =
     [EthUtilsFlag ''DataDirFlag'', EthUtilsFlag ''KeyStoreDirFlag'', EthUtilsFlag ''NoUSBFlag'',
      EthUtilsFlag ''FakePoWFlag'', EthUtilsFlag ''CacheFlag'', EthUtilsFlag ''GCModeFlag'',
      TrieTimeLimitFlag, EthUtilsFlag ''UnlockedAccountFlag'', EthUtilsFlag ''PasswordFileFlag'',
      EthUtilsFlag ''VMEnableDebugFlag'', EthUtilsFlag ''NoCompactionFlag'',
      EthUtilsFlag ''GpoBlocksFlag'', EthUtilsFlag ''GpoPercentileFlag'', TargetGasLimitFlag,
      TxpoolThreshold, TxpoolPriceLimit, LRUCacheSize, EthUtilsFlag ''InsecureUnlockAllowedFlag'',
      EthUtilsFlag ''MaxPeersFlag'']"

definition rpcFlags :: "cliFlag list" where
  "rpcFlags =
     [EthUtilsFlag ''LegacyRPCEnabledFlag'', EthUtilsFlag ''LegacyRPCListenAddrFlag'',
      EthUtilsFlag ''LegacyRPCPortFlag'', EthUtilsFlag ''LegacyRPCCORSDomainFlag'',
      EthUtilsFlag ''LegacyRPCVirtualHostsFlag'', EthUtilsFlag ''LegacyRPCApiFlag'',
      EthUtilsFlag ''IPCDisabledFlag'', EthUtilsFlag ''WSEnabledFlag'',
      EthUtilsFlag ''WSListenAddrFlag'', EthUtilsFlag ''WSPortFlag'', EthUtilsFlag ''WSApiFlag'',
      EthUtilsFlag ''WSAllowedOriginsFlag'']"

definition ethermintFlags :: "cliFlag list" where
  "ethermintFlags =
     [TendermintAddrFlag, ABCIAddrFlag, ABCIProtocolFlag, VerbosityFlag, ConfigFileFlag,
      WithTendermintFlag, VersionConfigFile, VersionConfigTypeFlag, LogLevelFlag]"

definition tendermintFlags :: "cliFlag list" where
  "tendermintFlags =
     [PexReactor, PrivValidatorListenAddr, PrivValidator, FastSync, PersistentPeers, AddrBook,
      RoutabilityStrict, PrivatePeerIDs, TendermintP2PListenAddress, TendermintP2PExternalAddress,
      MempoolBroadcastFlag, TmConsEmptyBlock, TmConsEBlockInteval, TmConsNeedProofBlock,
      TmConsProposeTimeout, TmInitialEthAccount, TmBlsSelectStrategy, TestNetHostnamePrefix,
      TestNetNodeDir, TestNetNVals, TestNetOutput, TestNetP2PPort, TestNetpOpulatePersistentPeers,
      TestnetStartingIPAddress, TestNetVals, MaxInPeers, MaxOutPeers, RollbackHeight, RollbackFlag,
      SelectCountFlag, SelectBlockNumber, SelectStrategy, DKGMembersLimitFlag, MempoolSize,
      MempoolThreshold, MempoolHeightThreshold, FlowControlFlag, FlowControlMaxSleepTime, PexInitDelay]"

text \<open>\<open>init\<close> appends the lists to the flags the new \<open>cli\<close> application starts with.\<close>

definition appFlags :: "cliFlag list \<Rightarrow> cliFlag list" where
  "appFlags flags0 = (((flags0 @ nodeFlags) @ rpcFlags) @ ethermintFlags) @ tendermintFlags"

lemmas flag_defs =
        LogLevelFlag_def TendermintAddrFlag_def ABCIAddrFlag_def ABCIProtocolFlag_def
        VerbosityFlag_def TrieTimeLimitFlag_def ConfigFileFlag_def TargetGasLimitFlag_def
        WithTendermintFlag_def VersionConfigTypeFlag_def VersionConfigFile_def
        PrivValidatorListenAddr_def PrivValidator_def FastSync_def PersistentPeers_def AddrBook_def
        RoutabilityStrict_def PrivatePeerIDs_def PexReactor_def TendermintP2PListenAddress_def
        TendermintP2PExternalAddress_def MempoolBroadcastFlag_def TmConsEmptyBlock_def
        TmConsEBlockInteval_def TmConsProposeTimeout_def TmConsNeedProofBlock_def
        TmInitialEthAccount_def TmBlsSelectStrategy_def TestNetVals_def TestNetNVals_def
        TestNetP2PPort_def TestNetpOpulatePersistentPeers_def TestNetOutput_def TestNetNodeDir_def
        TestNetHostnamePrefix_def TestnetStartingIPAddress_def TxpoolThreshold_def
        TxpoolPriceLimit_def RollbackHeight_def RollbackFlag_def SelectCountFlag_def
        SelectBlockNumber_def SelectStrategy_def DKGMembersLimitFlag_def MaxInPeers_def
        MaxOutPeers_def PexInitDelay_def MempoolSize_def MempoolThreshold_def
        MempoolHeightThreshold_def FlowControlFlag_def FlowControlMaxSleepTime_def LRUCacheSize_def

lemmas flag_list_defs = nodeFlags_def rpcFlags_def ethermintFlags_def tendermintFlags_def

text \<open>The name a flag is given on the command line; \<open>ethName\<close> has the names of go-ethereum's flags.\<close>

fun flagName :: "(string \<Rightarrow> string) \<Rightarrow> cliFlag \<Rightarrow> string" where
  "flagName ethName (StringFlag n v) = n"
| "flagName ethName (IntFlag n i) = n"
| "flagName ethName (Int64Flag n i) = n"
| "flagName ethName (Uint64Flag n u) = n"
| "flagName ethName (BoolFlag n) = n"
| "flagName ethName (EthUtilsFlag g) = ethName g"

abbreviation ownName :: "cliFlag \<Rightarrow> string" where
  "ownName \<equiv> flagName (\<lambda>g. [])"

fun isOwn :: "cliFlag \<Rightarrow> bool" where
  "isOwn (EthUtilsFlag g) = False"
| "isOwn f = True"

section \<open>Contexts\<close>

record cliContext =
  GlobalString :: "string \<Rightarrow> string"
  GlobalInt :: "string \<Rightarrow> int"
  GlobalInt64 :: "string \<Rightarrow> int"
  GlobalBool :: "string \<Rightarrow> bool"
  GlobalIsSet :: "string \<Rightarrow> bool"
  Args :: "string list"

definition First :: "string list \<Rightarrow> string" where
  "First args = (case args of [] \<Rightarrow> [] | a # as \<Rightarrow> a)"

text \<open>How a command ends other than by returning nil: with an error it returns, by exiting the
  process with a message, or by a panic.\<close>

datatype cmdError = ReturnedErr string | Fatalf string | CmdPanic panic

definition cmd_bind :: "cmdError + 'a \<Rightarrow> ('a \<Rightarrow> cmdError + 'b) \<Rightarrow> cmdError + 'b" where
  "cmd_bind m f = (case m of Inl err \<Rightarrow> Inl err | Inr x \<Rightarrow> f x)"

lemma cmd_bind_simps [simp]:
  "cmd_bind (Inl err) f = Inl err"
  "cmd_bind (Inr x) f = f x"
  by (simp_all add: cmd_bind_def)

lemma cmd_bind_Inr_iff: "cmd_bind m f = Inr y \<longleftrightarrow> (\<exists>x. m = Inr x \<and> f x = Inr y)"
  by (cases m) auto

section \<open>No flag is registered twice\<close>

text \<open>The flag set panics when a name is registered twice. The names of the repository's own flags
  differ, so the application registers its flags if go-ethereum's names differ among themselves and
  from them.\<close>

lemma own_names_distinct: "distinct (map ownName (filter isOwn (appFlags [])))"
  by (simp add: appFlags_def flag_list_defs flag_defs)

lemma appFlags_own: "length (filter isOwn (appFlags [])) = 53"
  by (simp add: appFlags_def flag_list_defs flag_defs)

end
