(* ===== verification/CmdConfig.thy ===== *)
theory CmdConfig
  imports CliFlags
begin

text \<open>
  The configuration the commands build from the flags and the environment: the data directories
  (\<open>src/cmd/utils/config.go\<close>, \<open>src/cmd/utils/utils.go\<close>, \<open>src/cmd/dtfn/init.go\<close>), the configuration of
  the go-ethereum node and service (\<open>config.go\<close>, \<open>src/ethereum/node.go\<close>), of the Tendermint node
  (\<open>loadTMConfig\<close> of \<open>src/cmd/dtfn/dtfn.go\<close>) with the level of its logger. The
  configuration records have the fields the code writes; default configurations and what go-ethereum
  and Tendermint make of them are arguments.
\<close>

section \<open>Directories\<close>

text \<open>What the process is told by the operating system and by go-ethereum: environment variables,
  the home directory of the current user if it can be found, the operating system, \<open>node.DefaultDataDir()\<close>
  and the command line names of go-ethereum's flags.\<close>

record osenv =
  Getenv :: "string \<Rightarrow> string"
  CurrentUserHome :: "string option"
  GOOS :: string
  nodeDefaultDataDir :: string
  ethName :: "string \<Rightarrow> string"

definition clientIdentifier :: string where
  "clientIdentifier = ''gelchain''"

definition emHome :: string where
  "emHome = ''EMHOME''"

definition MakeDataDir :: "osenv \<Rightarrow> cliContext \<Rightarrow> cmdError + string" where
  "MakeDataDir os ctx =
     (let path0 = nodeDefaultDataDir os;
          home = Getenv os emHome;
          path1 = (if home \<noteq> [] then home else path0);
          dataDir = ethName os ''DataDirFlag'';
          path = (if GlobalIsSet ctx dataDir then GlobalString ctx dataDir else path1) in
      if path = []
      then Inl (Fatalf ''Cannot determine default data directory, please set manually (--datadir)'')
      else Inr path)"

definition HomeDir :: "osenv \<Rightarrow> string" where
  "HomeDir os =
     (if Getenv os ''HOME'' \<noteq> [] then Getenv os ''HOME''
      else case CurrentUserHome os of Some h \<Rightarrow> h | None \<Rightarrow> [])"

definition DefaultDataDir :: "osenv \<Rightarrow> string" where
  "DefaultDataDir os =
     (let home = HomeDir os in
      if home \<noteq> [] then
        (if GOOS os = ''darwin'' then pathJoin [home, ''Library'', ''Ethermint'']
         else if GOOS os = ''windows'' then pathJoin [home, ''AppData'', ''Roaming'', ''Ethermint'']
         else pathJoin [home, ''.gelchain''])
      else [])"

text \<open>\<open>rmAll\<close> is \<open>os.RemoveAll\<close>: the error, if any, and the files afterwards.\<close>

definition ResetAll ::
  "osenv \<Rightarrow> (string \<Rightarrow> 'f \<Rightarrow> string option \<times> 'f) \<Rightarrow> cliContext \<Rightarrow> 'f \<Rightarrow> (cmdError + unit) \<times> 'f" where
  "ResetAll os rmAll ctx fs =
     (case MakeDataDir os ctx of
        Inl err \<Rightarrow> (Inl err, fs)
      | Inr dir \<Rightarrow>
          (case rmAll (pathJoin [dir, ''gelchain'']) fs of
             (Some err, fs') \<Rightarrow> (Inl (ReturnedErr err), fs')
           | (None, fs') \<Rightarrow> (Inr (), fs')))"

definition resetCmd ::
  "osenv \<Rightarrow> (string \<Rightarrow> 'f \<Rightarrow> string option \<times> 'f) \<Rightarrow> cliContext \<Rightarrow> 'f \<Rightarrow> (cmdError + unit) \<times> 'f" where
  "resetCmd os rmAll ctx fs = ResetAll os rmAll ctx fs"

definition canInvokeTendermint :: "cliContext \<Rightarrow> bool" where
  "canInvokeTendermint ctx = GlobalBool ctx (ownName WithTendermintFlag)"

definition tendermintHomeFromEthermint :: "osenv \<Rightarrow> cliContext \<Rightarrow> cmdError + string" where
  "tendermintHomeFromEthermint os ctx =
     cmd_bind (MakeDataDir os ctx) (\<lambda>dir. Inr (pathJoin [dir, ''tendermint'']))"

definition ethermintGenesisPath :: "osenv \<Rightarrow> cliContext \<Rightarrow> cmdError + string" where
  "ethermintGenesisPath os ctx =
     cmd_bind (MakeDataDir os ctx) (\<lambda>dir. Inr (pathJoin [dir, ''gelchain/chaindata/genesis.json'']))"

section \<open>Durations\<close>

text \<open>\<open>time.Duration(n) * time.Second\<close>, in nanoseconds at 64 bits.\<close>

definition seconds :: "int \<Rightarrow> int" where
  "seconds n = i64 (n * 1000000000)"

lemma seconds_exact: "\<bar>n\<bar> \<le> 9223372036 \<Longrightarrow> seconds n = n * 1000000000"
  unfolding seconds_def by (rule i64_id) (simp add: is_i64_def abs_le_iff)

section \<open>The go-ethereum node\<close>

record nodeConfig =
  nc_Name :: string
  nc_Version :: string
  nc_HTTPModules :: "string list"
  nc_WSModules :: "string list"
  nc_IPCPath :: string
  nc_DataDir :: string
  nc_MaxPeers :: int
  nc_NoDiscovery :: bool

record 'm ethConfig =
  ec_PowMode :: 'm
  ec_GasCeil :: uint64
  ec_TrieTimeout :: int
  ec_MempoolSize :: uint64
  ec_MaxFlowLimitSleepTime :: int
  ec_FlowLimitThreshold :: uint64
  ec_PriceLimit :: uint64
  ec_LRUCacheSize :: int

record ('n, 'm) gethenv =
  node_DefaultConfig :: nodeConfig
  params_Version :: string
  eth_DefaultConfig :: "'m ethConfig"
  ModeNil :: 'm
  ge_SetNodeConfig :: "cliContext \<Rightarrow> nodeConfig \<Rightarrow> nodeConfig"
  ge_SetEthConfig :: "cliContext \<Rightarrow> 'n \<Rightarrow> 'm ethConfig \<Rightarrow> 'm ethConfig"
  node_New :: "nodeConfig \<Rightarrow> string + 'n"
  node_Start :: "'n \<Rightarrow> string + 'n"
  server_Stop :: "'n \<Rightarrow> 'n"

record 'm gethConfig =
  gc_Eth :: "'m ethConfig"
  gc_Node :: nodeConfig

definition DefaultNodeConfig :: "osenv \<Rightarrow> ('n, 'm) gethenv \<Rightarrow> nodeConfig" where
  "DefaultNodeConfig os ge =
     (let cfg = node_DefaultConfig ge;
          cfg = cfg\<lparr>nc_Name := clientIdentifier, nc_Version := params_Version ge,
                    nc_HTTPModules := nc_HTTPModules cfg @ [''eth''],
                    nc_WSModules := nc_WSModules cfg @ [''eth''], nc_IPCPath := ''geth.ipc''\<rparr> in
      if Getenv os emHome \<noteq> [] then cfg\<lparr>nc_DataDir := Getenv os emHome\<rparr> else cfg)"

definition SetEthermintNodeConfig :: "nodeConfig \<Rightarrow> nodeConfig" where
  "SetEthermintNodeConfig cfg = cfg\<lparr>nc_MaxPeers := 0, nc_NoDiscovery := True\<rparr>"

definition SetEthermintEthConfig ::
  "('n, 'm) gethenv \<Rightarrow> cliContext \<Rightarrow> 'm ethConfig \<Rightarrow> 'm ethConfig" where
  "SetEthermintEthConfig ge ctx cfg0 =
     (let cfg1 = cfg0\<lparr>ec_PowMode := ModeNil ge, ec_GasCeil := 0\<rparr>;
          trieTimeLimit = GlobalInt ctx (ownName TrieTimeLimitFlag);
          cfg2 = (if trieTimeLimit > 0 then cfg1\<lparr>ec_TrieTimeout := seconds trieTimeLimit\<rparr> else cfg1);
          cfg3 = (if GlobalBool ctx (ownName FlowControlFlag)
                  then cfg2\<lparr>ec_MempoolSize := word_of_int (GlobalInt ctx (ownName MempoolSize)),
                            ec_MaxFlowLimitSleepTime := seconds (GlobalInt ctx (ownName FlowControlMaxSleepTime)),
                            ec_FlowLimitThreshold := word_of_int (GlobalInt ctx (ownName TxpoolThreshold))\<rparr>
                  else cfg2\<lparr>ec_MempoolSize := 0\<rparr>);
          cfg4 = cfg3\<lparr>ec_PriceLimit := word_of_int (GlobalInt ctx (ownName TxpoolPriceLimit))\<rparr>;
          cacheSize = GlobalInt ctx (ownName LRUCacheSize) in
      if cacheSize > 0 then cfg4\<lparr>ec_LRUCacheSize := cacheSize\<rparr> else cfg4)"

text \<open>\<open>Node\<close> of \<open>src/ethereum/node.go\<close> wraps the node of go-ethereum.\<close>

definition ethereum_New :: "('n, 'm) gethenv \<Rightarrow> nodeConfig \<Rightarrow> string + 'n" where
  "ethereum_New ge conf = (case node_New ge conf of Inl err \<Rightarrow> Inl err | Inr stack \<Rightarrow> Inr stack)"

definition Node_Start :: "('n, 'm) gethenv \<Rightarrow> 'n \<Rightarrow> string + 'n" where
  "Node_Start ge n = (case node_Start ge n of Inl err \<Rightarrow> Inl err | Inr n' \<Rightarrow> Inr (server_Stop ge n'))"

definition NewNodeConfig :: "('n, 'm) gethenv \<Rightarrow> nodeConfig \<Rightarrow> cliContext \<Rightarrow> nodeConfig" where
  "NewNodeConfig ge zero ctx = ge_SetNodeConfig ge ctx zero"

definition NewEthConfig :: "('n, 'm) gethenv \<Rightarrow> 'm ethConfig \<Rightarrow> cliContext \<Rightarrow> 'n \<Rightarrow> 'm ethConfig" where
  "NewEthConfig ge zero ctx stack = ge_SetEthConfig ge ctx stack zero"

definition makeConfigNode ::
  "osenv \<Rightarrow> ('n, 'm) gethenv \<Rightarrow> cliContext \<Rightarrow> cmdError + 'n \<times> 'm gethConfig" where
  "makeConfigNode os ge ctx =
     (let nodeCfg = SetEthermintNodeConfig (ge_SetNodeConfig ge ctx (DefaultNodeConfig os ge)) in
      case ethereum_New ge nodeCfg of
        Inl err \<Rightarrow> Inl (Fatalf (''Failed to create the protocol stack: '' @ err))
      | Inr stack \<Rightarrow>
          (let ethCfg = SetEthermintEthConfig ge ctx (eth_DefaultConfig ge) in
           Inr (stack, \<lparr>gc_Eth = ge_SetEthConfig ge ctx stack ethCfg, gc_Node = nodeCfg\<rparr>)))"

text \<open>\<open>newBackend\<close> is \<open>ethereum.NewBackend\<close> with the client of the given Tendermint address.\<close>

definition MakeFullNode ::
  "osenv \<Rightarrow> ('n, 'm) gethenv \<Rightarrow> ('n \<Rightarrow> 'm ethConfig \<Rightarrow> string \<Rightarrow> string + 'b) \<Rightarrow> cliContext \<Rightarrow> cmdError + 'n \<times> 'b" where
  "MakeFullNode os ge newBackend ctx =
     cmd_bind (makeConfigNode os ge ctx) (\<lambda>(stack, cfg).
       case newBackend stack (gc_Eth cfg) (GlobalString ctx (ownName TendermintAddrFlag)) of
         Inl err \<Rightarrow> Inl (Fatalf (''Failed to ethereum.NewBackend: '' @ err))
       | Inr backend \<Rightarrow> Inr (stack, backend))"

section \<open>The Tendermint node\<close>

record tmBaseConfig =
  tb_RootDir :: string
  tb_RollbackHeight :: int
  tb_RollbackFlag :: bool
  tb_FastSync :: bool
  tb_InitialEthAccount :: string
  tb_PrivValidatorListenAddr :: string
  tb_PrivValidatorKey :: string

record tmMempoolConfig =
  tm_RootDir :: string
  tm_Size :: int
  tm_Broadcast :: bool
  tm_FlowControl :: bool
  tm_FlowControlThreshold :: int
  tm_FlowControlHeightThreshold :: int
  tm_FlowControlMaxSleepTime :: int

record tmConsensusConfig =
  tc_RootDir :: string
  tc_CreateEmptyBlocks :: bool
  tc_CreateEmptyBlocksInterval :: int
  tc_NeedProofBlock :: bool
  tc_TimeoutPropose :: int

record tmP2PConfig =
  tp_RootDir :: string
  tp_PexReactor :: bool
  tp_AddrBook :: string
  tp_AddrBookStrict :: bool
  tp_PersistentPeers :: string
  tp_PrivatePeerIDs :: string
  tp_ListenAddress :: string
  tp_ExternalAddress :: string
  tp_MaxNumInboundPeers :: int
  tp_MaxNumOutboundPeers :: int
  tp_SendRate :: int
  tp_RecvRate :: int
  tp_FlushThrottleTimeout :: int
  tp_MaxPacketMsgPayloadSize :: int

record 'i tmConfig =
  BaseConfig :: tmBaseConfig
  Mempool :: tmMempoolConfig
  Consensus :: tmConsensusConfig
  P2P :: tmP2PConfig
  RPC_RootDir :: string
  Instrumentation :: 'i

definition mempoolOf :: "cliContext \<Rightarrow> string \<Rightarrow> tmMempoolConfig \<Rightarrow> tmMempoolConfig" where
  "mempoolOf ctx tmHome c =
     c\<lparr>tm_RootDir := tmHome,
       tm_Size := GlobalInt ctx (ownName MempoolSize),
       tm_Broadcast := GlobalBool ctx (ownName MempoolBroadcastFlag),
       tm_FlowControl := GlobalBool ctx (ownName FlowControlFlag),
       tm_FlowControlThreshold := GlobalInt ctx (ownName MempoolThreshold),
       tm_FlowControlHeightThreshold := GlobalInt ctx (ownName MempoolHeightThreshold),
       tm_FlowControlMaxSleepTime := seconds (GlobalInt ctx (ownName FlowControlMaxSleepTime))\<rparr>"

definition consensusOf :: "cliContext \<Rightarrow> string \<Rightarrow> tmConsensusConfig \<Rightarrow> tmConsensusConfig" where
  "consensusOf ctx tmHome c =
     c\<lparr>tc_RootDir := tmHome,
       tc_CreateEmptyBlocks := GlobalBool ctx (ownName TmConsEmptyBlock),
       tc_CreateEmptyBlocksInterval := seconds (GlobalInt ctx (ownName TmConsEBlockInteval)),
       tc_NeedProofBlock := GlobalBool ctx (ownName TmConsNeedProofBlock),
       tc_TimeoutPropose := seconds (GlobalInt ctx (ownName TmConsProposeTimeout))\<rparr>"

definition baseOf :: "cliContext \<Rightarrow> string \<Rightarrow> tmBaseConfig \<Rightarrow> tmBaseConfig" where
  "baseOf ctx tmHome c =
     c\<lparr>tb_RootDir := tmHome,
       tb_RollbackHeight := GlobalInt64 ctx (ownName RollbackHeight),
       tb_RollbackFlag := GlobalBool ctx (ownName RollbackFlag),
       tb_FastSync := GlobalBool ctx (ownName FastSync),
       tb_InitialEthAccount := GlobalString ctx (ownName TmInitialEthAccount),
       tb_PrivValidatorListenAddr := GlobalString ctx (ownName PrivValidatorListenAddr),
       tb_PrivValidatorKey := GlobalString ctx (ownName PrivValidator)\<rparr>"

definition p2pOf :: "cliContext \<Rightarrow> string \<Rightarrow> tmP2PConfig \<Rightarrow> tmP2PConfig" where
  "p2pOf ctx tmHome c =
     c\<lparr>tp_RootDir := tmHome,
       tp_PexReactor := GlobalBool ctx (ownName PexReactor),
       tp_AddrBook := GlobalString ctx (ownName AddrBook),
       tp_AddrBookStrict := GlobalBool ctx (ownName RoutabilityStrict),
       tp_PersistentPeers := GlobalString ctx (ownName PersistentPeers),
       tp_PrivatePeerIDs := GlobalString ctx (ownName PrivatePeerIDs),
       tp_ListenAddress := GlobalString ctx (ownName TendermintP2PListenAddress),
       tp_ExternalAddress := GlobalString ctx (ownName TendermintP2PExternalAddress),
       tp_MaxNumInboundPeers := GlobalInt ctx (ownName MaxInPeers),
       tp_MaxNumOutboundPeers := GlobalInt ctx (ownName MaxInPeers),
       tp_SendRate := 20480000,
       tp_RecvRate := 20480000,
       tp_FlushThrottleTimeout := 10 * 1000000,
       tp_MaxPacketMsgPayloadSize := 1024\<rparr>"

text \<open>The three default configurations come from Tendermint.\<close>

definition loadTMConfig ::
  "osenv \<Rightarrow> tmBaseConfig \<Rightarrow> 'i \<Rightarrow> 'i tmConfig \<Rightarrow> cliContext \<Rightarrow> cmdError + 'i tmConfig" where
  "loadTMConfig os defaultBase defaultInstrumentation defaultConfig ctx =
     cmd_bind (tendermintHomeFromEthermint os ctx) (\<lambda>tmHome.
       Inr (defaultConfig
         \<lparr>BaseConfig := baseOf ctx tmHome defaultBase,
          Mempool := mempoolOf ctx tmHome (Mempool defaultConfig),
          Consensus := consensusOf ctx tmHome (Consensus defaultConfig),
          P2P := p2pOf ctx tmHome (P2P defaultConfig),
          RPC_RootDir := tmHome,
          Instrumentation := defaultInstrumentation\<rparr>))"

section \<open>Logging\<close>

datatype logOption = AllowError | AllowInfo | AllowAll

definition configLoggerLevel :: "('l \<Rightarrow> logOption \<Rightarrow> 'l) \<Rightarrow> cliContext \<Rightarrow> 'l \<Rightarrow> 'l" where
  "configLoggerLevel newFilter ctx logger =
     (let level = GlobalString ctx (ownName LogLevelFlag) in
      if level = ''error'' then newFilter logger AllowError
      else if level = ''info'' then newFilter logger AllowInfo
      else newFilter logger AllowAll)"

section \<open>Properties\<close>

lemma MakeDataDir_flag_wins:
  assumes "GlobalIsSet ctx (ethName os ''DataDirFlag'')" and "GlobalString ctx (ethName os ''DataDirFlag'') \<noteq> []"
  shows "MakeDataDir os ctx = Inr (GlobalString ctx (ethName os ''DataDirFlag''))"
  using assms by (simp add: MakeDataDir_def Let_def)

lemma MakeDataDir_nonempty: "MakeDataDir os ctx = Inr dir \<Longrightarrow> dir \<noteq> []"
  by (auto simp: MakeDataDir_def Let_def split: if_splits)

text \<open>The node of go-ethereum never looks for peers, whatever the flags say.\<close>

lemma makeConfigNode_isolated:
  assumes "makeConfigNode os ge ctx = Inr (stack, cfg)"
  shows "node_New ge (gc_Node cfg) = Inr stack \<and> nc_MaxPeers (gc_Node cfg) = 0 \<and> nc_NoDiscovery (gc_Node cfg)"
  using assms
  by (auto simp: makeConfigNode_def ethereum_New_def SetEthermintNodeConfig_def Let_def split: sum.splits)

text \<open>The flag for the number of outbound peers is registered and never read: its value changes
  nothing, and the inbound limit is taken for both directions.\<close>

lemma loadTMConfig_out_peers:
  assumes "loadTMConfig os db di dc ctx = Inr c"
  shows "tp_MaxNumOutboundPeers (P2P c) = GlobalInt ctx (ownName MaxInPeers) \<and>
    tp_MaxNumInboundPeers (P2P c) = GlobalInt ctx (ownName MaxInPeers)"
  using assms by (auto simp: loadTMConfig_def p2pOf_def cmd_bind_Inr_iff)

lemma loadTMConfig_ignores_out_peers:
  "loadTMConfig os db di dc (ctx\<lparr>GlobalInt := (GlobalInt ctx)(ownName MaxOutPeers := n)\<rparr>) =
   loadTMConfig os db di dc ctx"
  by (simp add: loadTMConfig_def tendermintHomeFromEthermint_def MakeDataDir_def mempoolOf_def consensusOf_def
      baseOf_def p2pOf_def flag_defs Let_def)

text \<open>Every part of the Tendermint configuration is rooted in the same directory.\<close>

lemma loadTMConfig_roots:
  assumes "loadTMConfig os db di dc ctx = Inr c" and "MakeDataDir os ctx = Inr dir"
  shows "{tb_RootDir (BaseConfig c), tm_RootDir (Mempool c), tc_RootDir (Consensus c), tp_RootDir (P2P c),
    RPC_RootDir c} = {dirPrefix dir @ ''tendermint''}"
  using assms
  by (auto simp: loadTMConfig_def tendermintHomeFromEthermint_def p2pOf_def baseOf_def consensusOf_def
      mempoolOf_def pathJoin_entry plainName_def)

end
