(* ===== verification/InitCmd.thy ===== *)
theory InitCmd
  imports CmdConfig
begin

text \<open>
  The command \<open>init\<close>: \<open>src/cmd/utils/parse.go\<close>, \<open>src/utils/utils.go\<close> and \<open>initCmd\<close> of
  \<open>src/cmd/dtfn/init.go\<close>. The file system is a state that the functions of the record \<open>filesenv\<close>
  read and change; they stand for the operating system, for Tendermint's key files and genesis
  documents, and for go-ethereum's chain database. What is written to the log is left out.
\<close>

section \<open>Files\<close>

datatype readErr = NotExist | OtherErr string

record 'b BLSPubKey =
  bls_Type :: string
  bls_Address :: string
  bls_Value :: 'b

text \<open>\<open>None\<close> is the zero value of the BLS key and of the time.\<close>

record ('k, 'b) GenesisValidator =
  g_PubKey :: 'k
  g_BlsPubKey :: "'b BLSPubKey option"
  g_Power :: int
  g_Name :: string

record ('k, 'b) GenesisDoc =
  gd_GenesisTime :: "nat option"
  gd_ChainID :: string
  gd_Validators :: "('k, 'b) GenesisValidator list"

record ('f, 'g, 'd, 'o, 'k, 'b) filesenv =
  fe_ReadFile :: "string \<Rightarrow> 'f \<Rightarrow> readErr + string"
  fe_MkdirAll :: "string \<Rightarrow> 'f \<Rightarrow> string option \<times> 'f"
  fe_RemoveAll :: "string \<Rightarrow> 'f \<Rightarrow> string option \<times> 'f"
  fe_Create :: "string \<Rightarrow> 'f \<Rightarrow> string + 'f"
  fe_Write :: "string \<Rightarrow> string \<Rightarrow> 'f \<Rightarrow> string option \<times> 'f"
  fe_Close :: "string \<Rightarrow> 'f \<Rightarrow> string option \<times> 'f"
  fe_FileExists :: "string \<Rightarrow> 'f \<Rightarrow> bool"
  UnmarshalGenesis :: "string \<Rightarrow> string + 'g"
  blankGenesis :: 'g
  OpenChainDb :: "string \<Rightarrow> 'f \<Rightarrow> string + 'd \<times> 'f"
  SetupGenesisBlock :: "'d \<Rightarrow> 'g \<Rightarrow> 'f \<Rightarrow> string option \<times> 'f"
  EnsureRoot :: "string \<Rightarrow> 'f \<Rightarrow> 'f"
  LoadOldFilePV :: "string \<Rightarrow> 'f \<Rightarrow> string + 'o"
  oldPV_Upgrade :: "'o \<Rightarrow> string \<Rightarrow> string \<Rightarrow> 'f \<Rightarrow> 'f"
  LoadOrGenFilePV :: "string \<Rightarrow> string \<Rightarrow> 'f \<Rightarrow> 'k \<times> 'f"
  GenDoc_SaveAs :: "('k, 'b) GenesisDoc \<Rightarrow> string \<Rightarrow> 'f \<Rightarrow> string option \<times> 'f"

section \<open>Reading a genesis file\<close>

text \<open>The lines of the default genesis file, joined by newlines.\<close>

definition defaultGenesisBlob :: string where
  \<open>defaultGenesisBlob = Join
     [[],
      ''{'',
      ''    "config": {'',
      ''        "chainId": 15,'',
      ''        "homesteadBlock": 0,'',
      ''        "eip155Block": 0,'',
      ''        "eip158Block": 0'',
      ''    },'',
      ''    "nonce": "0xdeadbeefdeadbeef",'',
      ''    "timestamp": "0x00",'',
      ''    "parentHash": "0x0000000000000000000000000000000000000000000000000000000000000000",'',
      ''    "mixhash": "0x0000000000000000000000000000000000000000000000000000000000000000",'',
      ''    "difficulty": "0x40",'',
      ''    "gasLimit": "0x8000000",'',
      ''    "alloc": {'',
      ''        "0x7eff122b94897ea5b0e2a9abf47b86337fafebdc": { "balance": "10000000000000000000000000000000000" },'',
      [CHR 0x09] @ ''    "0xc6713982649D9284ff56c32655a9ECcCDA78422A": { "balance": "10000000000000000000000000000000000" }'',
      ''    }'',
      ''}''] CHR 0x0A\<close>

definition errBlankGenesis :: string where
  "errBlankGenesis = ''could not parse a valid/non-blank Genesis''"

text \<open>The text of the file that is parsed: a missing file and one of less than two bytes give the
  default.\<close>

definition genesisText ::
  "('f, 'g, 'd, 'o, 'k, 'b) filesenv \<Rightarrow> 'f \<Rightarrow> string \<Rightarrow> string + string" where
  "genesisText fe fs genesisPath =
     (if length genesisPath > 0 then
        (case fe_ReadFile fe genesisPath fs of
           Inl (OtherErr err) \<Rightarrow> Inl err
         | Inl NotExist \<Rightarrow> Inr defaultGenesisBlob
         | Inr blob \<Rightarrow> Inr (if length blob \<ge> 2 then blob else defaultGenesisBlob))
      else Inr defaultGenesisBlob)"

definition ParseGenesisOrDefault ::
  "('f, 'g, 'd, 'o, 'k, 'b) filesenv \<Rightarrow> 'f \<Rightarrow> string \<Rightarrow> string + 'g" where
  "ParseGenesisOrDefault fe fs genesisPath =
     (case genesisText fe fs genesisPath of
        Inl err \<Rightarrow> Inl err
      | Inr genesisBlob \<Rightarrow>
          (case UnmarshalGenesis fe genesisBlob of
             Inl err \<Rightarrow> Inl err
           | Inr genesis \<Rightarrow> if genesis = blankGenesis fe then Inl errBlankGenesis else Inr genesis))"

definition ReadGenesis ::
  "(string \<Rightarrow> string + 'h) \<Rightarrow> ('h \<Rightarrow> string + 'g) \<Rightarrow> string \<Rightarrow> cmdError + 'g" where
  "ReadGenesis openFile decode genesisPath =
     (if length genesisPath = 0 then Inl (Fatalf ''Must supply path to genesis JSON file'')
      else case openFile genesisPath of
        Inl err \<Rightarrow> Inl (Fatalf (''Failed to read genesis file: '' @ err))
      | Inr file \<Rightarrow>
          (case decode file of
             Inl err \<Rightarrow> Inl (Fatalf (''invalid genesis file: '' @ err))
           | Inr genesis \<Rightarrow> Inr genesis))"

section \<open>The command\<close>

definition keystoreFilesMap :: "(string \<times> string) list" where
  \<open>keystoreFilesMap =
     [(''UTC--2016-10-21T22-30-03.071787745Z--7eff122b94897ea5b0e2a9abf47b86337fafebdc'', Join
     [[],
      ''{'',
      ''  "address":"7eff122b94897ea5b0e2a9abf47b86337fafebdc",'',
      ''  "id":"f86a62b4-0621-4616-99af-c4b7f38fcc48","version":3,'',
      ''  "crypto":{'',
      ''    "cipher":"aes-128-ctr","ciphertext":"19de8a919e2f4cbdde2b7352ebd0be8ead2c87db35fc8e4c9acaf74aaaa57dad",'',
      ''    "cipherparams":{"iv":"ba2bd370d6c9d5845e92fbc6f951c792"},'',
      ''    "kdf":"scrypt","kdfparams":{"dklen":32,"n":262144,"p":1,"r":8,"salt":"c7cc2380a96adc9eb31d20bd8d8a7827199e8b16889582c0b9089da6a9f58e84"},'',
      ''    "mac":"ff2c0caf051ca15d8c43b6f321ec10bd99bd654ddcf12dd1a28f730cc3c13730"'',
      ''  }'',
      ''}'',
      []] CHR 0x0A)]\<close>

text \<open>The Tendermint part: upgrade the old validator key, then write a genesis document with it if
  there is none. \<open>rnd\<close> is the random string of the chain id.\<close>

definition initTendermint ::
  "('f, 'g, 'd, 'o, 'k, 'b) filesenv \<Rightarrow> string \<Rightarrow> string \<Rightarrow> 'f \<Rightarrow> (cmdError + unit) \<times> 'f" where
  "initTendermint fe rnd ethermintDataDir fs =
     (let tendermintHome = pathJoin [ethermintDataDir, ''tendermint''];
          fs1 = EnsureRoot fe tendermintHome fs;
          tendermintConfig = pathJoin [tendermintHome, ''config''];
          oldPrivVal = pathJoin [tendermintConfig, ''priv_validator.json''] in
      case LoadOldFilePV fe oldPrivVal fs1 of
        Inl err \<Rightarrow>
          (Inl (ReturnedErr (''error reading OldPrivValidator from '' @ oldPrivVal @ '': '' @ err @ [CHR 0x0A])), fs1)
      | Inr oldPV \<Rightarrow>
          (let newPrivValKey = pathJoin [tendermintConfig, ''priv_validator_key.json''];
               newPrivValState = pathJoin [tendermintConfig, ''priv_validator_state.json''];
               fs2 = oldPV_Upgrade fe oldPV newPrivValKey newPrivValState fs1;
               (pubKey, fs3) = LoadOrGenFilePV fe newPrivValKey newPrivValState fs2;
               genFile = pathJoin [tendermintConfig, ''genesis.json''] in
           if fe_FileExists fe genFile fs3 then (Inr (), fs3)
           else
             (let genDoc = \<lparr>gd_GenesisTime = None, gd_ChainID = ''test-chain-'' @ rnd,
                            gd_Validators = [\<lparr>g_PubKey = pubKey, g_BlsPubKey = None, g_Power = 10, g_Name = []\<rparr>]\<rparr> in
              case GenDoc_SaveAs fe genDoc genFile fs3 of
                (Some err, fs4) \<Rightarrow> (Inl (CmdPanic (PanicMsg err)), fs4)
              | (None, fs4) \<Rightarrow> (Inr (), fs4))))"

fun writeKeystore ::
  "('f, 'g, 'd, 'o, 'k, 'b) filesenv \<Rightarrow> string \<Rightarrow> (string \<times> string) list \<Rightarrow> 'f \<Rightarrow> (cmdError + unit) \<times> 'f" where
  "writeKeystore fe keystoreDir [] fs = (Inr (), fs)"
| "writeKeystore fe keystoreDir ((filename, content) # rest) fs =
     (let storeFileName = pathJoin [keystoreDir, filename] in
      case fe_Create fe storeFileName fs of
        Inl err \<Rightarrow> writeKeystore fe keystoreDir rest fs
      | Inr fs1 \<Rightarrow>
          (case fe_Close fe storeFileName (snd (fe_Write fe storeFileName content fs1)) of
             (Some err, fs2) \<Rightarrow> (Inl (ReturnedErr err), fs2)
           | (None, fs2) \<Rightarrow> writeKeystore fe keystoreDir rest fs2))"

text \<open>The chain database and the keystore. The map of keystore files is visited in the order \<open>ksOrd\<close>
  gives to it.\<close>

definition initChain ::
  "('f, 'g, 'd, 'o, 'k, 'b) filesenv \<Rightarrow> ((string \<times> string) list \<Rightarrow> (string \<times> string) list) \<Rightarrow> 'g \<Rightarrow> string \<Rightarrow> 'f \<Rightarrow>
     (cmdError + unit) \<times> 'f" where
  "initChain fe ksOrd genesis ethermintDataDir fs =
     (case OpenChainDb fe (pathJoin [ethermintDataDir, ''gelchain/chaindata'']) fs of
        Inl err \<Rightarrow> (Inl (Fatalf (''could not open database: '' @ err)), fs)
      | Inr (chainDb, fs1) \<Rightarrow>
          (case SetupGenesisBlock fe chainDb genesis fs1 of
             (Some err, fs2) \<Rightarrow> (Inl (Fatalf (''failed to write genesis block: '' @ err)), fs2)
           | (None, fs2) \<Rightarrow>
               (let keystoreDir = pathJoin [ethermintDataDir, ''keystore''] in
                case fe_MkdirAll fe keystoreDir fs2 of
                  (Some err, fs3) \<Rightarrow> (Inl (Fatalf (''mkdirAll keyStoreDir: '' @ err)), fs3)
                | (None, fs3) \<Rightarrow> writeKeystore fe keystoreDir (ksOrd keystoreFilesMap) fs3)))"

definition initCmd ::
  "osenv \<Rightarrow> ('f, 'g, 'd, 'o, 'k, 'b) filesenv \<Rightarrow> ((string \<times> string) list \<Rightarrow> (string \<times> string) list) \<Rightarrow> string \<Rightarrow>
     cliContext \<Rightarrow> 'f \<Rightarrow> (cmdError + unit) \<times> 'f" where
  "initCmd os fe ksOrd rnd ctx fs =
     (case ParseGenesisOrDefault fe fs (First (Args ctx)) of
        Inl err \<Rightarrow> (Inl (Fatalf (''genesisJSON err: '' @ err)), fs)
      | Inr genesis \<Rightarrow>
          (case MakeDataDir os ctx of
             Inl err \<Rightarrow> (Inl err, fs)
           | Inr ethermintDataDir \<Rightarrow>
               (case (if canInvokeTendermint ctx then initTendermint fe rnd ethermintDataDir fs else (Inr (), fs)) of
                  (Inl err, fs1) \<Rightarrow> (Inl err, fs1)
                | (Inr u, fs1) \<Rightarrow> initChain fe ksOrd genesis ethermintDataDir fs1)))"

section \<open>Properties\<close>

text \<open>A result is the genesis parsed from the file named, if that has two bytes at least, or from the
  default; a blank one is refused.\<close>

lemma ParseGenesisOrDefault_default:
  assumes "genesisPath = [] \<or> fe_ReadFile fe genesisPath fs = Inl NotExist \<or>
    (\<exists>blob. fe_ReadFile fe genesisPath fs = Inr blob \<and> length blob < 2)"
  shows "ParseGenesisOrDefault fe fs genesisPath =
    (case UnmarshalGenesis fe defaultGenesisBlob of
       Inl err \<Rightarrow> Inl err
     | Inr g \<Rightarrow> if g = blankGenesis fe then Inl errBlankGenesis else Inr g)"
  using assms by (auto simp: ParseGenesisOrDefault_def genesisText_def)

lemma ParseGenesisOrDefault_not_blank:
  "ParseGenesisOrDefault fe fs genesisPath = Inr g \<Longrightarrow> g \<noteq> blankGenesis fe"
  by (auto simp: ParseGenesisOrDefault_def split: sum.splits if_splits)

text \<open>A file system on which nothing goes wrong, in the words of the documentation: directories,
  databases, genesis blocks and documents are made, a file that was created, written and closed holds
  what was written, the old key file can be loaded exactly if it is there, and preparing the Tendermint
  home directory does not make one.\<close>

definition oldKeyPath :: "string \<Rightarrow> string" where
  "oldKeyPath dir = pathJoin [pathJoin [pathJoin [dir, ''tendermint''], ''config''], ''priv_validator.json'']"

definition healthyFiles :: "('f, 'g, 'd, 'o, 'k, 'b) filesenv \<Rightarrow> bool" where
  "healthyFiles fe \<longleftrightarrow>
     (\<forall>p fs. fst (fe_MkdirAll fe p fs) = None) \<and>
     (\<forall>p fs. OpenChainDb fe p fs \<in> range Inr) \<and>
     (\<forall>d g fs. fst (SetupGenesisBlock fe d g fs) = None) \<and>
     (\<forall>doc p fs. fst (GenDoc_SaveAs fe doc p fs) = None) \<and>
     (\<forall>p fs. fe_Create fe p fs \<in> range Inr) \<and>
     (\<forall>p fs. fst (fe_Close fe p fs) = None) \<and>
     (\<forall>p c fs fs'. fe_Create fe p fs = Inr fs' \<longrightarrow>
        fe_ReadFile fe p (snd (fe_Close fe p (snd (fe_Write fe p c fs')))) = Inr c) \<and>
     (\<forall>p fs. LoadOldFilePV fe p fs \<in> range Inr \<longleftrightarrow> fe_FileExists fe p fs) \<and>
     (\<forall>h d fs. fe_FileExists fe (oldKeyPath d) (EnsureRoot fe h fs) = fe_FileExists fe (oldKeyPath d) fs)"

lemma healthyFilesD:
  assumes "healthyFiles fe"
  shows "fst (fe_MkdirAll fe p fs) = None" and "\<exists>r. OpenChainDb fe p fs = Inr r"
    and "fst (SetupGenesisBlock fe d g fs) = None" and "fst (GenDoc_SaveAs fe doc p fs) = None"
    and "\<exists>r. fe_Create fe p fs = Inr r" and "fst (fe_Close fe p fs) = None"
    and "fe_Create fe p fs = Inr fs' \<Longrightarrow>
        fe_ReadFile fe p (snd (fe_Close fe p (snd (fe_Write fe p c fs')))) = Inr c"
    and "(\<exists>r. LoadOldFilePV fe p fs = Inr r) \<longleftrightarrow> fe_FileExists fe p fs"
    and "fe_FileExists fe (oldKeyPath h) (EnsureRoot fe h' fs) = fe_FileExists fe (oldKeyPath h) fs"
  using assms unfolding healthyFiles_def by (auto simp: image_iff)

lemma initTendermint_succeeds_iff:
  assumes "healthyFiles fe"
  shows "(\<exists>fs'. initTendermint fe rnd dir fs = (Inr (), fs')) \<longleftrightarrow> fe_FileExists fe (oldKeyPath dir) fs"
proof -
  let ?fs1 = "EnsureRoot fe (pathJoin [dir, ''tendermint'']) fs"
  have ex: "fe_FileExists fe (oldKeyPath dir) fs \<longleftrightarrow> (\<exists>r. LoadOldFilePV fe (oldKeyPath dir) ?fs1 = Inr r)"
    using healthyFilesD(8,9) [OF assms] by simp
  show ?thesis
  proof (cases "LoadOldFilePV fe (oldKeyPath dir) ?fs1")
    case (Inl err)
    then show ?thesis unfolding ex by (simp add: initTendermint_def oldKeyPath_def Let_def)
  next
    case (Inr o')
    have save: "\<exists>fs'. GenDoc_SaveAs fe doc p fs3 = (None, fs')" for doc p fs3
      using healthyFilesD(4) [OF assms] by (metis prod.collapse)
    from Inr show ?thesis
      unfolding ex using save
      by (auto simp: initTendermint_def oldKeyPath_def Let_def split: prod.splits) (metis Pair_inject option.simps(4))
  qed
qed

lemma initChain_succeeds:
  assumes "healthyFiles fe" and "\<forall>m. mset (ksOrd m) = mset m" and "keystoreFilesMap = [(name, content)]"
  obtains fs' where "initChain fe ksOrd genesis dir fs = (Inr (), fs')"
    and "fe_ReadFile fe (pathJoin [pathJoin [dir, ''keystore''], name]) fs' = Inr content"
proof -
  note h = healthyFilesD [OF assms(1)]
  let ?dir = "pathJoin [dir, ''keystore'']" and ?file = "pathJoin [pathJoin [dir, ''keystore''], name]"
  obtain db fs1 where 1: "OpenChainDb fe (pathJoin [dir, ''gelchain/chaindata'']) fs = Inr (db, fs1)"
    using h(2) by (metis surj_pair)
  obtain fs2 where 2: "SetupGenesisBlock fe db genesis fs1 = (None, fs2)"
    using h(3) by (metis prod.collapse)
  obtain fs3 where 3: "fe_MkdirAll fe ?dir fs2 = (None, fs3)"
    using h(1) by (metis prod.collapse)
  obtain fs4 where 4: "fe_Create fe ?file fs3 = Inr fs4"
    using h(5) by blast
  obtain fs5 where 5: "fe_Close fe ?file (snd (fe_Write fe ?file content fs4)) = (None, fs5)"
    using h(6) by (metis prod.collapse)
  have ks: "ksOrd keystoreFilesMap = [(name, content)]"
    using assms(2) unfolding assms(3) by (metis mset_single_iff_right)
  have run: "initChain fe ksOrd genesis dir fs = (Inr (), fs5)"
    by (simp add: initChain_def ks 1 2 3 4 5)
  moreover have "fe_ReadFile fe ?file fs5 = Inr content"
    using h(7) [OF 4, of content] by (simp add: 5)
  ultimately show ?thesis by (rule that)
qed

text \<open>C40. Initialising with Tendermint needs an old key file. On a file system where nothing fails and
  with a valid genesis, \<open>init\<close> succeeds exactly if it is run without Tendermint or the validator key
  file of the old format is already there; unlike the start of the node and \<open>testnet\<close>, it does not
  check whether that file exists, so it always fails in a fresh directory. When it succeeds the
  keystore holds the built-in key file.\<close>

theorem initCmd_succeeds_iff:
  assumes "healthyFiles fe" and "\<forall>m. mset (ksOrd m) = mset m"
    and "ParseGenesisOrDefault fe fs (First (Args ctx)) = Inr genesis" and "MakeDataDir os ctx = Inr dir"
    and "keystoreFilesMap = [(name, content)]"
  shows "((\<exists>fs'. initCmd os fe ksOrd rnd ctx fs = (Inr (), fs')) \<longleftrightarrow>
      \<not> canInvokeTendermint ctx \<or> fe_FileExists fe (oldKeyPath dir) fs) \<and>
    (\<forall>fs'. initCmd os fe ksOrd rnd ctx fs = (Inr (), fs') \<longrightarrow>
      fe_ReadFile fe (pathJoin [pathJoin [dir, ''keystore''], name]) fs' = Inr content)"
proof -
  have chain: "\<exists>fs'. initChain fe ksOrd genesis dir fs0 = (Inr (), fs') \<and>
      fe_ReadFile fe (pathJoin [pathJoin [dir, ''keystore''], name]) fs' = Inr content" for fs0
    by (rule initChain_succeeds [OF assms(1,2,5), of genesis dir fs0]) blast
  have init: "initCmd os fe ksOrd rnd ctx fs =
      (case (if canInvokeTendermint ctx then initTendermint fe rnd dir fs else (Inr (), fs)) of
         (Inl err, fs1) \<Rightarrow> (Inl err, fs1) | (Inr u, fs1) \<Rightarrow> initChain fe ksOrd genesis dir fs1)"
    by (simp add: initCmd_def assms(3,4))
  show ?thesis
  proof (cases "canInvokeTendermint ctx")
    case False
    with chain [of fs] show ?thesis by (auto simp: init)
  next
    case True
    obtain r fs1 where t: "initTendermint fe rnd dir fs = (r, fs1)" by (rule prod.exhaust)
    show ?thesis
      using True t chain [of fs1] initTendermint_succeeds_iff [OF assms(1), of rnd dir fs]
      by (cases r) (auto simp: init)
  qed
qed

text \<open>Files as a map from paths to contents.\<close>

definition plainFiles :: "(string \<rightharpoonup> string, string, unit, string, nat, nat) filesenv" where
  "plainFiles =
     \<lparr>fe_ReadFile = (\<lambda>p fs. case fs p of None \<Rightarrow> Inl NotExist | Some c \<Rightarrow> Inr c),
      fe_MkdirAll = (\<lambda>p fs. (None, fs)), fe_RemoveAll = (\<lambda>p fs. (None, fs(p := None))),
      fe_Create = (\<lambda>p fs. Inr (fs(p \<mapsto> []))), fe_Write = (\<lambda>p c fs. (None, fs(p \<mapsto> the (fs p) @ c))),
      fe_Close = (\<lambda>p fs. (None, fs)), fe_FileExists = (\<lambda>p fs. fs p \<noteq> None),
      UnmarshalGenesis = (\<lambda>s. Inr s), blankGenesis = [],
      OpenChainDb = (\<lambda>p fs. Inr ((), fs)), SetupGenesisBlock = (\<lambda>d g fs. (None, fs(''genesis block'' \<mapsto> g))),
      EnsureRoot = (\<lambda>h fs. fs),
      LoadOldFilePV = (\<lambda>p fs. case fs p of None \<Rightarrow> Inl ''no such file'' | Some c \<Rightarrow> Inr c),
      oldPV_Upgrade = (\<lambda>c k s fs. fs(k \<mapsto> c)), LoadOrGenFilePV = (\<lambda>k s fs. (0, fs(k \<mapsto> ''key''))),
      GenDoc_SaveAs = (\<lambda>doc p fs. (None, fs(p \<mapsto> gd_ChainID doc)))\<rparr>"

lemma plainFiles_healthy: "healthyFiles plainFiles"
  by (auto simp: healthyFiles_def plainFiles_def split: option.splits)

definition initContext :: cliContext where
  "initContext =
     \<lparr>GlobalString = (\<lambda>n. if n = ''datadir'' then ''/data'' else []), GlobalInt = (\<lambda>n. 0), GlobalInt64 = (\<lambda>n. 0),
      GlobalBool = (\<lambda>n. n = ''with-tendermint''), GlobalIsSet = (\<lambda>n. n = ''datadir''), Args = [''g.json'']\<rparr>"

definition sampleOs :: osenv where
  "sampleOs =
     \<lparr>Getenv = (\<lambda>n. []), CurrentUserHome = None, GOOS = ''linux'', nodeDefaultDataDir = [],
      ethName = (\<lambda>g. if g = ''DataDirFlag'' then ''datadir'' else g)\<rparr>"

theorem initCmd_succeeds_iff_witness:
  "(\<exists>fs'. initCmd sampleOs plainFiles id ''abc'' initContext [''g.json'' \<mapsto> ''{}''] = (Inr (), fs')) \<longleftrightarrow> False"
proof -
  obtain name content where ks: "keystoreFilesMap = [(name, content)]"
    unfolding keystoreFilesMap_def by blast
  have parse: "ParseGenesisOrDefault plainFiles [''g.json'' \<mapsto> ''{}''] (First (Args initContext)) = Inr ''{}''"
    by (simp add: ParseGenesisOrDefault_def genesisText_def plainFiles_def initContext_def First_def)
  have dir: "MakeDataDir sampleOs initContext = Inr ''/data''"
    by (simp add: MakeDataDir_def sampleOs_def initContext_def)
  have tm: "canInvokeTendermint initContext"
    by (simp add: canInvokeTendermint_def initContext_def WithTendermintFlag_def)
  have old: "\<not> fe_FileExists plainFiles (oldKeyPath ''/data'') [''g.json'' \<mapsto> ''{}'']"
    by (simp add: plainFiles_def oldKeyPath_def pathJoin_entry plainName_def)
  show ?thesis
    using initCmd_succeeds_iff [OF plainFiles_healthy _ parse dir ks, of id "''abc''"] tm old by simp
qed

end
