(* ===== verification/EthAccountTool.thy ===== *)
theory EthAccountTool
  imports Startup InitCmd "HOL-Library.Char_ord" "HOL-Library.List_Lexorder"
begin

text \<open>
  The tool \<open>src/cmd/ethAccount/writeInitialEthAccount.go\<close>, which makes the file of the initial
  Ethereum accounts from a go-ethereum genesis file, and what the start of the node finds in it. The
  order in which Go visits the allocation map is the argument \<open>ord\<close>; \<open>hexOf\<close> is \<open>Address.String\<close> of
  go-ethereum, the checksummed hexadecimal form.
\<close>

section \<open>The tool\<close>

definition maxSigners :: nat where
  "maxSigners = 1001"

text \<open>The loop of \<open>readEthGenesis\<close> over the allocation, which stores every address in an array.\<close>

fun signerLoop :: "address list \<Rightarrow> nat \<Rightarrow> address list \<Rightarrow> panic + address list \<times> nat" where
  "signerLoop [] loopIndex ethSignerAccount = Inr (ethSignerAccount, loopIndex)"
| "signerLoop (key # keys) loopIndex ethSignerAccount =
     (if loopIndex < length ethSignerAccount
      then signerLoop keys (loopIndex + 1) (ethSignerAccount[loopIndex := key])
      else Inl IndexOutOfRange)"

definition readEthGenesis ::
  "(string \<Rightarrow> string + 'h) \<Rightarrow> ('h \<Rightarrow> string + (address \<rightharpoonup> int)) \<Rightarrow> ((address \<rightharpoonup> int) \<Rightarrow> address list) \<Rightarrow> string \<Rightarrow>
     cmdError + (address \<rightharpoonup> int)" where
  "readEthGenesis openFile decode ord ethGenesisPath =
     (case openFile ethGenesisPath of
        Inl err \<Rightarrow> Inl (Fatalf (''Failed to read genesis file: '' @ err))
      | Inr file \<Rightarrow>
          (case decode file of
             Inl err \<Rightarrow> Inl (Fatalf (''invalid genesis file: '' @ err))
           | Inr alloc \<Rightarrow>
               (case signerLoop (ord alloc) 0 (replicate maxSigners 0) of
                  Inl p \<Rightarrow> Inl (CmdPanic p)
                | Inr r \<Rightarrow> Inr alloc)))"

text \<open>The balances are pointers: an address without an entry would give a nil one.
  The name of the beneficiary: the lower-case key with its last two digits replaced.\<close>

definition beneficiaryString :: "string \<Rightarrow> panic + string" where
  "beneficiaryString keyString =
     (let keyCopy = ToLower keyString in
      if length keyString < 2 then Inl IndexOutOfRange
      else Inr (take (length keyString - 2) keyCopy @ ''01''))"

fun collectAccounts ::
  "(string \<Rightarrow> address) \<Rightarrow> (address \<rightharpoonup> int) \<Rightarrow> string list \<Rightarrow> EthAccounts \<Rightarrow> panic + EthAccounts" where
  "collectAccounts hexTo alloc [] ea = Inr ea"
| "collectAccounts hexTo alloc (keyString # keys) ea =
     panic_bind (beneficiaryString keyString) (\<lambda>ben.
       collectAccounts hexTo alloc keys
         \<lparr>ea_EthAccounts = ea_EthAccounts ea @ [keyString], EthBalances = EthBalances ea @ [alloc (hexTo keyString)],
          EthBeneficiarys = EthBeneficiarys ea @ [ben]\<rparr>)"

definition initParam :: "string list \<Rightarrow> panic + string" where
  "initParam osArgs = index osArgs 1"

definition ethAccount_main ::
  "(string \<Rightarrow> string + 'h) \<Rightarrow> ('h \<Rightarrow> string + (address \<rightharpoonup> int)) \<Rightarrow> ((address \<rightharpoonup> int) \<Rightarrow> address list) \<Rightarrow>
     (address \<Rightarrow> string) \<Rightarrow> (string \<Rightarrow> address) \<Rightarrow> ('f, EthAccounts) jsonFile \<Rightarrow> string list \<Rightarrow> 'f \<Rightarrow> cmdError + 'f" where
  "ethAccount_main openFile decode ord hexOf hexTo J osArgs fs =
     (case initParam osArgs of
        Inl p \<Rightarrow> Inl (CmdPanic p)
      | Inr path \<Rightarrow>
          cmd_bind (readEthGenesis openFile decode ord path) (\<lambda>alloc.
            let addresses = sort (map hexOf (ord alloc)) in
            case collectAccounts hexTo alloc addresses \<lparr>ea_EthAccounts = [], EthBalances = [], EthBeneficiarys = []\<rparr> of
              Inl p \<Rightarrow> Inl (CmdPanic p)
            | Inr ethAccounts \<Rightarrow>
                (case Marshal J ethAccounts of
                   None \<Rightarrow> Inl (CmdPanic (PanicMsg ''get initial account failed''))
                 | Some blob \<Rightarrow>
                     (case WriteFile J fs ''initial_eth_account.json'' blob ModeAppend of
                        None \<Rightarrow> Inr fs
                      | Some fs' \<Rightarrow> Inr fs'))))"

section \<open>Properties\<close>

lemma signerLoop_ok_iff:
  "(\<exists>r. signerLoop keys n arr = Inr r) \<longleftrightarrow> keys = [] \<or> n + length keys \<le> length arr"
  by (induction keys arbitrary: n arr) auto

lemma signerLoop_panic: "signerLoop keys n arr = Inl p \<Longrightarrow> p = IndexOutOfRange"
  by (induction keys arbitrary: n arr) (auto split: if_splits)

lemma readEthGenesis_cases:
  assumes "openFile path = Inr h" and "decode h = Inr alloc" and "range_order ord" and "finite (dom alloc)"
  shows "readEthGenesis openFile decode ord path =
    (if card (dom alloc) \<le> maxSigners then Inr alloc else Inl (CmdPanic IndexOutOfRange))"
proof -
  have len: "length (ord alloc) = card (dom alloc)"
    using range_orderD [OF assms(3,4)] by (rule enumerates_length)
  show ?thesis
  proof (cases "signerLoop (ord alloc) 0 (replicate maxSigners 0)")
    case (Inl p)
    with signerLoop_ok_iff [of "ord alloc" 0 "replicate maxSigners 0"] len signerLoop_panic [OF Inl] show ?thesis
      by (auto simp: readEthGenesis_def assms(1,2))
  next
    case (Inr r)
    with signerLoop_ok_iff [of "ord alloc" 0 "replicate maxSigners 0"] len show ?thesis
      by (auto simp: readEthGenesis_def assms(1,2))
  qed
qed

text \<open>The documented behaviour of go-ethereum's hexadecimal form of an address.\<close>

definition hex_laws :: "(address \<Rightarrow> string) \<Rightarrow> (string \<Rightarrow> address) \<Rightarrow> bool" where
  "hex_laws hexOf hexTo \<longleftrightarrow> (\<forall>a. hexTo (hexOf a) = a \<and> length (hexOf a) = 42)"

definition beneficiary :: "string \<Rightarrow> string" where
  "beneficiary k = take (length k - 2) (ToLower k) @ ''01''"

lemma collectAccounts_eq:
  assumes "\<forall>k \<in> set keys. 2 \<le> length k"
  shows "collectAccounts hexTo alloc keys ea = Inr
    \<lparr>ea_EthAccounts = ea_EthAccounts ea @ keys, EthBalances = EthBalances ea @ map (\<lambda>k. alloc (hexTo k)) keys,
     EthBeneficiarys = EthBeneficiarys ea @ map beneficiary keys\<rparr>"
  using assms by (induction keys arbitrary: ea) (auto simp: beneficiaryString_def beneficiary_def Let_def)

text \<open>The accounts of an allocation, as the tool lists them.\<close>

definition accountsOf :: "(address \<Rightarrow> string) \<Rightarrow> (address \<rightharpoonup> int) \<Rightarrow> EthAccounts" where
  "accountsOf hexOf alloc =
     (let as = sort_key hexOf (sorted_list_of_set (dom alloc)) in
      \<lparr>ea_EthAccounts = map hexOf as, EthBalances = map alloc as,
       EthBeneficiarys = map (\<lambda>a. beneficiary (hexOf a)) as\<rparr>)"

lemma hex_laws_inj: "hex_laws hexOf hexTo \<Longrightarrow> inj hexOf"
  by (metis hex_laws_def injI)

lemma ord_sorted:
  assumes "hex_laws hexOf hexTo" and "range_order ord" and "finite (dom alloc)"
  shows "sort (map hexOf (ord alloc)) = map hexOf (sort_key hexOf (sorted_list_of_set (dom alloc)))"
proof -
  have "enumerates (ord alloc) alloc" by (rule range_orderD [OF assms(2,3)])
  then have "mset (ord alloc) = mset (sorted_list_of_set (dom alloc))"
    using assms(3) by (simp add: enumerates_def set_eq_iff_mset_eq_distinct [symmetric])
  then have "mset (map hexOf (ord alloc)) = mset (map hexOf (sort_key hexOf (sorted_list_of_set (dom alloc))))"
    by simp
  moreover have "sorted (map hexOf (sort_key hexOf (sorted_list_of_set (dom alloc))))" by simp
  ultimately show ?thesis by (metis properties_for_sort)
qed

lemma collect_accountsOf:
  assumes "hex_laws hexOf hexTo" and "range_order ord" and "finite (dom alloc)"
  shows "collectAccounts hexTo alloc (sort (map hexOf (ord alloc)))
      \<lparr>ea_EthAccounts = [], EthBalances = [], EthBeneficiarys = []\<rparr> = Inr (accountsOf hexOf alloc)"
proof -
  let ?as = "sort_key hexOf (sorted_list_of_set (dom alloc))"
  have h: "hexTo (hexOf a) = a" "length (hexOf a) = 42" for a using assms(1) by (auto simp: hex_laws_def)
  have "\<forall>k \<in> set (map hexOf ?as). 2 \<le> length k"
    by (auto simp: h)
  then show ?thesis
    unfolding ord_sorted [OF assms]
    by (subst collectAccounts_eq) (auto simp: accountsOf_def Let_def h comp_def)
qed

lemma accountsOf_total:
  assumes "finite (dom alloc)"
  shows "sum_list (map the (EthBalances (accountsOf hexOf alloc))) = (\<Sum>a \<in> dom alloc. the (alloc a))"
proof -
  let ?as = "sort_key hexOf (sorted_list_of_set (dom alloc))"
  have "distinct ?as" and "set ?as = dom alloc" using assms by simp_all
  then show ?thesis by (simp add: accountsOf_def Let_def comp_def sum_list_distinct_conv_sum_set)
qed

text \<open>C38. The initial accounts file fits the start of the node, for a user who can read it. From a
  readable genesis file with at most 1001 accounts the tool writes a file that decodes to the accounts of the
  allocation in the order of their hexadecimal names, whatever the map order: one balance and one beneficiary
  each, the balances adding up to the total balance the node computes, so that the genesis files are well formed
  for the start. With more accounts it panics, filling an array of that size that nothing reads. The file is
  created with mode \<open>os.ModeAppend\<close>, without permission bits: the node reads it back if it runs as
  a privileged user or if the file was there before and readable; for an ordinary user in a fresh directory it
  cannot be read, and the first start panics. Assumed: the documented laws of the codec and of the file system
  with its permissions (\<open>jsonFile_laws\<close>), and of the hexadecimal form
  (\<open>hex_laws\<close>).\<close>

theorem ethAccount_main_feeds_start:
  assumes "hex_laws hexOf (HexToAddress e)" and "range_order ord" and "finite (dom alloc)" and "jsonFile_laws J root"
    and "openFile path = Inr h" and "decode h = Inr alloc"
    and "Marshal J (accountsOf hexOf alloc) = Some blob"
    and "WriteFile J fs ''initial_eth_account.json'' blob ModeAppend = Some fs'"
    and "distinct (map gv_TmAddress vs)"
    and "got = GetInitialEthAccountFromFile J fs' ''initial_eth_account.json''"
  shows "ethAccount_main openFile decode ord hexOf (HexToAddress e) J [tool, path] fs =
      (if card (dom alloc) \<le> maxSigners then Inr fs' else Inl (CmdPanic IndexOutOfRange)) \<and>
    (\<exists>ea. FromJSON J blob = Some ea \<and>
       sorted (ea_EthAccounts ea) \<and> HexToAddress e ` set (ea_EthAccounts ea) = dom alloc \<and>
       length (ea_EthAccounts ea) = card (dom alloc) \<and>
       EthBalances ea = map (\<lambda>k. alloc (HexToAddress e k)) (ea_EthAccounts ea) \<and>
       None \<notin> set (EthBalances ea) \<and> sum_list (map the (EthBalances ea)) = sumAlloc alloc (ord alloc) 0 \<and>
       genesis_ok \<lparr>gf_Alloc = Some alloc, gf_EthAccounts = Some ea, gf_GenDoc = Some vs\<rparr> alloc ea vs \<and>
       got = (if root \<or> ReadFile J fs ''initial_eth_account.json'' \<noteq> None then Some ea else None)) \<and>
    (got = None \<longrightarrow>
       initGenesis e ord \<lparr>gf_Alloc = Some alloc, gf_EthAccounts = got, gf_GenDoc = Some vs\<rparr> st =
         Inl (StartPanic (PanicMsg ''Sorry but you dont have initial account file'')))"
proof -
  let ?ea = "accountsOf hexOf alloc" and ?f = "''initial_eth_account.json''" and ?as = "sort_key hexOf (sorted_list_of_set (dom alloc))"
  have h: "HexToAddress e (hexOf a) = a" for a using assms(1) by (simp add: hex_laws_def)
  have "ethAccount_main openFile decode ord hexOf (HexToAddress e) J [tool, path] fs =
      (if card (dom alloc) \<le> maxSigners then Inr fs' else Inl (CmdPanic IndexOutOfRange))"
    by (simp add: ethAccount_main_def initParam_def index_def readEthGenesis_cases [where openFile = openFile and decode = decode, OF assms(5,6,2,3)]
        collect_accountsOf [OF assms(1,2,3)] assms(7,8))
  moreover have dec: "FromJSON J blob = Some ?ea"
    using assms(4,7) by (auto simp: FromJSON_def jsonFile_laws_def)
  moreover have "ReadFile J fs' ?f = (if root \<or> (if FileExists J fs ?f then ReadFile J fs ?f \<noteq> None else bit ModeAppend 8)
      then Some blob else None)" and "ReadFile J fs ?f \<noteq> None \<longrightarrow> FileExists J fs ?f"
    using assms(4,8) unfolding jsonFile_laws_def by blast+
  then have "ReadFile J fs' ?f = (if root \<or> ReadFile J fs ?f \<noteq> None then Some blob else None)" by auto
  then have "got = (if root \<or> ReadFile J fs ''initial_eth_account.json'' \<noteq> None then Some ?ea else None)"
    using dec by (simp add: assms(10) GetInitialEthAccountFromFile_def)
  moreover have "got = None \<longrightarrow>
       initGenesis e ord \<lparr>gf_Alloc = Some alloc, gf_EthAccounts = got, gf_GenDoc = Some vs\<rparr> st =
         Inl (StartPanic (PanicMsg ''Sorry but you dont have initial account file''))"
    by (simp add: initGenesis_def)
  moreover have "sorted (ea_EthAccounts ?ea)" by (simp add: accountsOf_def Let_def)
  moreover have "HexToAddress e ` set (ea_EthAccounts ?ea) = dom alloc"
    using assms(3) by (simp add: accountsOf_def Let_def image_image h)
  moreover have len: "length (ea_EthAccounts ?ea) = card (dom alloc)" by (simp add: accountsOf_def Let_def)
  moreover have "EthBalances ?ea = map (\<lambda>k. alloc (HexToAddress e k)) (ea_EthAccounts ?ea)"
    using assms(3) by (auto simp: accountsOf_def Let_def h)
  moreover have "None \<notin> set (EthBalances ?ea)"
    using assms(3) by (auto simp: accountsOf_def Let_def domIff)
  moreover have "sum_list (map the (EthBalances ?ea)) = sumAlloc alloc (ord alloc) 0"
    by (simp add: accountsOf_total assms(3) sumAlloc_total [OF assms(2,3)])
  moreover have "genesis_ok \<lparr>gf_Alloc = Some alloc, gf_EthAccounts = Some ?ea, gf_GenDoc = Some vs\<rparr> alloc ?ea vs"
    using assms(3,9) by (simp add: genesis_ok_def accountsOf_def Let_def)
  ultimately show ?thesis by blast
qed

text \<open>Lower-case hexadecimal digits with their prefix meet the laws.\<close>

fun hexDigits :: "nat \<Rightarrow> nat \<Rightarrow> string" where
  "hexDigits 0 n = []"
| "hexDigits (Suc k) n = hexDigits k (n div 16) @ [hextable ! (n mod 16)]"

definition hexValue :: "string \<Rightarrow> nat" where
  "hexValue s = foldl (\<lambda>n c. 16 * n + the (hex_val c)) 0 s"

definition plainHex :: "address \<Rightarrow> string" where
  "plainHex a = ''0x'' @ hexDigits 40 (unat a)"

definition hexEnv :: "unit env" where
  "hexEnv = sampleEnv\<lparr>HexToAddress := \<lambda>s. word_of_nat (hexValue (drop 2 s))\<rparr>"

lemma hex_val_hextable: "d < 16 \<Longrightarrow> hex_val (hextable ! d) = Some d"
proof -
  have "\<forall>d \<in> set [0..<16]. hex_val (hextable ! d) = Some d"
    by (simp add: upt_rec hextable_def hex_val_def digit_val_def)
  then show "d < 16 \<Longrightarrow> hex_val (hextable ! d) = Some d" by simp
qed

lemma hexDigits_value: "n < 16 ^ k \<Longrightarrow> hexValue (hexDigits k n) = n"
proof (induction k arbitrary: n)
  case 0
  then show ?case by (simp add: hexValue_def)
next
  case (Suc k)
  then have "n div 16 < 16 ^ k" by (simp add: less_mult_imp_div_less mult.commute)
  from Suc.IH [OF this] show ?case by (simp add: hexValue_def hex_val_hextable)
qed

lemma length_hexDigits [simp]: "length (hexDigits k n) = k"
  by (induction k arbitrary: n) auto

lemma plainHex_laws: "hex_laws plainHex (HexToAddress hexEnv)"
proof -
  have "unat (a :: address) < 16 ^ 40" for a
    using unsigned_less [of a, where 'a = nat] by simp
  then show ?thesis
    by (simp add: hex_laws_def plainHex_def hexEnv_def hexDigits_value)
qed

definition toolAlloc :: "address \<rightharpoonup> int" where
  "toolAlloc = [7 \<mapsto> 100, 3 \<mapsto> 20]"

text \<open>The tool in a fresh directory, then the read of the node: as a privileged user and as another.\<close>

definition toolFiles :: "string \<rightharpoonup> bytes \<times> FileMode" where
  "toolFiles = [''initial_eth_account.json'' \<mapsto> ([1], ModeAppend)]"

theorem ethAccount_main_feeds_start_witness:
  "\<forall>root. let J = one_value_file root (accountsOf plainHex toolAlloc) in
   ethAccount_main (\<lambda>p. Inr ()) (\<lambda>h. Inr toolAlloc) sortedKeys plainHex (HexToAddress hexEnv) J [''tool'', ''genesis.json'']
     Map.empty = Inr toolFiles \<and>
   (if root then \<exists>ea. GetInitialEthAccountFromFile J toolFiles ''initial_eth_account.json'' = Some ea \<and>
        sum_list (map the (EthBalances ea)) = 120
    else GetInitialEthAccountFromFile J toolFiles ''initial_eth_account.json'' = None)"
proof
  fix root
  let ?J = "one_value_file root (accountsOf plainHex toolAlloc)"
  have dom: "dom toolAlloc = {3, 7}" by (auto simp: toolAlloc_def)
  then have fin: "finite (dom toolAlloc)" by simp
  have m: "Marshal ?J (accountsOf plainHex toolAlloc) = Some [1]"
    and w: "WriteFile ?J Map.empty ''initial_eth_account.json'' [1] ModeAppend = Some toolFiles"
    and r: "ReadFile ?J Map.empty ''initial_eth_account.json'' = None"
    by (simp_all add: one_value_file_def toolFiles_def)
  have sum: "sumAlloc toolAlloc (sortedKeys toolAlloc) 0 = 120"
    using sumAlloc_total [OF range_order_sortedKeys fin] by (simp add: dom) (simp add: toolAlloc_def)
  have few: "card (dom toolAlloc) \<le> maxSigners" by (simp add: dom maxSigners_def)
  have d: "distinct (map gv_TmAddress ([] :: genesisValidator list))" by simp
  note run = ethAccount_main_feeds_start [where st = NewStrategy, OF plainHex_laws range_order_sortedKeys fin one_value_file_laws, OF _ _ m w d refl,
      of "\<lambda>p. Inr ()" "''genesis.json''" "()" "\<lambda>h. Inr toolAlloc" "''tool''", OF refl refl]
  show "let J = ?J in
   ethAccount_main (\<lambda>p. Inr ()) (\<lambda>h. Inr toolAlloc) sortedKeys plainHex (HexToAddress hexEnv) J [''tool'', ''genesis.json'']
     Map.empty = Inr toolFiles \<and>
   (if root then \<exists>ea. GetInitialEthAccountFromFile J toolFiles ''initial_eth_account.json'' = Some ea \<and>
        sum_list (map the (EthBalances ea)) = 120
    else GetInitialEthAccountFromFile J toolFiles ''initial_eth_account.json'' = None)"
    unfolding Let_def using run sum few r by (cases root) auto
qed

end
