(* ===== verification/Testnet.thy ===== *)
theory Testnet
  imports InitCmd
begin

text \<open>
  The command \<open>testnet\<close> of \<open>src/cmd/dtfn/testnet.go\<close>: a directory for every node, the keys of the
  validators, one genesis document for all, and the list of persistent peers. The package variables
  are the record \<open>testnetVars\<close>; the Tendermint configuration is an object of its own package, used
  through the functions of \<open>testnetenv\<close>; the files are those of \<open>filesenv\<close>.
\<close>

section \<open>Variables and surroundings\<close>

record testnetVars =
  nValidators :: int
  nNonValidators :: int
  outputDir :: string
  nodeDirPrefix :: string
  populatePersistentPeers :: bool
  hostnamePrefix :: string
  startingIPAddress :: string
  p2pPort :: int
  rollbackHeight :: int
  rollbackFlag :: bool

record ('f, 'c, 'k, 'b) testnetenv =
  te_DefaultConfig :: 'c
  te_SetRoot :: "string \<Rightarrow> 'c \<Rightarrow> 'c"
  InitFilesWithConfig :: "'c \<Rightarrow> 'f \<Rightarrow> 'f"
  OldPrivValidatorFile :: "'c \<Rightarrow> string"
  PrivValidatorKeyFile :: "'c \<Rightarrow> string"
  PrivValidatorStateFile :: "'c \<Rightarrow> string"
  NodeKeyFile :: "'c \<Rightarrow> string"
  te_BlsState :: "'c \<Rightarrow> string"
  te_Genesis :: "'c \<Rightarrow> string"
  LoadFileBS :: "string \<Rightarrow> 'f \<Rightarrow> 'b \<times> 'f"
  PubKeyAddress :: "'k \<Rightarrow> string"
  LoadNodeKey :: "string \<Rightarrow> 'f \<Rightarrow> string + string"
  IDAddressString :: "string \<Rightarrow> string \<Rightarrow> string"
  te_SetPersistentPeers :: "string \<Rightarrow> 'c \<Rightarrow> 'c"
  te_SetAddrBookStrict :: "bool \<Rightarrow> 'c \<Rightarrow> 'c"
  WriteConfigFile :: "string \<Rightarrow> 'c \<Rightarrow> 'f \<Rightarrow> 'f"

definition testnetVarsOf :: "cliContext \<Rightarrow> testnetVars" where
  "testnetVarsOf ctx =
     (let nValiString = First (Args ctx) in
      \<lparr>nValidators =
         (case Atoi nValiString of
            Some nVali \<Rightarrow> if length nValiString \<noteq> 0 then nVali else GlobalInt ctx (ownName TestNetVals)
          | None \<Rightarrow> GlobalInt ctx (ownName TestNetVals)),
       nNonValidators = GlobalInt ctx (ownName TestNetNVals),
       outputDir = GlobalString ctx (ownName TestNetOutput),
       nodeDirPrefix = GlobalString ctx (ownName TestNetNodeDir),
       populatePersistentPeers = GlobalBool ctx (ownName TestNetpOpulatePersistentPeers),
       hostnamePrefix = GlobalString ctx (ownName TestNetHostnamePrefix),
       startingIPAddress = GlobalString ctx (ownName TestnetStartingIPAddress),
       p2pPort = GlobalInt ctx (ownName TestNetP2PPort),
       rollbackHeight = GlobalInt ctx (ownName RollbackHeight),
       rollbackFlag = GlobalBool ctx (ownName RollbackFlag)\<rparr>)"

definition nodeDirName :: "testnetVars \<Rightarrow> int \<Rightarrow> string" where
  "nodeDirName v i = nodeDirPrefix v @ show_int i"

definition nodeDirOf :: "testnetVars \<Rightarrow> int \<Rightarrow> string" where
  "nodeDirOf v i = pathJoin [outputDir v, nodeDirName v i]"

section \<open>Node directories\<close>

text \<open>\<open>os.RemoveAll(outputDir)\<close>, its error discarded, and the error is returned.\<close>

definition removeAndReturn ::
  "('f, 'g, 'd, 'o, 'k, 'b) filesenv \<Rightarrow> testnetVars \<Rightarrow> string \<Rightarrow> 'f \<Rightarrow> (cmdError + 'r) \<times> 'f" where
  "removeAndReturn fe v err fs = (Inl (ReturnedErr err), snd (fe_RemoveAll fe (outputDir v) fs))"

text \<open>Lines 84 to 99: the key of a validator, upgraded from the old file if there is one.\<close>

definition loadValidatorKey ::
  "('f, 'c, 'k, 'b) testnetenv \<Rightarrow> ('f, 'g, 'd, 'o, 'k, 'b) filesenv \<Rightarrow> 'c \<Rightarrow> 'f \<Rightarrow> (cmdError + 'k) \<times> 'f" where
  "loadValidatorKey te fe config fs =
     (let oldPrivVal = OldPrivValidatorFile te config;
          newPrivValKey = PrivValidatorKeyFile te config;
          newPrivValState = PrivValidatorStateFile te config in
      if fe_FileExists fe oldPrivVal fs then
        (case LoadOldFilePV fe oldPrivVal fs of
           Inl err \<Rightarrow>
             (Inl (ReturnedErr (''error reading OldPrivValidator from '' @ oldPrivVal @ '': '' @ err @ [CHR 0x0A])), fs)
         | Inr oldPV \<Rightarrow>
             (case LoadOrGenFilePV fe newPrivValKey newPrivValState
                     (oldPV_Upgrade fe oldPV newPrivValKey newPrivValState fs) of
                (pv, fs') \<Rightarrow> (Inr pv, fs')))
      else (case LoadOrGenFilePV fe newPrivValKey newPrivValState fs of (pv, fs') \<Rightarrow> (Inr pv, fs')))"

definition validatorDir ::
  "('f, 'c, 'k, 'b) testnetenv \<Rightarrow> ('f, 'g, 'd, 'o, 'k, 'b) filesenv \<Rightarrow> testnetVars \<Rightarrow> int \<Rightarrow> 'c \<Rightarrow> 'f \<Rightarrow>
     (cmdError + ('k, 'b) GenesisValidator \<times> 'c) \<times> 'f" where
  "validatorDir te fe v i config0 fs =
     (let nodeDir = nodeDirOf v i;
          config = te_SetRoot te nodeDir config0 in
      case fe_MkdirAll fe (pathJoin [nodeDir, ''config'']) fs of
        (Some err, fs1) \<Rightarrow> removeAndReturn fe v err fs1
      | (None, fs1) \<Rightarrow>
          (case fe_MkdirAll fe (pathJoin [nodeDir, ''data'']) fs1 of
             (Some err, fs2) \<Rightarrow> removeAndReturn fe v err fs2
           | (None, fs2) \<Rightarrow>
               (case loadValidatorKey te fe config (InitFilesWithConfig te config fs2) of
                  (Inl err, fs3) \<Rightarrow> (Inl err, fs3)
                | (Inr pv, fs3) \<Rightarrow>
                    (case LoadFileBS te (pathJoin [nodeDir, te_BlsState te config]) fs3 of
                       (blsState, fs4) \<Rightarrow>
                         (Inr (\<lparr>g_PubKey = pv,
                                g_BlsPubKey = Some \<lparr>bls_Type = ''Secp256k1'', bls_Address = PubKeyAddress te pv,
                                                    bls_Value = blsState\<rparr>,
                                g_Power = 1, g_Name = nodeDirName v i\<rparr>, config), fs4)))))"

fun validatorDirs ::
  "('f, 'c, 'k, 'b) testnetenv \<Rightarrow> ('f, 'g, 'd, 'o, 'k, 'b) filesenv \<Rightarrow> testnetVars \<Rightarrow> int list \<Rightarrow> 'c \<Rightarrow> 'f \<Rightarrow>
     (cmdError + ('k, 'b) GenesisValidator list \<times> 'c) \<times> 'f" where
  "validatorDirs te fe v [] config fs = (Inr ([], config), fs)"
| "validatorDirs te fe v (i # is) config fs =
     (case validatorDir te fe v i config fs of
        (Inl err, fs1) \<Rightarrow> (Inl err, fs1)
      | (Inr (val, config1), fs1) \<Rightarrow>
          (case validatorDirs te fe v is config1 fs1 of
             (Inl err, fs2) \<Rightarrow> (Inl err, fs2)
           | (Inr (vals, config2), fs2) \<Rightarrow> (Inr (val # vals, config2), fs2)))"

fun nonValidatorDirs ::
  "('f, 'c, 'k, 'b) testnetenv \<Rightarrow> ('f, 'g, 'd, 'o, 'k, 'b) filesenv \<Rightarrow> testnetVars \<Rightarrow> int list \<Rightarrow> 'c \<Rightarrow> 'f \<Rightarrow>
     (cmdError + 'c) \<times> 'f" where
  "nonValidatorDirs te fe v [] config fs = (Inr config, fs)"
| "nonValidatorDirs te fe v (i # is) config0 fs =
     (let nodeDir = nodeDirOf v (i64 (i + nValidators v));
          config = te_SetRoot te nodeDir config0 in
      case fe_MkdirAll fe (pathJoin [nodeDir, ''config'']) fs of
        (Some err, fs1) \<Rightarrow> removeAndReturn fe v err fs1
      | (None, fs1) \<Rightarrow> nonValidatorDirs te fe v is config (InitFilesWithConfig te config fs1))"

section \<open>Genesis files\<close>

fun saveGenesis ::
  "('f, 'c, 'k, 'b) testnetenv \<Rightarrow> ('f, 'g, 'd, 'o, 'k, 'b) filesenv \<Rightarrow> testnetVars \<Rightarrow> 'c \<Rightarrow> ('k, 'b) GenesisDoc \<Rightarrow>
     int list \<Rightarrow> 'f \<Rightarrow> (cmdError + unit) \<times> 'f" where
  "saveGenesis te fe v config genDoc [] fs = (Inr (), fs)"
| "saveGenesis te fe v config genDoc (i # is) fs =
     (case GenDoc_SaveAs fe genDoc (pathJoin [nodeDirOf v i, te_Genesis te config]) fs of
        (Some err, fs1) \<Rightarrow> removeAndReturn fe v err fs1
      | (None, fs1) \<Rightarrow> saveGenesis te fe v config genDoc is fs1)"

section \<open>Persistent peers\<close>

text \<open>The loop of \<open>ip[3]++\<close>: a byte that wraps around.\<close>

fun bump :: "nat \<Rightarrow> bytes \<Rightarrow> bytes" where
  "bump 0 ip = ip"
| "bump (Suc n) ip = bump n (ip[3 := ip ! 3 + 1])"

definition hostnameOrIP :: "testnetVars \<Rightarrow> int \<Rightarrow> cmdError + string" where
  "hostnameOrIP v i =
     (if startingIPAddress v \<noteq> [] then
        (case To4 (ParseIP (startingIPAddress v)) of
           None \<Rightarrow> Inl (Fatalf (startingIPAddress v @ '': non ipv4 address''))
         | Some ip \<Rightarrow> Inr (IP_String (bump (nat i) ip)))
      else Inr (hostnamePrefix v @ show_int i))"

fun peerList ::
  "('f, 'c, 'k, 'b) testnetenv \<Rightarrow> testnetVars \<Rightarrow> int list \<Rightarrow> 'c \<Rightarrow> 'f \<Rightarrow> cmdError + string list \<times> 'c" where
  "peerList te v [] config fs = Inr ([], config)"
| "peerList te v (i # is) config0 fs =
     (let config = te_SetRoot te (nodeDirOf v i) config0 in
      case LoadNodeKey te (NodeKeyFile te config) fs of
        Inl err \<Rightarrow> Inl (ReturnedErr err)
      | Inr nodeID \<Rightarrow>
          cmd_bind (hostnameOrIP v i) (\<lambda>host.
          cmd_bind (peerList te v is config fs) (\<lambda>(peers, config').
            Inr (IDAddressString te nodeID (host @ '':'' @ show_int (p2pPort v)) # peers, config'))))"

fun writeConfigs ::
  "('f, 'c, 'k, 'b) testnetenv \<Rightarrow> testnetVars \<Rightarrow> string \<Rightarrow> int list \<Rightarrow> 'c \<Rightarrow> 'f \<Rightarrow> 'f" where
  "writeConfigs te v peers [] config fs = fs"
| "writeConfigs te v peers (i # is) config0 fs =
     (let nodeDir = nodeDirOf v i;
          config = te_SetAddrBookStrict te False (te_SetPersistentPeers te peers (te_SetRoot te nodeDir config0)) in
      writeConfigs te v peers is config
        (WriteConfigFile te (pathJoin [nodeDir, ''config'', ''config.toml'']) config fs))"

definition nNodes :: "testnetVars \<Rightarrow> int" where
  "nNodes v = i64 (nValidators v + nNonValidators v)"

definition populatePersistentPeersInConfigAndWriteIt ::
  "('f, 'c, 'k, 'b) testnetenv \<Rightarrow> testnetVars \<Rightarrow> 'c \<Rightarrow> 'f \<Rightarrow> (cmdError + unit) \<times> 'f" where
  "populatePersistentPeersInConfigAndWriteIt te v config fs =
     (if nNodes v < 0 then (Inl (CmdPanic (PanicMsg ''makeslice: len out of range'')), fs)
      else case peerList te v [0..nNodes v - 1] config fs of
        Inl err \<Rightarrow> (Inl err, fs)
      | Inr (persistentPeers, config') \<Rightarrow>
          (Inr (), writeConfigs te v (Join persistentPeers CHR '','') [0..nNodes v - 1] config' fs))"

section \<open>The command\<close>

text \<open>\<open>now\<close> and \<open>rnd\<close> are the time and the random string of the genesis document.\<close>

definition testnetRun ::
  "('f, 'c, 'k, 'b) testnetenv \<Rightarrow> ('f, 'g, 'd, 'o, 'k, 'b) filesenv \<Rightarrow> nat \<Rightarrow> string \<Rightarrow> testnetVars \<Rightarrow> 'f \<Rightarrow>
     (cmdError + unit) \<times> 'f" where
  "testnetRun te fe now rnd v fs =
     (if nValidators v < 0 then (Inl (CmdPanic (PanicMsg ''makeslice: len out of range'')), fs)
      else case validatorDirs te fe v [0..nValidators v - 1] (te_DefaultConfig te) fs of
        (Inl err, fs1) \<Rightarrow> (Inl err, fs1)
      | (Inr (genVals, config1), fs1) \<Rightarrow>
          (case nonValidatorDirs te fe v [0..nNonValidators v - 1] config1 fs1 of
             (Inl err, fs2) \<Rightarrow> (Inl err, fs2)
           | (Inr config2, fs2) \<Rightarrow>
               (let genDoc = \<lparr>gd_GenesisTime = Some now, gd_ChainID = ''chain-'' @ rnd, gd_Validators = genVals\<rparr> in
                case saveGenesis te fe v config2 genDoc [0..nNodes v - 1] fs2 of
                  (Inl err, fs3) \<Rightarrow> (Inl err, fs3)
                | (Inr u, fs3) \<Rightarrow>
                    if populatePersistentPeers v then
                      (case populatePersistentPeersInConfigAndWriteIt te v config2 fs3 of
                         (Inl (ReturnedErr err), fs4) \<Rightarrow> removeAndReturn fe v err fs4
                       | r \<Rightarrow> r)
                    else (Inr (), fs3))))"

definition testnetCmd ::
  "('f, 'c, 'k, 'b) testnetenv \<Rightarrow> ('f, 'g, 'd, 'o, 'k, 'b) filesenv \<Rightarrow> nat \<Rightarrow> string \<Rightarrow> cliContext \<Rightarrow> 'f \<Rightarrow>
     (cmdError + unit) \<times> 'f" where
  "testnetCmd te fe now rnd ctx fs = testnetRun te fe now rnd (testnetVarsOf ctx) fs"

section \<open>Addresses\<close>

lemma list_update_eq_iff: "k < length xs \<Longrightarrow> xs[k := x] = xs[k := y] \<longleftrightarrow> x = y"
  by (metis nth_list_update_eq)

lemma byte_256: "(256 :: byte) = 0"
  by simp

lemma length_bump [simp]: "length (bump n ip) = length ip"
  by (induction n arbitrary: ip) auto

lemma bump_eq: "length ip = 4 \<Longrightarrow> bump n ip = ip[3 := ip ! 3 + word_of_nat n]"
proof (induction n arbitrary: ip)
  case 0
  then show ?case by (simp add: list_update_id)
next
  case (Suc n)
  then show ?case by (simp add: algebra_simps)
qed

text \<open>The addresses of the peers repeat every 256 nodes. The address of node i is the starting
  address with its last byte, and only that one, advanced i times around the byte: two nodes get the
  same address exactly if their numbers agree modulo 256. So the addresses are different for up to 256
  nodes, but leave the range of the starting address without an error.\<close>

lemma hostnameOrIP_repeats:
  assumes "startingIPAddress v \<noteq> []" and "To4 (ParseIP (startingIPAddress v)) = Some ip"
    and "0 \<le> i" and "0 \<le> j"
  shows "hostnameOrIP v i = Inr (IP_String (ip[3 := ip ! 3 + word_of_int i])) \<and>
    (hostnameOrIP v i = hostnameOrIP v j \<longleftrightarrow> i mod 256 = j mod 256)"
proof -
  have len: "length ip = 4" by (rule To4_length [OF assms(2)])
  have host: "hostnameOrIP v k = Inr (IP_String (ip[3 := ip ! 3 + word_of_int k]))" if "0 \<le> k" for k
    using assms(1,2) that len by (simp add: hostnameOrIP_def bump_eq)
  have "ip[3 := ip ! 3 + word_of_int i] = ip[3 := ip ! 3 + word_of_int j] \<longleftrightarrow>
      (word_of_int i :: byte) = word_of_int j"
    using len by (simp add: list_update_eq_iff)
  also have "\<dots> \<longleftrightarrow> i mod 256 = j mod 256"
    by (simp add: word_of_int_eq_iff take_bit_eq_mod)
  finally have eq: "ip[3 := ip ! 3 + word_of_int i] = ip[3 := ip ! 3 + word_of_int j] \<longleftrightarrow> i mod 256 = j mod 256" .
  have "ip[3 := x] \<noteq> []" for x using len by auto
  with host [OF assms(3)] host [OF assms(4)] eq show ?thesis
    by (simp add: IP_String_inject)
qed

section \<open>One genesis for all nodes\<close>

text \<open>What the command relies on: directories and genesis documents are written, an old key file that
  exists and the node key can be loaded, a file holds what was last written to it, and the genesis
  file of a node is \<open>config/genesis.json\<close>. \<open>docAt\<close> is the genesis document in a file.\<close>

definition testnet_laws ::
  "('f, 'c, 'k, 'b) testnetenv \<Rightarrow> ('f, 'g, 'd, 'o, 'k, 'b) filesenv \<Rightarrow>
     (string \<Rightarrow> 'f \<Rightarrow> ('k, 'b) GenesisDoc option) \<Rightarrow> bool" where
  "testnet_laws te fe docAt \<longleftrightarrow>
     (\<forall>p fs. fst (fe_MkdirAll fe p fs) = None) \<and>
     (\<forall>p fs. fe_FileExists fe p fs \<longrightarrow> LoadOldFilePV fe p fs \<in> range Inr) \<and>
     (\<forall>p fs. LoadNodeKey te p fs \<in> range Inr) \<and>
     (\<forall>doc p fs. fst (GenDoc_SaveAs fe doc p fs) = None) \<and>
     (\<forall>doc p q fs. docAt q (snd (GenDoc_SaveAs fe doc p fs)) = (if q = p then Some doc else docAt q fs)) \<and>
     (\<forall>p q c fs. q \<noteq> p \<longrightarrow> docAt q (WriteConfigFile te p c fs) = docAt q fs) \<and>
     (\<forall>d c. te_Genesis te (te_SetRoot te d c) = te_Genesis te c) \<and>
     te_Genesis te (te_DefaultConfig te) = ''config/genesis.json''"

lemma testnet_lawsD:
  assumes "testnet_laws te fe docAt"
  shows "\<exists>fs'. fe_MkdirAll fe p fs = (None, fs')"
    and "fe_FileExists fe p fs \<Longrightarrow> \<exists>r. LoadOldFilePV fe p fs = Inr r"
    and "\<exists>r. LoadNodeKey te p fs = Inr r"
    and "\<exists>fs'. GenDoc_SaveAs fe doc p fs = (None, fs') \<and> (\<forall>q. docAt q fs' = (if q = p then Some doc else docAt q fs))"
    and "q \<noteq> p \<Longrightarrow> docAt q (WriteConfigFile te p c fs) = docAt q fs"
    and "te_Genesis te (te_SetRoot te d c) = te_Genesis te c"
    and "te_Genesis te (te_DefaultConfig te) = ''config/genesis.json''"
proof -
  show "\<exists>fs'. fe_MkdirAll fe p fs = (None, fs')"
    using assms unfolding testnet_laws_def by (metis prod.collapse)
  show "\<exists>fs'. GenDoc_SaveAs fe doc p fs = (None, fs') \<and> (\<forall>q. docAt q fs' = (if q = p then Some doc else docAt q fs))"
    using assms unfolding testnet_laws_def by (metis prod.collapse)
qed (use assms in \<open>auto simp: testnet_laws_def image_iff\<close>)

lemma loadValidatorKey_ok:
  assumes "testnet_laws te fe docAt"
  obtains pv fs' where "loadValidatorKey te fe config fs = (Inr pv, fs')"
proof -
  have "\<exists>pv fs'. loadValidatorKey te fe config fs = (Inr pv, fs')"
    using testnet_lawsD(2) [OF assms] by (auto simp: loadValidatorKey_def Let_def split: prod.splits sum.splits) fastforce+
  then show ?thesis using that by blast
qed

lemma validatorDir_ok:
  assumes "testnet_laws te fe docAt"
  obtains val c' fs' where "validatorDir te fe v i c fs = (Inr (val, c'), fs')"
    and "g_Name val = nodeDirName v i" and "g_Power val = 1" and "te_Genesis te c' = te_Genesis te c"
proof -
  let ?c = "te_SetRoot te (nodeDirOf v i) c"
  obtain fs1 where 1: "fe_MkdirAll fe (pathJoin [nodeDirOf v i, ''config'']) fs = (None, fs1)"
    using testnet_lawsD(1) [OF assms] by blast
  obtain fs2 where 2: "fe_MkdirAll fe (pathJoin [nodeDirOf v i, ''data'']) fs1 = (None, fs2)"
    using testnet_lawsD(1) [OF assms] by blast
  obtain pv fs3 where 3: "loadValidatorKey te fe ?c (InitFilesWithConfig te ?c fs2) = (Inr pv, fs3)"
    by (rule loadValidatorKey_ok [OF assms])
  obtain bs fs4 where 4: "LoadFileBS te (pathJoin [nodeDirOf v i, te_BlsState te ?c]) fs3 = (bs, fs4)"
    by (rule prod.exhaust)
  let ?val = "\<lparr>g_PubKey = pv, g_BlsPubKey = Some \<lparr>bls_Type = ''Secp256k1'', bls_Address = PubKeyAddress te pv,
      bls_Value = bs\<rparr>, g_Power = 1, g_Name = nodeDirName v i\<rparr>"
  show ?thesis
    by (rule that [of ?val ?c fs4]) (simp_all add: validatorDir_def 1 2 3 4 Let_def testnet_lawsD(6) [OF assms])
qed

lemma validatorDirs_ok:
  assumes "testnet_laws te fe docAt"
  shows "\<exists>vals c' fs'. validatorDirs te fe v is c fs = (Inr (vals, c'), fs') \<and>
    map g_Name vals = map (nodeDirName v) is \<and> (\<forall>x \<in> set vals. g_Power x = 1) \<and>
    te_Genesis te c' = te_Genesis te c"
proof (induction "is" arbitrary: c fs)
  case (Cons i "is")
  obtain val c1 fs1 where 1: "validatorDir te fe v i c fs = (Inr (val, c1), fs1)"
    and v: "g_Name val = nodeDirName v i" "g_Power val = 1" "te_Genesis te c1 = te_Genesis te c"
    by (rule validatorDir_ok [OF assms])
  from Cons.IH [of c1 fs1] 1 v show ?case by (auto split: prod.splits)
qed simp

lemma nonValidatorDirs_ok:
  assumes "testnet_laws te fe docAt"
  shows "\<exists>c' fs'. nonValidatorDirs te fe v is c fs = (Inr c', fs') \<and> te_Genesis te c' = te_Genesis te c"
proof (induction "is" arbitrary: c fs)
  case (Cons i "is")
  let ?d = "nodeDirOf v (i64 (i + nValidators v))"
  obtain fs1 where 1: "fe_MkdirAll fe (pathJoin [?d, ''config'']) fs = (None, fs1)"
    using testnet_lawsD(1) [OF assms] by blast
  from Cons.IH [of "te_SetRoot te ?d c" "InitFilesWithConfig te (te_SetRoot te ?d c) fs1"] show ?case
    by (auto simp: 1 Let_def testnet_lawsD(6) [OF assms])
qed simp

lemma saveGenesis_ok:
  assumes "testnet_laws te fe docAt"
  shows "\<exists>fs'. saveGenesis te fe v c doc is fs = (Inr (), fs') \<and>
    (\<forall>i \<in> set is. docAt (pathJoin [nodeDirOf v i, te_Genesis te c]) fs' = Some doc) \<and>
    (\<forall>q. docAt q fs = Some doc \<longrightarrow> docAt q fs' = Some doc)"
proof (induction "is" arbitrary: fs)
  case (Cons i "is")
  obtain fs1 where 1: "GenDoc_SaveAs fe doc (pathJoin [nodeDirOf v i, te_Genesis te c]) fs = (None, fs1)"
    and d: "docAt q fs1 = (if q = pathJoin [nodeDirOf v i, te_Genesis te c] then Some doc else docAt q fs)" for q
    using testnet_lawsD(4) [OF assms] by blast
  from Cons.IH [of fs1] 1 d show ?case by auto
qed simp

lemma peerList_ok:
  assumes "testnet_laws te fe docAt" and "\<And>i. \<exists>h. hostnameOrIP v i = Inr h"
  shows "\<exists>ps c'. peerList te v is c fs = Inr (ps, c')"
proof (induction "is" arbitrary: c)
  case (Cons i "is")
  obtain h where h: "hostnameOrIP v i = Inr h" using assms(2) by blast
  obtain k where k: "LoadNodeKey te (NodeKeyFile te (te_SetRoot te (nodeDirOf v i) c)) fs = Inr k"
    using testnet_lawsD(3) [OF assms(1)] by blast
  from Cons.IH [of "te_SetRoot te (nodeDirOf v i) c"] show ?case by (auto simp: h k Let_def)
qed simp

lemma writeConfigs_docs:
  assumes "testnet_laws te fe docAt" and "\<And>i. q \<noteq> pathJoin [nodeDirOf v i, ''config'', ''config.toml'']"
  shows "docAt q (writeConfigs te v peers is c fs) = docAt q fs"
  by (induction "is" arbitrary: c fs) (simp_all add: Let_def testnet_lawsD(5) [OF assms(1)] assms(2))

lemma pathJoin_ends:
  assumes "d \<noteq> []" and "plainName n"
  shows "pathJoin [d, e @ ''/'' @ n] = dirPrefix (d @ ''/'' @ e) @ n"
    and "pathJoin [d, e, n] = dirPrefix (d @ ''/'' @ e) @ n"
  using assms pathJoin_entry [of n "d @ ''/'' @ e"] by (simp_all add: pathJoin_def)

lemma nodeDirOf_nonempty: "nodeDirOf v i \<noteq> []"
  by (simp add: nodeDirOf_def nodeDirName_def pathJoin_def Clean_def show_int_def Let_def)

lemma genesis_not_config:
  "pathJoin [nodeDirOf v i, ''config/genesis.json''] \<noteq> pathJoin [nodeDirOf v j, ''config'', ''config.toml'']"
proof
  assume eq: "pathJoin [nodeDirOf v i, ''config/genesis.json''] = pathJoin [nodeDirOf v j, ''config'', ''config.toml'']"
  have g: "pathJoin [nodeDirOf v i, ''config/genesis.json''] = dirPrefix (nodeDirOf v i @ ''/config'') @ ''genesis.json''"
    using pathJoin_ends(1) [OF nodeDirOf_nonempty, of "''genesis.json''" v i "''config''"] by (simp add: plainName_def)
  have c: "pathJoin [nodeDirOf v j, ''config'', ''config.toml''] = dirPrefix (nodeDirOf v j @ ''/config'') @ ''config.toml''"
    using pathJoin_ends(2) [OF nodeDirOf_nonempty, of "''config.toml''" v j "''config''"] by (simp add: plainName_def)
  from eq have "last (pathJoin [nodeDirOf v i, ''config/genesis.json'']) =
      last (pathJoin [nodeDirOf v j, ''config'', ''config.toml''])" by simp
  then show False unfolding g c by simp
qed

lemma show_int_last: "last (show_int i) \<noteq> CHR ''.''"
proof -
  have "last (show_nat n) \<noteq> CHR ''.''" for n
    using show_nat_no_dot last_in_set [OF show_nat_nonempty] by metis
  then show ?thesis by (simp add: show_int_def)
qed

lemma nodeDirOf_inj:
  assumes "CHR ''/'' \<notin> set (nodeDirPrefix v)"
  shows "nodeDirOf v (int i) = nodeDirOf v (int j) \<longleftrightarrow> i = j"
proof -
  have plain: "plainName (nodeDirName v (int k))" for k
  proof -
    have ne: "show_nat k \<noteq> []" by simp
    have "last (nodeDirName v (int k)) \<noteq> CHR ''.''"
      using show_int_last [of "int k"] ne by (simp add: nodeDirName_def show_int_nat)
    then have "nodeDirName v (int k) \<noteq> ''.''" and "nodeDirName v (int k) \<noteq> ''..''" by auto
    moreover have "CHR ''/'' \<notin> set (show_nat k)"
    proof
      assume "CHR ''/'' \<in> set (show_nat k)"
      then obtain d where "d < 10" and "CHR ''/'' = (char_of (48 + d :: nat) :: char)" using show_nat_digits by blast
      then have "digit_val CHR ''/'' = Some d" by simp
      then show False by (simp add: digit_val_def)
    qed
    ultimately show ?thesis
      using assms ne unfolding plainName_def by (simp add: nodeDirName_def show_int_nat)
  qed
  show ?thesis
    unfolding nodeDirOf_def pathJoin_inject [OF plain plain]
    by (simp add: nodeDirName_def show_int_nat show_nat_inject)
qed

text \<open>C39. The test network shares one genesis. If nothing fails in the file system, the numbers of nodes
  are in range and the starting address, if one is given, is an IPv4 address, \<open>testnet\<close> succeeds: the
  directory of every node, validator or not, holds the same genesis document, also after the
  configuration files were written. The document lists one validator of power 1 for each validator
  node, named as its directory, and the directories of different nodes are different.\<close>

theorem testnetCmd_genesis:
  assumes "testnet_laws te fe docAt" and "v = testnetVarsOf ctx"
    and "0 \<le> nValidators v" and "0 \<le> nNonValidators v" and "nValidators v + nNonValidators v < 2 ^ 63"
    and "startingIPAddress v = [] \<or> To4 (ParseIP (startingIPAddress v)) \<noteq> None"
    and "CHR ''/'' \<notin> set (nodeDirPrefix v)"
  shows "\<exists>fs' doc. testnetCmd te fe now rnd ctx fs = (Inr (), fs') \<and>
    map g_Name (gd_Validators doc) = map (nodeDirName v) [0..nValidators v - 1] \<and>
    (\<forall>x \<in> set (gd_Validators doc). g_Power x = 1) \<and>
    (\<forall>i. 0 \<le> i \<and> i < nValidators v + nNonValidators v \<longrightarrow>
      docAt (pathJoin [nodeDirOf v i, ''config/genesis.json'']) fs' = Some doc) \<and>
    (\<forall>i j. nodeDirOf v (int i) = nodeDirOf v (int j) \<longleftrightarrow> i = j)"
proof -
  note gen = testnet_lawsD(7) [OF assms(1)]
  have n: "nNodes v = nValidators v + nNonValidators v"
    using assms(3,4,5) unfolding nNodes_def by (intro i64_id) (simp add: is_i64_def)
  then have nn: "\<not> nNodes v < 0" using assms(3,4) by simp
  obtain vals c1 fs1 where 1: "validatorDirs te fe v [0..nValidators v - 1] (te_DefaultConfig te) fs = (Inr (vals, c1), fs1)"
    and names: "map g_Name vals = map (nodeDirName v) [0..nValidators v - 1]" and power: "\<forall>x \<in> set vals. g_Power x = 1"
    and c1: "te_Genesis te c1 = ''config/genesis.json''"
    using validatorDirs_ok [OF assms(1), of v "[0..nValidators v - 1]"] gen by metis
  obtain c2 fs2 where 2: "nonValidatorDirs te fe v [0..nNonValidators v - 1] c1 fs1 = (Inr c2, fs2)"
    and c2: "te_Genesis te c2 = ''config/genesis.json''"
    using nonValidatorDirs_ok [OF assms(1), of v "[0..nNonValidators v - 1]"] c1 by metis
  let ?doc = "\<lparr>gd_GenesisTime = Some now, gd_ChainID = ''chain-'' @ rnd, gd_Validators = vals\<rparr>"
  obtain fs3 where 3: "saveGenesis te fe v c2 ?doc [0..nNodes v - 1] fs2 = (Inr (), fs3)"
    and docs: "\<forall>i \<in> set [0..nNodes v - 1]. docAt (pathJoin [nodeDirOf v i, ''config/genesis.json'']) fs3 = Some ?doc"
    using saveGenesis_ok [OF assms(1), of v c2 ?doc "[0..nNodes v - 1]" fs2] c2 by auto
  have host: "\<exists>h. hostnameOrIP v i = Inr h" for i
    using assms(6) by (auto simp: hostnameOrIP_def)
  obtain ps c3 where 4: "peerList te v [0..nNodes v - 1] c2 fs3 = Inr (ps, c3)"
    using peerList_ok [OF assms(1) host] by blast
  let ?fs4 = "if populatePersistentPeers v then writeConfigs te v (Join ps CHR '','') [0..nNodes v - 1] c3 fs3 else fs3"
  have run: "testnetCmd te fe now rnd ctx fs = (Inr (), ?fs4)"
    using assms(3) nn
    by (simp add: testnetCmd_def assms(2) [symmetric] testnetRun_def 1 2 3 [simplified] 4 Let_def
        populatePersistentPeersInConfigAndWriteIt_def)
  have "docAt (pathJoin [nodeDirOf v i, ''config/genesis.json'']) ?fs4 = Some ?doc"
    if "0 \<le> i" and "i < nValidators v + nNonValidators v" for i
    using that n docs by (simp add: writeConfigs_docs [OF assms(1) genesis_not_config])
  with run names power nodeDirOf_inj [OF assms(7)] show ?thesis by (intro exI [of _ ?fs4] exI [of _ ?doc]) simp
qed

text \<open>Files that are genesis documents, and a context that asks for three validators and two other
  nodes.\<close>

definition docFiles :: "(string \<rightharpoonup> (nat, nat) GenesisDoc, unit, unit, unit, nat, nat) filesenv" where
  "docFiles =
     \<lparr>fe_ReadFile = (\<lambda>p fs. Inl NotExist), fe_MkdirAll = (\<lambda>p fs. (None, fs)), fe_RemoveAll = (\<lambda>p fs. (None, fs)),
      fe_Create = (\<lambda>p fs. Inr fs), fe_Write = (\<lambda>p c fs. (None, fs)), fe_Close = (\<lambda>p fs. (None, fs)),
      fe_FileExists = (\<lambda>p fs. False), UnmarshalGenesis = (\<lambda>s. Inr ()), blankGenesis = (),
      OpenChainDb = (\<lambda>p fs. Inr ((), fs)), SetupGenesisBlock = (\<lambda>d g fs. (None, fs)), EnsureRoot = (\<lambda>h fs. fs),
      LoadOldFilePV = (\<lambda>p fs. Inl ''no such file''), oldPV_Upgrade = (\<lambda>c k s fs. fs),
      LoadOrGenFilePV = (\<lambda>k s fs. (length k, fs)), GenDoc_SaveAs = (\<lambda>doc p fs. (None, fs(p \<mapsto> doc)))\<rparr>"

definition sampleTestnetenv :: "(string \<rightharpoonup> (nat, nat) GenesisDoc, string, nat, nat) testnetenv" where
  "sampleTestnetenv =
     \<lparr>te_DefaultConfig = [], te_SetRoot = (\<lambda>d c. d), InitFilesWithConfig = (\<lambda>c fs. fs),
      OldPrivValidatorFile = (\<lambda>c. c @ ''/old''), PrivValidatorKeyFile = (\<lambda>c. c @ ''/key''),
      PrivValidatorStateFile = (\<lambda>c. c @ ''/state''), NodeKeyFile = (\<lambda>c. c @ ''/node''),
      te_BlsState = (\<lambda>c. ''bls''), te_Genesis = (\<lambda>c. ''config/genesis.json''), LoadFileBS = (\<lambda>p fs. (0, fs)),
      PubKeyAddress = (\<lambda>k. ''addr''), LoadNodeKey = (\<lambda>p fs. Inr p), IDAddressString = (\<lambda>i a. i @ ''@'' @ a),
      te_SetPersistentPeers = (\<lambda>p c. c), te_SetAddrBookStrict = (\<lambda>b c. c), WriteConfigFile = (\<lambda>p c fs. fs(p := None))\<rparr>"

lemma sample_testnet_laws: "testnet_laws sampleTestnetenv docFiles (\<lambda>p fs. fs p)"
  by (auto simp: testnet_laws_def sampleTestnetenv_def docFiles_def)

definition testnetContext :: cliContext where
  "testnetContext =
     \<lparr>GlobalString = (\<lambda>n. if n = ''o'' then ''./mytestnet'' else if n = ''starting-ip-address'' then [] else ''node''),
      GlobalInt = (\<lambda>n. 2), GlobalInt64 = (\<lambda>n. 0), GlobalBool = (\<lambda>n. n = ''populate-persistent-peers''),
      GlobalIsSet = (\<lambda>n. False), Args = [''3'']\<rparr>"

lemma testnetContext_vars:
  "nValidators (testnetVarsOf testnetContext) = 3" "nNonValidators (testnetVarsOf testnetContext) = 2"
  "startingIPAddress (testnetVarsOf testnetContext) = []" "nodeDirPrefix (testnetVarsOf testnetContext) = ''node''"
  "outputDir (testnetVarsOf testnetContext) = ''./mytestnet''"
  by (simp_all add: testnetVarsOf_def testnetContext_def First_def Atoi_def strip_sign_def ParseUint_def digit_val_def
      TestNetVals_def TestNetNVals_def TestNetOutput_def TestNetNodeDir_def TestnetStartingIPAddress_def Let_def)

theorem testnetCmd_genesis_witness:
  "\<exists>fs' doc. testnetCmd sampleTestnetenv docFiles 0 ''abc'' testnetContext Map.empty = (Inr (), fs') \<and>
    fs' (pathJoin [nodeDirOf (testnetVarsOf testnetContext) 4, ''config/genesis.json'']) = Some doc \<and>
    map g_Name (gd_Validators doc) = [''node0'', ''node1'', ''node2'']"
proof -
  have names: "map (nodeDirName (testnetVarsOf testnetContext)) [0..2] = [''node0'', ''node1'', ''node2'']"
    by (simp add: upto_rec1 nodeDirName_def testnetContext_vars show_int_def) (simp add: show_nat.simps char_of_def bit_0)
  show ?thesis
    using testnetCmd_genesis [OF sample_testnet_laws refl, of testnetContext 0 "''abc''" Map.empty] names
    by (auto simp: testnetContext_vars)
qed

end
