(* ===== verification/Keystore.thy ===== *)
theory Keystore
  imports CmdConfig
begin

text \<open>
  The unlocking of accounts when the node starts: \<open>startNode\<close>, \<open>unlockAccount\<close>, \<open>getPassPhrase\<close> and
  \<open>ambiguousAddrRecovery\<close> of \<open>src/cmd/dtfn/dtfn.go\<close>. The key store is go-ethereum's: a state with the
  operations of \<open>ksenv\<close>. What the user types is a list of answers, one for each prompt, which may be
  errors; the end of the list is the end of the input. The goroutines that are started here are in
  theory \<open>Services\<close>.
\<close>

section \<open>The key store and the terminal\<close>

datatype 'a unlockErr = AmbiguousAddrError "'a list" | ErrDecrypt | OtherUnlockErr string

record ('s, 'a) ksenv =
  MakeAddress :: "'s \<Rightarrow> string \<Rightarrow> string + 'a"
  ks_Unlock :: "'a \<Rightarrow> string \<Rightarrow> 's \<Rightarrow> 'a unlockErr option \<times> 's"

type_synonym input = "(string + string) list"

fun PromptPassword :: "input \<Rightarrow> (string + string) \<times> input" where
  "PromptPassword [] = (Inl ''EOF'', [])"
| "PromptPassword (a # as) = (a, as)"

section \<open>Passwords\<close>

definition getPassPhrase :: "bool \<Rightarrow> nat \<Rightarrow> string list \<Rightarrow> input \<Rightarrow> (cmdError + string) \<times> input" where
  "getPassPhrase confirmation i passwords inp =
     (if length passwords > 0 then
        (Inr (if i < length passwords then passwords ! i else passwords ! (length passwords - 1)), inp)
      else case PromptPassword inp of
        (Inl err, inp1) \<Rightarrow> (Inl (Fatalf (''Failed to read passphrase: '' @ err)), inp1)
      | (Inr password, inp1) \<Rightarrow>
          if confirmation then
            (case PromptPassword inp1 of
               (Inl err, inp2) \<Rightarrow> (Inl (Fatalf (''Failed to read passphrase confirmation: '' @ err)), inp2)
             | (Inr confirm, inp2) \<Rightarrow>
                 if password \<noteq> confirm then (Inl (Fatalf ''Passphrases do not match''), inp2)
                 else (Inr password, inp2))
          else (Inr password, inp1))"

section \<open>Unlocking\<close>

text \<open>The first of the matching files that the password unlocks.\<close>

fun ambiguousAddrRecovery ::
  "('s, 'a) ksenv \<Rightarrow> 'a list \<Rightarrow> string \<Rightarrow> 's \<Rightarrow> (cmdError + 'a) \<times> 's" where
  "ambiguousAddrRecovery kenv [] auth s = (Inl (Fatalf ''None of the listed files could be unlocked.''), s)"
| "ambiguousAddrRecovery kenv (a # as) auth s =
     (case ks_Unlock kenv a auth s of
        (None, s') \<Rightarrow> (Inr a, s')
      | (Some err, s') \<Rightarrow> ambiguousAddrRecovery kenv as auth s')"

text \<open>The loop of \<open>unlockAccount\<close>, with the number of trials left.\<close>

fun unlockTrials ::
  "('s, 'a) ksenv \<Rightarrow> nat \<Rightarrow> string \<Rightarrow> 'a \<Rightarrow> nat \<Rightarrow> string list \<Rightarrow> 's \<Rightarrow> input \<Rightarrow> (cmdError + 'a \<times> string) \<times> 's \<times> input" where
  "unlockTrials kenv 0 address account i passwords s inp =
     (Inl (Fatalf (''Failed to unlock account '' @ address)), s, inp)"
| "unlockTrials kenv (Suc n) address account i passwords s inp =
     (case getPassPhrase False i passwords inp of
        (Inl err, inp1) \<Rightarrow> (Inl err, s, inp1)
      | (Inr password, inp1) \<Rightarrow>
          (case ks_Unlock kenv account password s of
             (None, s1) \<Rightarrow> (Inr (account, password), s1, inp1)
           | (Some (AmbiguousAddrError ms), s1) \<Rightarrow>
               (case ambiguousAddrRecovery kenv ms password s1 of
                  (Inl err, s2) \<Rightarrow> (Inl err, s2, inp1)
                | (Inr a, s2) \<Rightarrow> (Inr (a, password), s2, inp1))
           | (Some ErrDecrypt, s1) \<Rightarrow> unlockTrials kenv n address account i passwords s1 inp1
           | (Some (OtherUnlockErr err), s1) \<Rightarrow>
               (Inl (Fatalf (''Failed to unlock account '' @ address)), s1, inp1)))"

definition unlockAccount ::
  "('s, 'a) ksenv \<Rightarrow> string \<Rightarrow> nat \<Rightarrow> string list \<Rightarrow> 's \<Rightarrow> input \<Rightarrow> (cmdError + 'a \<times> string) \<times> 's \<times> input" where
  "unlockAccount kenv address i passwords s inp =
     (case MakeAddress kenv s address of
        Inl err \<Rightarrow> (Inl (Fatalf (''Could not list accounts: '' @ err)), s, inp)
      | Inr account \<Rightarrow> unlockTrials kenv 3 address account i passwords s inp)"

fun unlockAll ::
  "('s, 'a) ksenv \<Rightarrow> nat \<Rightarrow> string list \<Rightarrow> string list \<Rightarrow> 's \<Rightarrow> input \<Rightarrow> (cmdError + unit) \<times> 's \<times> input" where
  "unlockAll kenv i [] passwords s inp = (Inr (), s, inp)"
| "unlockAll kenv i (account # rest) passwords s inp =
     (let trimmed = TrimSpace account in
      if trimmed \<noteq> [] then
        (case unlockAccount kenv trimmed i passwords s inp of
           (Inl err, s1, inp1) \<Rightarrow> (Inl err, s1, inp1)
         | (Inr r, s1, inp1) \<Rightarrow> unlockAll kenv (Suc i) rest passwords s1 inp1)
      else unlockAll kenv (Suc i) rest passwords s inp)"

text \<open>\<open>StartNode\<close> of \<open>src/cmd/utils/utils.go\<close>, up to the goroutine that waits for an interrupt.\<close>

definition StartNode :: "('n, 'm) gethenv \<Rightarrow> 'n \<Rightarrow> cmdError + 'n" where
  "StartNode ge stack =
     (case Node_Start ge stack of
        Inl err \<Rightarrow> Inl (Fatalf (''Error starting protocol stack: '' @ err))
      | Inr stack' \<Rightarrow> Inr stack')"

text \<open>\<open>passwords\<close> is what \<open>MakePasswordList\<close> read from the password file.\<close>

definition startNode ::
  "osenv \<Rightarrow> ('n, 'm) gethenv \<Rightarrow> ('s, 'a) ksenv \<Rightarrow> string list \<Rightarrow> cliContext \<Rightarrow> 'n \<Rightarrow> 's \<Rightarrow> input \<Rightarrow>
     (cmdError + 'n) \<times> 's \<times> input" where
  "startNode os ge kenv passwords ctx stack s inp =
     (case StartNode ge stack of
        Inl err \<Rightarrow> (Inl err, s, inp)
      | Inr stack' \<Rightarrow>
          (let unlocks = Split (GlobalString ctx (ethName os ''UnlockedAccountFlag'')) CHR '','' in
           case unlockAll kenv 0 unlocks passwords s inp of
             (Inl err, s1, inp1) \<Rightarrow> (Inl err, s1, inp1)
           | (Inr u, s1, inp1) \<Rightarrow> (Inr stack', s1, inp1)))"

section \<open>Properties\<close>

text \<open>With a password file the user is never asked, and the last password stands for all further
  accounts.\<close>

lemma getPassPhrase_list:
  assumes "passwords \<noteq> []"
  shows "getPassPhrase confirmation i passwords inp = (Inr (passwords ! min i (length passwords - 1)), inp)"
  using assms by (cases passwords) (auto simp: getPassPhrase_def min_def)

lemma unlockTrials_no_prompt:
  assumes "passwords \<noteq> []"
  shows "snd (snd (unlockTrials kenv n address account i passwords s inp)) = inp"
  using assms
  by (induction n arbitrary: s) (auto simp: getPassPhrase_list split: prod.splits option.splits unlockErr.splits sum.splits)

lemma unlockAll_no_prompt:
  assumes "passwords \<noteq> []"
  shows "snd (snd (unlockAll kenv i accounts passwords s inp)) = inp"
proof (induction accounts arbitrary: i s)
  case (Cons a as)
  have one: "snd (snd (unlockAccount kenv x k passwords s inp)) = inp" for x k
    using assms by (simp add: unlockAccount_def unlockTrials_no_prompt split: sum.splits)
  obtain r s1 inp1 where u: "unlockAccount kenv (TrimSpace a) i passwords s inp = (r, s1, inp1)"
    by (metis prod_cases3)
  with one [of "TrimSpace a" i] have "inp1 = inp" by simp
  with u Cons.IH show ?case by (cases r) (auto simp: Let_def)
qed simp

text \<open>An account for which the password stays wrong is tried three times, with the same password if
  there is a password file, and then the process ends.\<close>

lemma unlockAccount_wrong_password:
  assumes "passwords \<noteq> []" and "MakeAddress kenv s address = Inr account"
    and "\<And>s'. ks_Unlock kenv account (passwords ! min i (length passwords - 1)) s' = (Some ErrDecrypt, s')"
  shows "unlockAccount kenv address i passwords s inp = (Inl (Fatalf (''Failed to unlock account '' @ address)), s, inp)"
  using assms by (simp add: unlockAccount_def numeral_3_eq_3 getPassPhrase_list)

text \<open>What \<open>unlockAccount\<close> returns was unlocked with the password it returns.\<close>

lemma ambiguousAddrRecovery_unlocks:
  "ambiguousAddrRecovery kenv ms auth s = (Inr a, s') \<Longrightarrow> a \<in> set ms \<and> (\<exists>s0. ks_Unlock kenv a auth s0 = (None, s'))"
  by (induction kenv ms auth s rule: ambiguousAddrRecovery.induct) (auto split: prod.splits option.splits)

lemma unlockTrials_unlocks:
  assumes "unlockTrials kenv n address account i passwords s inp = (Inr (a, pw), s', inp')"
  shows "\<exists>s0. ks_Unlock kenv a pw s0 = (None, s')"
  using assms
  by (induction kenv n address account i passwords s inp rule: unlockTrials.induct)
    (auto split: prod.splits option.splits unlockErr.splits sum.splits dest!: ambiguousAddrRecovery_unlocks)

lemma unlockAccount_unlocks:
  "unlockAccount kenv address i passwords s inp = (Inr (a, pw), s', inp') \<Longrightarrow> \<exists>s0. ks_Unlock kenv a pw s0 = (None, s')"
  by (auto simp: unlockAccount_def split: sum.splits dest: unlockTrials_unlocks)

text \<open>A failed start of the node exits the process; it is never an error the caller gets.\<close>

lemma ambiguousAddrRecovery_exits: "fst (ambiguousAddrRecovery kenv ms auth s) \<noteq> Inl (ReturnedErr m)"
  by (induction kenv ms auth s rule: ambiguousAddrRecovery.induct) (auto split: prod.splits option.splits)

lemma unlockTrials_exits: "fst (unlockTrials kenv n address account i passwords s inp) \<noteq> Inl (ReturnedErr m)"
proof (induction n arbitrary: s inp)
  case (Suc n)
  obtain r inp1 where g: "getPassPhrase False i passwords inp = (r, inp1)" by fastforce
  then have "r \<noteq> Inl (ReturnedErr m)" by (auto simp: getPassPhrase_def split: if_splits prod.splits sum.splits)
  then show ?case
    using g Suc.IH ambiguousAddrRecovery_exits [of kenv _ _ _ m]
    by (auto split: prod.splits sum.splits option.splits unlockErr.splits) (metis fst_conv)+
qed simp

lemma unlockAll_exits: "fst (unlockAll kenv i accounts passwords s inp) \<noteq> Inl (ReturnedErr m)"
proof (induction accounts arbitrary: i s inp)
  case (Cons a as)
  have "fst (unlockAccount kenv (TrimSpace a) i passwords s inp) \<noteq> Inl (ReturnedErr m)"
    by (auto simp: unlockAccount_def unlockTrials_exits split: sum.splits)
  with Cons.IH show ?case by (auto simp: Let_def split: prod.splits sum.splits)
qed simp

lemma startNode_exits: "fst (startNode os ge kenv passwords ctx stack s inp) \<noteq> Inl (ReturnedErr m)"
  using unlockAll_exits [of kenv 0 _ passwords s inp m]
  by (auto simp: startNode_def StartNode_def Let_def split: prod.splits sum.splits) (metis fst_conv)+

end
