(* ===== verification/Command.thy ===== *)
theory Command
  imports Startup Testnet Keystore
begin

text \<open>
  The parts of \<open>ethermintCmd\<close> of \<open>src/cmd/dtfn/dtfn.go\<close> that are not the start of the application
  (theory \<open>Startup\<close>) or of the node (\<open>Keystore\<close>): \<open>NewBackend\<close> of \<open>src/ethereum/backend.go\<close>, the flags, and at
  the end either a Tendermint node in the same process or an ABCI server. Also the table of commands of
  \<open>src/cmd/dtfn/main.go\<close> and \<open>waitForServer\<close> of \<open>src/ethereum/txs.go\<close>. Tendermint's node and server are
  arguments. The whole command is in theory \<open>Services\<close>.
\<close>

section \<open>The backend\<close>

text \<open>\<open>ethNew\<close> makes the Ethereum service, \<open>quiesce\<close> stands for the calls on it that stop mining, post
  the head of the chain and set the block validator. The working state and the current transaction
  are zero values until the application initialises them.\<close>

definition NewBackend ::
  "('n \<Rightarrow> 'm ethConfig \<Rightarrow> string + 'c) \<Rightarrow> ('c \<Rightarrow> 'c) \<Rightarrow> ('b, 's, 'l) workState \<Rightarrow> 'n \<Rightarrow> 'm ethConfig \<Rightarrow>
     string + ('c, 'b, 's, 'l) Backend" where
  "NewBackend ethNew quiesce zeroWork node ethConfig =
     (case ethNew node ethConfig of
        Inl err \<Rightarrow> Inl err
      | Inr ethereum \<Rightarrow>
          Inr \<lparr>be_chain = quiesce ethereum, be_work = zeroWork, currentTxInfo = zeroTxInfo, cachedTxInfo = Map.empty\<rparr>)"

text \<open>\<open>waitForServer\<close> asks for the status until there is an answer: \<open>up n\<close> says whether call
  number \<open>n\<close> succeeds. The result is the number of the call that did.\<close>

partial_function (option) waitForServer :: "(nat \<Rightarrow> bool) \<Rightarrow> nat \<Rightarrow> nat option" where
  "waitForServer up n = (if up n then Some n else waitForServer up (n + 1))"

section \<open>Flags of the start\<close>

definition startFlagsOf :: "cliContext \<Rightarrow> startFlags" where
  "startFlagsOf ctx =
     \<lparr>fl_BlsSelectStrategy = GlobalBool ctx (ownName TmBlsSelectStrategy),
      fl_RollbackFlag = GlobalBool ctx (ownName RollbackFlag),
      fl_RollbackHeight = GlobalInt ctx (ownName RollbackHeight),
      fl_SelectCount = GlobalInt ctx (ownName SelectCountFlag),
      fl_DKGMembersLimit = GlobalInt ctx (ownName DKGMembersLimitFlag)\<rparr>"

section \<open>Serving\<close>

record ('f, 'c, 'k, 'nk, 't) tmnode =
  tn_LoadOrGenNodeKey :: "string \<Rightarrow> 'f \<Rightarrow> string + 'nk \<times> 'f"
  tn_NewNode :: "'c \<Rightarrow> 'k \<Rightarrow> 'nk \<Rightarrow> string + 't"
  tn_Start :: "'t \<Rightarrow> string + 't"

record 'v abciserver =
  srv_New :: "string \<Rightarrow> string \<Rightarrow> string + 'v"
  srv_Start :: "'v \<Rightarrow> string option"

datatype ('t, 'v) service = RunsTendermint 't | RunsAbciServer 'v

definition startTendermint ::
  "('f, 'c, 'k, 'nk, 't) tmnode \<Rightarrow> ('f, 'c, 'k, 'b) testnetenv \<Rightarrow> ('f, 'g, 'd, 'o, 'k, 'b) filesenv \<Rightarrow> 'c \<Rightarrow> 'f \<Rightarrow>
     (cmdError + 't) \<times> 'f" where
  "startTendermint tn te fe tmConfig fs =
     (case tn_LoadOrGenNodeKey tn (NodeKeyFile te tmConfig) fs of
        Inl err \<Rightarrow> (Inl (ReturnedErr err), fs)
      | Inr (nodeKey, fs1) \<Rightarrow>
          (case loadValidatorKey te fe tmConfig fs1 of
             (Inl err, fs2) \<Rightarrow> (Inl err, fs2)
           | (Inr pv, fs2) \<Rightarrow>
               (case tn_NewNode tn tmConfig pv nodeKey of
                  Inl err \<Rightarrow> (Inl (ReturnedErr err), fs2)
                | Inr n \<Rightarrow>
                    (case tn_Start tn n of
                       Inl err \<Rightarrow> (Inl (ReturnedErr err), fs2)
                     | Inr n' \<Rightarrow> (Inr n', fs2)))))"

definition startAbci :: "'v abciserver \<Rightarrow> cliContext \<Rightarrow> cmdError + 'v" where
  "startAbci sv ctx =
     (case srv_New sv (GlobalString ctx (ownName ABCIAddrFlag)) (GlobalString ctx (ownName ABCIProtocolFlag)) of
        Inl err \<Rightarrow> Inl (Fatalf err)
      | Inr srv \<Rightarrow> (case srv_Start sv srv of Some err \<Rightarrow> Inl (Fatalf err) | None \<Rightarrow> Inr srv))"

definition serve ::
  "('f, 'c, 'k, 'nk, 't) tmnode \<Rightarrow> ('f, 'c, 'k, 'b) testnetenv \<Rightarrow> ('f, 'g, 'd, 'o, 'k, 'b) filesenv \<Rightarrow> 'v abciserver \<Rightarrow>
     cliContext \<Rightarrow> 'c \<Rightarrow> 'f \<Rightarrow> (cmdError + ('t, 'v) service) \<times> 'f" where
  "serve tn te fe sv ctx tmConfig fs =
     (if canInvokeTendermint ctx then
        (case startTendermint tn te fe tmConfig fs of
           (Inl err, fs1) \<Rightarrow> (Inl err, fs1)
         | (Inr n, fs1) \<Rightarrow> (Inr (RunsTendermint n), fs1))
      else
        (case startAbci sv ctx of
           Inl err \<Rightarrow> (Inl err, fs)
         | Inr srv \<Rightarrow> (Inr (RunsAbciServer srv), fs)))"

section \<open>The application\<close>

fun startFailure :: "startError \<Rightarrow> cmdError" where
  "startFailure (ExitMsg m) = Fatalf m"
| "startFailure (StartPanic p) = CmdPanic p"

text \<open>The application, with its flags and the files at the paths of the data directory. The
  application is created first; \<open>loadTMConfig\<close> and the paths come after it, so a missing data directory
  is reported only then.\<close>

definition commandApp ::
  "osenv \<Rightarrow> tmBaseConfig \<Rightarrow> 'i \<Rightarrow> 'i tmConfig \<Rightarrow> 'x env \<Rightarrow> ('c, 'b, 's, 'l, 'w) ethenv \<Rightarrow> ('s, 'x) persist \<Rightarrow> versionVars \<Rightarrow>
     (uint64 \<Rightarrow> 'c \<Rightarrow> 'c) \<Rightarrow> ((address \<rightharpoonup> int) \<Rightarrow> address list) \<Rightarrow> ('i tmConfig \<Rightarrow> string \<Rightarrow> genesisFiles) \<Rightarrow> ('c \<Rightarrow> int) \<Rightarrow>
     cliContext \<Rightarrow> ('c, 'b, 's, 'l) Backend \<Rightarrow> 'x txfilterVars \<Rightarrow>
     cmdError + ('c, 'b, 's, 'l, 'x) EthermintApplication \<times> 'i tmConfig" where
  "commandApp os db di dc e en ps w setHead ordG readFiles chainId ctx backend gv =
     (case newApp e en (startFlagsOf ctx) (chainId (be_chain backend)) backend gv of
        Inl err \<Rightarrow> Inl (startFailure err)
      | Inr app0 \<Rightarrow>
          cmd_bind (loadTMConfig os db di dc ctx) (\<lambda>tmConfig.
          cmd_bind (ethermintGenesisPath os ctx) (\<lambda>genesisPath.
            case startApp e en ps w setHead ordG (readFiles tmConfig genesisPath) (startFlagsOf ctx)
                   (chainId (be_chain backend)) backend gv of
              Inl err \<Rightarrow> Inl (startFailure err)
            | Inr app \<Rightarrow> Inr (app, tmConfig))))"

section \<open>The commands\<close>

datatype command = EthermintCmd | InitCmd | VersionCmd | ResetCmd | TestnetCmd

definition appAction :: command where
  "appAction = EthermintCmd"

definition appCommands :: "(string \<times> command) list" where
  "appCommands = [(''init'', InitCmd), (''version'', VersionCmd), (''unsafe_reset_all'', ResetCmd), (''testnet'', TestnetCmd)]"

text \<open>\<open>versionCmd\<close> prints two lines: the program's version and go-ethereum's.\<close>

definition versionCmd :: "string \<Rightarrow> string \<Rightarrow> string list" where
  "versionCmd Version paramsVersion = [''dtfn:  '' @ Version, ''go-ethereum:  '' @ paramsVersion]"

section \<open>Properties\<close>

text \<open>The wait ends if some call is answered, with the first answered call.\<close>

lemma waitForServer_returns:
  assumes "up m" and "n \<le> m"
  shows "\<exists>k. waitForServer up n = Some k \<and> n \<le> k \<and> k \<le> m \<and> up k"
  using assms
proof (induction "m - n" arbitrary: n)
  case 0
  then show ?case by (auto simp: waitForServer.simps [of up n])
next
  case (Suc d)
  show ?case
  proof (cases "up n")
    case True
    with Suc.prems show ?thesis by (auto simp: waitForServer.simps [of up n])
  next
    case False
    with Suc.prems have "n < m" by (cases "n = m") auto
    then have "d = m - (n + 1)" and "n + 1 \<le> m" using Suc.hyps(2) by simp_all
    with Suc.hyps(1) [of "n + 1"] Suc.prems(1)
    obtain k where "waitForServer up (n + 1) = Some k" and "n + 1 \<le> k" and "k \<le> m" and "up k" by auto
    with False show ?thesis by (auto simp: waitForServer.simps [of up n])
  qed
qed

lemma appCommands_distinct: "distinct (map fst appCommands)"
  by (simp add: appCommands_def)

lemma NewBackend_no_cached_info:
  "NewBackend ethNew quiesce zw node cfg = Inr b \<Longrightarrow>
    cachedTxInfo b = Map.empty \<and> ti_Tx (currentTxInfo b) = None \<and> be_work b = zw"
  by (auto simp: NewBackend_def zeroTxInfo_def split: sum.splits)

lemma loadTMConfig_iff_genesisPath:
  "(\<exists>c. loadTMConfig os db di dc ctx = Inr c) \<longleftrightarrow> (\<exists>p. ethermintGenesisPath os ctx = Inr p)"
  by (cases "MakeDataDir os ctx") (simp_all add: loadTMConfig_def tendermintHomeFromEthermint_def ethermintGenesisPath_def)

lemma commandApp_Inr:
  assumes "commandApp os db di dc e en ps w setHead ordG readFiles chainId ctx backend gv = Inr (app, tmConfig)"
  obtains dir where "MakeDataDir os ctx = Inr dir" and "loadTMConfig os db di dc ctx = Inr tmConfig"
    and "startApp e en ps w setHead ordG (readFiles tmConfig (pathJoin [dir, ''gelchain/chaindata/genesis.json'']))
      (startFlagsOf ctx) (chainId (be_chain backend)) backend gv = Inr app"
proof (cases "MakeDataDir os ctx")
  case (Inl err)
  with assms show ?thesis
    by (auto simp: commandApp_def loadTMConfig_def tendermintHomeFromEthermint_def split: sum.splits)
next
  case (Inr dir)
  let ?start = "\<lambda>c. startApp e en ps w setHead ordG (readFiles c (pathJoin [dir, ''gelchain/chaindata/genesis.json'']))
      (startFlagsOf ctx) (chainId (be_chain backend)) backend gv"
  obtain app0 where app0: "newApp e en (startFlagsOf ctx) (chainId (be_chain backend)) backend gv = Inr app0"
    using assms by (cases "newApp e en (startFlagsOf ctx) (chainId (be_chain backend)) backend gv")
      (simp_all add: commandApp_def)
  from assms Inr app0 obtain c where c: "loadTMConfig os db di dc ctx = Inr c"
    and r: "(case ?start c of Inl err \<Rightarrow> Inl (startFailure err) | Inr app \<Rightarrow> Inr (app, c)) = Inr (app, tmConfig)"
    unfolding commandApp_def by (cases "loadTMConfig os db di dc ctx") (simp_all add: ethermintGenesisPath_def)
  from r have "c = tmConfig" and "?start c = Inr app" by (cases "?start c"; simp)+
  with Inr c that show ?thesis by simp
qed

lemma commandApp_flags:
  assumes "commandApp os db di dc e en ps w setHead ordG readFiles chainId ctx backend gv = Inr (app, tmConfig)"
  shows "SelectCount (s_CurrEpoch (a_strategy app)) = GlobalInt ctx (ownName SelectCountFlag) \<and>
    DKGMembersLimit (s_CurrEpoch (a_strategy app)) = GlobalInt ctx (ownName DKGMembersLimitFlag)"
proof -
  obtain dir where "startApp e en ps w setHead ordG (readFiles tmConfig (pathJoin [dir, ''gelchain/chaindata/genesis.json'']))
      (startFlagsOf ctx) (chainId (be_chain backend)) backend gv = Inr app"
    by (rule commandApp_Inr [OF assms])
  then obtain st st' app1 where "applyFlags (startFlagsOf ctx) st = Inr st'" and "app = app1\<lparr>a_strategy := st'\<rparr>"
    by (elim startApp_InrE) blast
  then show ?thesis by (auto simp: applyFlags_def startFlagsOf_def split: option.splits if_splits)
qed

end
