(* ===== verification/Forwarding.thy ===== *)
theory Forwarding
  imports NodeRuns
begin

text \<open>
  \<open>txBroadcastLoop\<close> of \<open>src/ethereum/txs.go\<close> among the other goroutines of the node. The transaction
  pool sends the transactions of local clients into a channel of capacity 50000; the loop takes them
  out one by one, stores the sender and relayer it already knows in \<open>Backend.currentTxInfo\<close>, and calls
  \<open>CheckTxLocal\<close>, in which \<open>CheckTx\<close> reads them back. Tendermint's calls of the ABCI handlers come in
  between at any point: they share the backend with the loop and no lock covers both the write and the
  read. The model is a step relation over the pending events, the event being worked on and the
  application.
\<close>

section \<open>The machine\<close>

definition chanCapacity :: nat where
  "chanCapacity = 50000"

text \<open>\<open>fw_sent\<close> and \<open>fw_done\<close> record what was sent and what was answered, in order.\<close>

record ('c, 'b, 's, 'l, 'x) forwarder =
  fw_loop :: "('c, 'b, 's, 'l, 'x) EthermintApplication broadcastLoop"
  fw_chan :: "TxPreEvent list"
  fw_cur :: "TxPreEvent option"
  fw_sent :: "TxPreEvent list"
  fw_done :: "(TxPreEvent \<times> broadcastError option) list"

abbreviation fw_app :: "('c, 'b, 's, 'l, 'x) forwarder \<Rightarrow> ('c, 'b, 's, 'l, 'x) EthermintApplication" where
  "fw_app f \<equiv> bl_program (fw_loop f)"

definition startLoop :: "('c, 'b, 's, 'l, 'x) EthermintApplication \<Rightarrow> ('c, 'b, 's, 'l, 'x) forwarder" where
  "startLoop app =
     \<lparr>fw_loop = \<lparr>bl_program = app, txCount = 0, bl_results = [], bl_removed = [], bl_flowSets = 0\<rparr>,
      fw_chan = [], fw_cur = None, fw_sent = [], fw_done = []\<rparr>"

definition sendEvent :: "TxPreEvent \<Rightarrow> ('c, 'b, 's, 'l, 'x) forwarder \<Rightarrow> ('c, 'b, 's, 'l, 'x) forwarder" where
  "sendEvent ev f = f\<lparr>fw_chan := fw_chan f @ [ev], fw_sent := fw_sent f @ [ev]\<rparr>"

definition takeEvent ::
  "TxPreEvent \<Rightarrow> TxPreEvent list \<Rightarrow> ('c, 'b, 's, 'l, 'x) forwarder \<Rightarrow> ('c, 'b, 's, 'l, 'x) forwarder" where
  "takeEvent obj rest f =
     f\<lparr>fw_cur := Some obj, fw_chan := rest,
       fw_loop := (fw_loop f)\<lparr>bl_program := mapBackend (setCurrentTxInfo (eventInfo obj)) (fw_app f)\<rparr>\<rparr>"

text \<open>\<open>CheckTxLocal\<close>: the memory pool may refuse a transaction, otherwise it asks the application. A
  check of a local transaction does not panic once the loop has stored its transaction
  (\<open>CheckTx_Local_total\<close> below).\<close>

definition CheckTxLocal ::
  "'x txenv \<Rightarrow> 's statedb \<Rightarrow> string option \<Rightarrow> bytes \<Rightarrow> ('c, 'b, 's, 'l, 'x) EthermintApplication \<Rightarrow>
     ('c, 'b, 's, 'l, 'x) EthermintApplication \<times> (string + ResponseCheckTx)" where
  "CheckTxLocal te db refusal txBytes app =
     (case refusal of
        Some err \<Rightarrow> (app, Inl err)
      | None \<Rightarrow>
          (case CheckTx te db txBytes CheckTxType_Local app of
             Inl p \<Rightarrow> (app, Inl ''panic'')
           | Inr (app', r) \<Rightarrow> (app', Inr r)))"

definition broadcastEvent ::
  "'x txenv \<Rightarrow> 's statedb \<Rightarrow> (Transaction \<Rightarrow> string + bytes) \<Rightarrow> string option \<Rightarrow> TxPreEvent \<Rightarrow>
     ('c, 'b, 's, 'l, 'x) forwarder \<Rightarrow> ('c, 'b, 's, 'l, 'x) forwarder" where
  "broadcastEvent te db encode refusal obj f =
     (let pe = BroadcastTx encode (CheckTxLocal te db refusal) (ev_Tx obj) (fw_app f) in
      f\<lparr>fw_cur := None, fw_done := fw_done f @ [(obj, snd pe)], fw_loop := broadcastDone obj pe (fw_loop f)\<rparr>)"

text \<open>The calls of Tendermint that may come in between.\<close>

inductive handles ::
  "('c, 'b, 's, 'l, 'x) nodeenv \<Rightarrow> ('c, 'b, 's, 'l, 'x) EthermintApplication \<Rightarrow>
     ('c, 'b, 's, 'l, 'x) EthermintApplication \<Rightarrow> bool" for N where
  h_check: "CheckTx (ne_te N) (ne_db N) txBytes ct app = Inr (app', r) \<Longrightarrow> ct \<noteq> CheckTxType_Local \<Longrightarrow> handles N app app'"
| h_begin: "BeginBlock (ne_env N) (ne_db N) (ne_en N) (ne_w N) req app = Inr app' \<Longrightarrow> handles N app app'"
| h_deliver: "app_DeliverTx (ne_en N) (ne_te N) txBytes app = Inr (app', r2) \<Longrightarrow> handles N app app'"
| h_end: "endOf N blk app = Some (Inr (app', resp)) \<Longrightarrow> handles N app app'"
| h_commit: "app_Commit (ne_env N) (ne_db N) (ne_ps N) (ne_en N) app = Inr (app', h) \<Longrightarrow> handles N app app'"

inductive forwards ::
  "('c, 'b, 's, 'l, 'x) nodeenv \<Rightarrow> (Transaction \<Rightarrow> string + bytes) \<Rightarrow> ('c, 'b, 's, 'l, 'x) EthermintApplication \<Rightarrow>
     ('c, 'b, 's, 'l, 'x) forwarder \<Rightarrow> bool" for N encode app0 where
  f_start: "forwards N encode app0 (startLoop app0)"
| f_send: "forwards N encode app0 f \<Longrightarrow> length (fw_chan f) < chanCapacity \<Longrightarrow> forwards N encode app0 (sendEvent ev f)"
| f_take: "forwards N encode app0 f \<Longrightarrow> fw_cur f = None \<Longrightarrow> fw_chan f = obj # rest \<Longrightarrow>
    forwards N encode app0 (takeEvent obj rest f)"
| f_handler: "forwards N encode app0 f \<Longrightarrow> handles N (fw_app f) app' \<Longrightarrow>
    forwards N encode app0 (f\<lparr>fw_loop := (fw_loop f)\<lparr>bl_program := app'\<rparr>\<rparr>)"
| f_broadcast: "forwards N encode app0 f \<Longrightarrow> fw_cur f = Some obj \<Longrightarrow>
    forwards N encode app0 (broadcastEvent (ne_te N) (ne_db N) encode refusal obj f)"

section \<open>Nobody else writes the current transaction\<close>

abbreviation currentInfo :: "('c, 'b, 's, 'l, 'x) EthermintApplication \<Rightarrow> TxInfo" where
  "currentInfo app \<equiv> currentTxInfo (a_backend app)"

lemma validateTx_current:
  assumes "validateTx te db tx ct app = Inr (app', r)"
  shows "currentInfo app' = currentInfo app"
  using validateTx_validated [OF assms]
  by (auto elim!: validatedE simp: InsertCachedTxInfo_def DeleteCachedTxInfo_def)

lemma CheckTx_current:
  assumes "CheckTx te db txBytes ct app = Inr (app', r)"
  shows "currentInfo app' = currentInfo app"
  using assms by (auto simp: CheckTx_def split: if_splits sum.splits dest: validateTx_current)

lemma BeginBlock_current:
  assumes "BeginBlock e db en w req app = Inr app'"
  shows "currentInfo app' = currentInfo app"
  using assms by (auto simp: BeginBlock_def Let_def setCurrentState_def be_UpdateHeaderWithTimeInfo_def)

lemma be_DeliverTx_current:
  assumes "be_DeliverTx en tx i (b, w) = ((b', w'), r)"
  shows "currentTxInfo b' = currentTxInfo b"
  using assms by (auto simp: be_DeliverTx_def Let_def split: prod.splits)

lemma app_DeliverTx_current:
  assumes "app_DeliverTx en te txBytes app = Inr (app', r)"
  shows "currentInfo app' = currentInfo app"
  using assms unfolding app_DeliverTx_def
  by (auto simp: Let_def setWorld_def DeleteCachedTxInfo_def split: sum.splits prod.splits if_splits
      dest!: be_DeliverTx_current)

lemma EndBlock_current:
  assumes "EndBlock e w cH uC ordV ordA height seed app = Some (Inr (app', resp))"
  shows "currentInfo app' = currentInfo app"
  using assms
  by (auto simp: EndBlock_def epochChange_def Let_def mapBackend_def split: sum.splits if_splits)

lemma Commit_current:
  assumes "app_Commit e db ps en app = Inr (app', h)"
  shows "currentInfo app' = currentInfo app"
  using assms
  by (auto simp: app_Commit_def be_AccumulateRewards_def be_Commit_def Let_def setCurrentState_def
      split: prod.splits dest!: SetPersistenceData_Inr)

lemma handles_current: "handles N app app' \<Longrightarrow> currentInfo app' = currentInfo app"
  by (induction rule: handles.induct)
    (auto simp: endOf_def dest: CheckTx_current BeginBlock_current app_DeliverTx_current EndBlock_current Commit_current)

section \<open>The invariant\<close>

text \<open>The number of times the flow limit was set and the counter, after \<open>n\<close> rounds.\<close>

definition flowSetsAfter :: "nat \<Rightarrow> nat" where
  "flowSetsAfter n = (n - 1) div 1025"

definition countAfter :: "nat \<Rightarrow> int" where
  "countAfter n = (if n = 0 then 0 else int ((n - 1) mod 1025) + 1)"

definition forward_inv :: "('c, 'b, 's, 'l, 'x) forwarder \<Rightarrow> bool" where
  "forward_inv f \<longleftrightarrow>
     map fst (fw_done f) @ (case fw_cur f of None \<Rightarrow> [] | Some obj \<Rightarrow> [obj]) @ fw_chan f = fw_sent f \<and>
     length (fw_chan f) \<le> chanCapacity \<and>
     bl_results (fw_loop f) = map snd (fw_done f) \<and>
     bl_removed (fw_loop f) = map (\<lambda>d. tx_Hash (ev_Tx (fst d))) (filter (\<lambda>d. snd d \<noteq> None) (fw_done f)) \<and>
     bl_flowSets (fw_loop f) = flowSetsAfter (length (fw_done f)) \<and>
     txCount (fw_loop f) = countAfter (length (fw_done f)) \<and>
     (\<forall>obj. fw_cur f = Some obj \<longrightarrow> currentInfo (fw_app f) = eventInfo obj)"

lemma countAfter_Suc:
  "countAfter n > 1024 \<Longrightarrow> flowSetsAfter (Suc n) = flowSetsAfter n + 1 \<and> countAfter (Suc n) = 1"
  "\<not> countAfter n > 1024 \<Longrightarrow> flowSetsAfter (Suc n) = flowSetsAfter n \<and> countAfter (Suc n) = countAfter n + 1"
  by (cases n; auto simp: countAfter_def flowSetsAfter_def mod_Suc div_Suc split: if_splits)+

lemma countAfter_bounds: "0 \<le> countAfter n \<and> countAfter n \<le> 1025"
proof -
  have "(n - 1) mod 1025 < 1025" by (rule mod_less_divisor) simp
  then show ?thesis by (auto simp: countAfter_def)
qed

lemma broadcastDone_fields:
  assumes "bl_flowSets bl = flowSetsAfter n" and "txCount bl = countAfter n"
  shows "bl_program (broadcastDone obj (p, err) bl) = p"
    and "bl_results (broadcastDone obj (p, err) bl) = bl_results bl @ [err]"
    and "bl_removed (broadcastDone obj (p, err) bl) =
      bl_removed bl @ (if err \<noteq> None then [tx_Hash (ev_Tx obj)] else [])"
    and "bl_flowSets (broadcastDone obj (p, err) bl) = flowSetsAfter (Suc n)"
    and "txCount (broadcastDone obj (p, err) bl) = countAfter (Suc n)"
proof -
  have "i64 (countAfter n + 1) = countAfter n + 1" "i64 1 = 1"
    using countAfter_bounds [of n] by (simp_all add: i64_id is_i64_def)
  then show "bl_flowSets (broadcastDone obj (p, err) bl) = flowSetsAfter (Suc n)"
    and "txCount (broadcastDone obj (p, err) bl) = countAfter (Suc n)"
    using assms countAfter_Suc [of n] by (simp_all add: broadcastDone_def Let_def)
qed (simp_all add: broadcastDone_def Let_def)

lemma forwards_inv: "forwards N encode app0 f \<Longrightarrow> forward_inv f"
proof (induction rule: forwards.induct)
  case f_start
  then show ?case by (simp add: forward_inv_def startLoop_def flowSetsAfter_def countAfter_def)
next
  case (f_send f ev)
  then show ?case by (auto simp: forward_inv_def sendEvent_def)
next
  case (f_take f obj rest)
  then show ?case by (auto simp: forward_inv_def takeEvent_def mapBackend_def setCurrentTxInfo_def)
next
  case (f_handler f app')
  then show ?case by (simp add: forward_inv_def handles_current)
next
  case (f_broadcast f obj refusal)
  obtain p err where pe: "BroadcastTx encode (CheckTxLocal (ne_te N) (ne_db N) refusal) (ev_Tx obj) (fw_app f) = (p, err)"
    by fastforce
  have "bl_flowSets (fw_loop f) = flowSetsAfter (length (fw_done f))" "txCount (fw_loop f) = countAfter (length (fw_done f))"
    using f_broadcast.IH by (simp_all add: forward_inv_def)
  note d = broadcastDone_fields [OF this]
  show ?case
    using f_broadcast.IH f_broadcast.hyps(2) pe by (simp add: forward_inv_def broadcastEvent_def d)
qed

text \<open>C15. The forwarding loop loses nothing and repeats nothing, whatever the other goroutines do. In every
  reachable state the events already answered, the one being worked on and those waiting in the channel
  are, in this order, exactly the events the pool has sent; every answered event got one answer; the
  transactions removed from the pool are those answered with an error; the channel never holds more than
  its capacity; and the flow limit was set once for every 1025 events.\<close>

theorem forwarding_exact:
  assumes "forwards N encode app0 f"
  shows "map fst (fw_done f) @ (case fw_cur f of None \<Rightarrow> [] | Some obj \<Rightarrow> [obj]) @ fw_chan f = fw_sent f \<and>
    length (fw_chan f) \<le> chanCapacity \<and>
    bl_results (fw_loop f) = map snd (fw_done f) \<and>
    bl_removed (fw_loop f) = map (\<lambda>d. tx_Hash (ev_Tx (fst d))) (filter (\<lambda>d. snd d \<noteq> None) (fw_done f)) \<and>
    bl_flowSets (fw_loop f) = (length (fw_done f) - 1) div 1025"
  using forwards_inv [OF assms] by (simp add: forward_inv_def flowSetsAfter_def)

section \<open>Every transaction is checked with its own sender\<close>

lemma CheckTx_Local_total:
  assumes "ti_Tx (currentInfo app) = Some tx"
  shows "\<exists>app' r. CheckTx te db txBytes CheckTxType_Local app = Inr (app', r)"
  using assms checkState_no_panic [of te db "a_vars app"]
  by (cases "CheckTx te db txBytes CheckTxType_Local app")
    (auto simp: CheckTx_def validateTx_def Let_def txInfoFor_def goOn_def split: sum.splits if_splits)

text \<open>Before the loop has stored anything, the transaction of the current info is a nil pointer.\<close>

lemma CheckTx_Local_nil:
  assumes "ti_Tx (currentInfo app) = None"
  shows "CheckTx te db txBytes CheckTxType_Local app = Inl NilDeref"
  using assms by (simp add: CheckTx_def)

lemma CheckTx_Local_accepted:
  assumes "ti_Tx (currentInfo app) = Some tx" and "CheckTx te db txBytes CheckTxType_Local app = Inr (app', r)" and "rc_Code r = CodeOK"
  shows "FetchCachedTxInfo (tx_Hash tx) (a_backend app') = Some (currentInfo app)"
    and "\<exists>gas. checkState te db (a_vars app) (be_GasLimit (a_backend app)) (ws_height (be_work (a_backend app)))
      tx (currentInfo app) (a_checkTxState app) = goOn (a_checkTxState app', gas)"
proof -
  have "validated te db tx CheckTxType_Local app app' r"
    using assms(1,2) by (simp add: CheckTx_def validateTx_validated)
  then show "FetchCachedTxInfo (tx_Hash tx) (a_backend app') = Some (currentInfo app)"
    and "\<exists>gas. checkState te db (a_vars app) (be_GasLimit (a_backend app)) (ws_height (be_work (a_backend app)))
      tx (currentInfo app) (a_checkTxState app) = goOn (a_checkTxState app', gas)"
    using assms(3)
    by (auto elim!: validatedE simp: rejectTx_def txInfoFor_def InsertCachedTxInfo_def FetchCachedTxInfo_def)
qed

lemma CheckTx_Local_rejected:
  assumes "ti_Tx (currentInfo app) = Some tx" and "CheckTx te db txBytes CheckTxType_Local app = Inr (app', r)" and "rc_Code r \<noteq> CodeOK"
  shows "app' = app"
proof -
  have "validated te db tx CheckTxType_Local app app' r"
    using assms(1,2) by (simp add: CheckTx_def validateTx_validated)
  then show ?thesis using assms(3) by (auto elim!: validatedE)
qed

text \<open>C14. A local transaction is checked with the sender it came with. The loop writes the info of an event
  into the backend and the check reads it back later, without a lock around both, and any handler may
  run in between; still, whenever the loop broadcasts an event it took, the check that accepts it was made
  with the sender, relayer and inner transaction of that very event, and these are what is cached for its
  delivery. An event that is not accepted leaves the application as it was.\<close>

theorem forwarding_own_info:
  assumes "forwards N encode app0 f" and "fw_cur f = Some obj"
    and "f' = broadcastEvent (ne_te N) (ne_db N) encode refusal obj f"
  shows "\<exists>err. fw_done f' = fw_done f @ [(obj, err)] \<and>
    (if err = None then
       FetchCachedTxInfo (tx_Hash (ev_Tx obj)) (a_backend (fw_app f')) = Some (eventInfo obj) \<and>
       (\<exists>gas. checkState (ne_te N) (ne_db N) (a_vars (fw_app f)) (be_GasLimit (a_backend (fw_app f)))
          (ws_height (be_work (a_backend (fw_app f)))) (ev_Tx obj) (eventInfo obj) (a_checkTxState (fw_app f)) =
          goOn (a_checkTxState (fw_app f'), gas))
     else fw_app f' = fw_app f)"
proof -
  have inv: "forward_inv f" by (rule forwards_inv [OF assms(1)])
  then have cur: "currentInfo (fw_app f) = eventInfo obj" using assms(2) by (simp add: forward_inv_def)
  obtain p err where pe: "BroadcastTx encode (CheckTxLocal (ne_te N) (ne_db N) refusal) (ev_Tx obj) (fw_app f) = (p, err)"
    by fastforce
  have f': "fw_done f' = fw_done f @ [(obj, err)]" "fw_app f' = p"
    using pe by (simp_all add: assms(3) broadcastEvent_def broadcastDone_def Let_def)
  have tx: "ti_Tx (currentInfo (fw_app f)) = Some (ev_Tx obj)" by (simp add: cur eventInfo_def)
  show ?thesis
  proof (cases "\<exists>txBytes. encode (ev_Tx obj) = Inr txBytes \<and> refusal = None")
    case True
    then obtain txBytes where e: "encode (ev_Tx obj) = Inr txBytes" and r: "refusal = None" by blast
    obtain app' resp where c: "CheckTx (ne_te N) (ne_db N) txBytes CheckTxType_Local (fw_app f) = Inr (app', resp)"
      using CheckTx_Local_total [OF tx] by blast
    with pe e r have "p = app'" and "err = (if rc_Code resp \<noteq> CodeOK then Some (CheckTxFailed resp) else None)"
      by (auto simp: BroadcastTx_def CheckTxLocal_def)
    then show ?thesis
      using f' CheckTx_Local_accepted [OF tx c] CheckTx_Local_rejected [OF tx c] by (auto simp: cur)
  next
    case False
    with pe have "p = fw_app f \<and> err \<noteq> None" by (auto simp: BroadcastTx_def CheckTxLocal_def split: sum.splits)
    with f' show ?thesis by auto
  qed
qed

text \<open>Without another goroutine in between, taking an event and broadcasting it is one round of the
  loop.\<close>

lemma take_broadcast_round:
  assumes "fw_chan f = obj # rest"
  shows "fw_loop (broadcastEvent te db encode refusal obj (takeEvent obj rest f)) =
    broadcastStep encode (CheckTxLocal te db refusal) (\<lambda>i. mapBackend (setCurrentTxInfo i)) obj (fw_loop f)"
  by (simp add: broadcastEvent_def takeEvent_def broadcastStep_def broadcastDone_def Let_def)

section \<open>Witnesses\<close>

definition sampleEvent :: "uint64 \<Rightarrow> TxPreEvent" where
  "sampleEvent n = \<lparr>ev_Tx = sampleTx n, ev_From = 1, ev_Relayer = 0, ev_SubTx = None\<rparr>"

definition sampleTaken :: "(Header list, Header, store, unit, unit) forwarder" where
  "sampleTaken = takeEvent (sampleEvent 0) [sampleEvent 1] (sendEvent (sampleEvent 1) (sendEvent (sampleEvent 0) (startLoop sampleNode)))"

lemma sample_taken: "forwards sampleNodeEnv (\<lambda>tx. Inr [0]) sampleNode sampleTaken"
  unfolding sampleTaken_def
  by (rule f_take, rule f_send, rule f_send, rule f_start)
    (simp_all add: startLoop_def sendEvent_def chanCapacity_def)

theorem forwarding_exact_witness:
  "forwards sampleNodeEnv (\<lambda>tx. Inr [0]) sampleNode
     (broadcastEvent sampleTxEnv sampleStoreDb (\<lambda>tx. Inr [0]) (Some ''full'') (sampleEvent 0) sampleTaken) \<and>
   bl_removed (fw_loop (broadcastEvent sampleTxEnv sampleStoreDb (\<lambda>tx. Inr [0]) (Some ''full'') (sampleEvent 0) sampleTaken)) =
     [tx_Hash (sampleTx 0)]"
proof -
  let ?f = "broadcastEvent sampleTxEnv sampleStoreDb (\<lambda>tx. Inr [0]) (Some ''full'') (sampleEvent 0) sampleTaken"
  have "fw_cur sampleTaken = Some (sampleEvent 0)" by (simp add: sampleTaken_def takeEvent_def)
  from f_broadcast [OF sample_taken this, of "Some ''full''"]
  have r: "forwards sampleNodeEnv (\<lambda>tx. Inr [0]) sampleNode ?f" by (simp add: sampleNodeEnv_def)
  have "fw_done ?f = [(sampleEvent 0, Some (BroadcastFailed ''full''))]"
    by (simp add: broadcastEvent_def BroadcastTx_def CheckTxLocal_def Let_def sampleTaken_def takeEvent_def sendEvent_def
        startLoop_def)
  with forwarding_exact [OF r] r show ?thesis by (simp add: sampleEvent_def)
qed

theorem forwarding_own_info_witness:
  "\<exists>f'. f' = broadcastEvent sampleTxEnv sampleStoreDb (\<lambda>tx. Inr [0]) None (sampleEvent 0) sampleTaken \<and>
    FetchCachedTxInfo (tx_Hash (sampleTx 0)) (a_backend (fw_app f')) = Some (eventInfo (sampleEvent 0))"
proof -
  let ?f' = "broadcastEvent sampleTxEnv sampleStoreDb (\<lambda>tx. Inr [0]) None (sampleEvent 0) sampleTaken"
  have N: "ne_te sampleNodeEnv = sampleTxEnv" "ne_db sampleNodeEnv = sampleStoreDb" by (simp_all add: sampleNodeEnv_def)
  have cur: "fw_cur sampleTaken = Some (sampleEvent 0)" by (simp add: sampleTaken_def takeEvent_def)
  have "fw_done ?f' = fw_done sampleTaken @ [(sampleEvent 0, None)]"
    by (simp add: broadcastEvent_def BroadcastTx_def CheckTxLocal_def Let_def sampleTaken_def takeEvent_def sendEvent_def
        startLoop_def CheckTx_def validateTx_def txInfoFor_def mapBackend_def setCurrentTxInfo_def eventInfo_def
        sampleEvent_def sampleTx_def checkState_def sampleTxEnv_def sampleStoreDb_def payerBalance_def isRelayInfo_def
        chargeCost_def goOn_def unlessErr_def verdict_bind_def creditValue_def be_GasLimit_def es_GasLimit_def
        sample_node_defs maxTransactionSize_def)
  with forwarding_own_info [OF sample_taken cur, unfolded N, OF refl, of None] show ?thesis
    by (auto simp: sampleEvent_def)
qed

end
