(* ===== verification/Logging.thy ===== *)
theory Logging
  imports CmdConfig
begin

text \<open>
  \<open>src/cmd/utils/log.go\<close>: the set-up of go-ethereum's log and the logger that is given to the ABCI
  server, which passes its own key values on before those of a call. A logger is a Go struct with a
  slice in it, and its methods \<open>append\<close> to that slice, so what one logger does can be seen by another
  that shares the array: the arrays are an explicit store, a slice is a pointer into it with a length
  and a capacity, and \<open>append\<close> writes in place while the capacity lasts.
\<close>

section \<open>Slices\<close>

type_synonym 'v arrays = "'v list list"

record slice =
  gs_ptr :: nat
  gs_len :: nat
  gs_cap :: nat

definition contents :: "'v arrays \<Rightarrow> slice \<Rightarrow> 'v list" where
  "contents A s = take (gs_len s) (A ! gs_ptr s)"

definition allocate :: "'v list \<Rightarrow> nat \<Rightarrow> 'v arrays \<Rightarrow> 'v arrays \<times> slice" where
  "allocate xs n A = (A @ [xs], \<lparr>gs_ptr = length A, gs_len = n, gs_cap = length xs\<rparr>)"

text \<open>The capacity after growing is up to the runtime, \<open>grow cap needed\<close>; \<open>zero\<close> fills the rest.\<close>

definition append_slice ::
  "(nat \<Rightarrow> nat \<Rightarrow> nat) \<Rightarrow> 'v \<Rightarrow> slice \<Rightarrow> 'v list \<Rightarrow> 'v arrays \<Rightarrow> 'v arrays \<times> slice" where
  "append_slice grow zero s xs A =
     (let n = gs_len s + length xs; a = A ! gs_ptr s in
      if n \<le> gs_cap s
      then (A[gs_ptr s := take (gs_len s) a @ xs @ drop n a], s\<lparr>gs_len := n\<rparr>)
      else allocate (contents A s @ xs @ replicate (grow (gs_cap s) n - n) zero) n A)"

definition slice_ok :: "'v arrays \<Rightarrow> slice \<Rightarrow> bool" where
  "slice_ok A s \<longleftrightarrow> gs_ptr s < length A \<and> length (A ! gs_ptr s) = gs_cap s \<and> gs_len s \<le> gs_cap s"

section \<open>The logger\<close>

record ethermintLogger =
  keyvals :: slice

definition EthermintLogger :: "'v arrays \<Rightarrow> 'v arrays \<times> ethermintLogger" where
  "EthermintLogger A = (let (A', s) = allocate [] 0 A in (A', \<lparr>keyvals = s\<rparr>))"

datatype logLevel = LvlDebug | LvlInfo | LvlError

text \<open>A line of go-ethereum's log: level, message, key values.\<close>

type_synonym 'v logLine = "logLevel \<times> string \<times> 'v list"

definition logger_line ::
  "(nat \<Rightarrow> nat \<Rightarrow> nat) \<Rightarrow> 'v \<Rightarrow> logLevel \<Rightarrow> ethermintLogger \<Rightarrow> string \<Rightarrow> 'v list \<Rightarrow> 'v arrays \<Rightarrow> 'v arrays \<times> 'v logLine" where
  "logger_line grow zero lvl l msg ctx A =
     (let (A', ctx') = append_slice grow zero (keyvals l) ctx A in (A', (lvl, msg, contents A' ctx')))"

definition logger_Debug ::
  "(nat \<Rightarrow> nat \<Rightarrow> nat) \<Rightarrow> 'v \<Rightarrow> ethermintLogger \<Rightarrow> string \<Rightarrow> 'v list \<Rightarrow> 'v arrays \<Rightarrow> 'v arrays \<times> 'v logLine" where
  "logger_Debug grow zero = logger_line grow zero LvlDebug"

definition logger_Info ::
  "(nat \<Rightarrow> nat \<Rightarrow> nat) \<Rightarrow> 'v \<Rightarrow> ethermintLogger \<Rightarrow> string \<Rightarrow> 'v list \<Rightarrow> 'v arrays \<Rightarrow> 'v arrays \<times> 'v logLine" where
  "logger_Info grow zero = logger_line grow zero LvlInfo"

definition logger_Error ::
  "(nat \<Rightarrow> nat \<Rightarrow> nat) \<Rightarrow> 'v \<Rightarrow> ethermintLogger \<Rightarrow> string \<Rightarrow> 'v list \<Rightarrow> 'v arrays \<Rightarrow> 'v arrays \<times> 'v logLine" where
  "logger_Error grow zero = logger_line grow zero LvlError"

definition logger_With ::
  "(nat \<Rightarrow> nat \<Rightarrow> nat) \<Rightarrow> 'v \<Rightarrow> ethermintLogger \<Rightarrow> 'v list \<Rightarrow> 'v arrays \<Rightarrow> 'v arrays \<times> ethermintLogger" where
  "logger_With grow zero l ctx A =
     (let (A', s) = append_slice grow zero (keyvals l) ctx A in (A', l\<lparr>keyvals := s\<rparr>))"

section \<open>The set-up\<close>

text \<open>The package's handler: where it writes, in colour or not, and up to which level; \<open>lg_root\<close> says
  that it is the handler of go-ethereum's log.\<close>

datatype logOutput = Stderr | ColorableStderr

record glogHandler =
  lg_output :: logOutput
  lg_color :: bool
  lg_verbosity :: int
  lg_root :: bool

definition log_init :: "bool \<Rightarrow> string \<Rightarrow> glogHandler" where
  "log_init isTty termEnv =
     (let usecolor = isTty \<and> termEnv \<noteq> ''dumb'' in
      \<lparr>lg_output = (if usecolor then ColorableStderr else Stderr), lg_color = usecolor, lg_verbosity = 0, lg_root = False\<rparr>)"

definition Setup :: "cliContext \<Rightarrow> glogHandler \<Rightarrow> glogHandler" where
  "Setup ctx g = g\<lparr>lg_verbosity := GlobalInt ctx (ownName VerbosityFlag), lg_root := True\<rparr>"

section \<open>What append does\<close>

lemma append_slice_contents:
  assumes "slice_ok A s" and "append_slice grow zero s xs A = (A', s')"
  shows "contents A' s' = contents A s @ xs"
proof (cases "gs_len s + length xs \<le> gs_cap s")
  case True
  with assms show ?thesis by (auto simp: append_slice_def contents_def slice_ok_def Let_def)
next
  case False
  with assms show ?thesis by (auto simp: append_slice_def allocate_def contents_def slice_ok_def Let_def min_def)
qed

lemma append_slice_ok:
  assumes "slice_ok A s" and "append_slice grow zero s xs A = (A', s')"
  shows "slice_ok A' s'"
  using assms by (auto simp: append_slice_def allocate_def contents_def slice_ok_def Let_def min_def split: if_splits)

text \<open>Another slice keeps its contents unless it shares the array and reaches further, and there is
  room to write into.\<close>

lemma append_slice_keeps:
  assumes "slice_ok A s" and "slice_ok A t" and "append_slice grow zero s xs A = (A', s')"
    and "gs_ptr t \<noteq> gs_ptr s \<or> gs_len t \<le> gs_len s \<or> gs_cap s < gs_len s + length xs"
  shows "contents A' t = contents A t \<and> slice_ok A' t"
proof (cases "gs_len s + length xs \<le> gs_cap s")
  case True
  with assms show ?thesis
    by (cases "gs_ptr t = gs_ptr s") (auto simp: append_slice_def contents_def slice_ok_def Let_def min_def)
next
  case False
  with assms show ?thesis
    by (auto simp: append_slice_def allocate_def contents_def slice_ok_def Let_def nth_append)
qed

section \<open>Properties\<close>

lemma EthermintLogger_ok:
  assumes "EthermintLogger A = (A', l)"
  shows "slice_ok A' (keyvals l) \<and> contents A' (keyvals l) = []"
  using assms by (auto simp: EthermintLogger_def allocate_def slice_ok_def contents_def)

text \<open>A line carries the logger's key values followed by those of the call, and the logger keeps its
  own.\<close>

lemma logger_line_spec:
  assumes "slice_ok A (keyvals l)" and "logger_line grow zero lvl l msg ctx A = (A', line)"
  shows "line = (lvl, msg, contents A (keyvals l) @ ctx) \<and> contents A' (keyvals l) = contents A (keyvals l) \<and>
    slice_ok A' (keyvals l)"
proof -
  obtain s where a: "append_slice grow zero (keyvals l) ctx A = (A', s)" and "line = (lvl, msg, contents A' s)"
    using assms(2) by (auto simp: logger_line_def split: prod.splits)
  with append_slice_contents [OF assms(1) a] append_slice_keeps [OF assms(1,1) a] show ?thesis by simp
qed

lemma logger_With_spec:
  assumes "slice_ok A (keyvals l)" and "logger_With grow zero l ctx A = (A', l')"
  shows "slice_ok A' (keyvals l') \<and> contents A' (keyvals l') = contents A (keyvals l) @ ctx \<and>
    contents A' (keyvals l) = contents A (keyvals l)"
proof -
  obtain s where a: "append_slice grow zero (keyvals l) ctx A = (A', s)" and "keyvals l' = s"
    using assms(2) by (auto simp: logger_With_def split: prod.splits)
  with append_slice_contents [OF assms(1) a] append_slice_keeps [OF assms(1,1) a] append_slice_ok [OF assms(1) a]
  show ?thesis by simp
qed

text \<open>C37. Loggers derived from the same logger write into each other. A logger derived with \<open>With\<close> has the
  key values of its parent followed by its own. But if the parent's slice has room for them, the array is
  shared: as soon as the parent derives a second logger, or just logs a line, with as many key values, the
  first one's own key values are gone, and it logs the others' under its name. If the parent's slice is
  full, the derived logger keeps its key values.\<close>

theorem logger_With_shared:
  assumes "slice_ok A (keyvals l)" and "logger_With grow zero l xs A = (A1, a)"
    and "length ys = length xs" and "xs \<noteq> []"
    and "logger_With grow zero l ys A1 = (A2, b) \<or> logger_line grow zero lvl l msg ys A1 = (A2, line)"
  shows "contents A1 (keyvals a) = contents A (keyvals l) @ xs \<and>
    contents A2 (keyvals a) =
      contents A (keyvals l) @ (if gs_len (keyvals l) + length xs \<le> gs_cap (keyvals l) then ys else xs)"
proof -
  let ?s = "keyvals l"
  obtain s where a: "append_slice grow zero ?s xs A = (A1, s)" and s: "keyvals a = s"
    using assms(2) by (auto simp: logger_With_def split: prod.splits)
  obtain t where t: "append_slice grow zero ?s ys A1 = (A2, t)"
    using assms(5) by (auto simp: logger_With_def logger_line_def split: prod.splits)
  have ok1: "slice_ok A1 ?s" and c: "contents A1 ?s = contents A ?s"
    using append_slice_keeps [OF assms(1,1) a] by simp_all
  have first: "contents A1 s = contents A ?s @ xs" by (rule append_slice_contents [OF assms(1) a])
  show ?thesis
  proof (cases "gs_len ?s + length xs \<le> gs_cap ?s")
    case True
    with a t assms(3) have "t = s" by (auto simp: append_slice_def Let_def)
    with append_slice_contents [OF ok1 t] c first True show ?thesis by (simp add: s)
  next
    case False
    have "slice_ok A1 s" by (rule append_slice_ok [OF assms(1) a])
    moreover have "gs_ptr s \<noteq> gs_ptr ?s"
      using a False assms(1) by (auto simp: append_slice_def allocate_def slice_ok_def Let_def)
    ultimately have "contents A2 s = contents A1 s" using append_slice_keeps [OF ok1 _ t] by blast
    with first False show ?thesis by (simp add: s)
  qed
qed

text \<open>With the doubling of Go's runtime, three derivations from the empty logger are enough.\<close>

definition doubling :: "nat \<Rightarrow> nat \<Rightarrow> nat" where
  "doubling cap needed = (if needed > 2 * cap then needed else 2 * cap)"

definition sampleLogger :: "nat arrays \<times> ethermintLogger" where
  "sampleLogger =
     (let (A0, l0) = EthermintLogger []; (A1, l1) = logger_With doubling 0 l0 [1, 2] A0;
          (A2, l2) = logger_With doubling 0 l1 [3, 4] A1 in logger_With doubling 0 l2 [5, 6] A2)"

theorem logger_With_shared_witness:
  "\<exists>A l A1 a A2 b. sampleLogger = (A, l) \<and> logger_With doubling 0 l [7, 8] A = (A1, a) \<and>
    logger_With doubling 0 l [9, 10] A1 = (A2, b) \<and>
    contents A1 (keyvals a) = [1, 2, 3, 4, 5, 6, 7, 8] \<and> contents A2 (keyvals a) = [1, 2, 3, 4, 5, 6, 9, 10]"
proof -
  obtain A l where l: "sampleLogger = (A, l)" by fastforce
  then have f: "slice_ok A (keyvals l)" "contents A (keyvals l) = [1, 2, 3, 4, 5, 6]"
    "gs_len (keyvals l) = 6" "gs_cap (keyvals l) = 8"
    by (auto simp: sampleLogger_def EthermintLogger_def logger_With_def allocate_def append_slice_def contents_def
        slice_ok_def doubling_def numeral_nat)
  obtain A1 a where a: "logger_With doubling 0 l [7, 8] A = (A1, a)" by fastforce
  obtain A2 b where b: "logger_With doubling 0 l [9, 10] A1 = (A2, b)" by fastforce
  have "contents A1 (keyvals a) = [1, 2, 3, 4, 5, 6, 7, 8] \<and> contents A2 (keyvals a) = [1, 2, 3, 4, 5, 6, 9, 10]"
    using logger_With_shared [OF f(1) a, of "[9, 10]" A2 b] b f(2-4) by simp
  with l a b show ?thesis by blast
qed

end
