(* ===== verification/Services.thy ===== *)
theory Services
  imports Command Forwarding Logging
begin

text \<open>
  The objects around the working state and their life: \<open>EthState\<close> of \<open>src/ethereum/eth_state.go\<close>, whose
  pointers are set after its creation; the service of \<open>src/ethereum/backend.go\<close>, which is
  started and stopped and gets Tendermint's memory pool later; the whole of \<open>ethermintCmd\<close>; the goroutines of \<open>startNode\<close>
  (\<open>src/cmd/dtfn/dtfn.go\<close>, wallets) and \<open>StartNode\<close> (\<open>src/cmd/utils/utils.go\<close>, interrupts); the wrappers of
  \<open>src/app/utils.go\<close> around a strategy that may be nil; and \<open>main\<close> of \<open>src/cmd/dtfn/main.go\<close>.
\<close>

section \<open>EthState\<close>

text \<open>\<open>ethereum\<close> is a pointer to the service that owns the chain, nil at first. The methods of the working
  state are those of theory \<open>EthState\<close>; the mutex serialises the calls.\<close>

record ('c, 'b, 's, 'l, 'g) EthStateObj =
  eo_ethereum :: "'c option"
  eo_ethConfig :: "'g option"
  eo_work :: "('b, 's, 'l) workState"

definition NewEthState :: "('b, 's, 'l) workState \<Rightarrow> ('c, 'b, 's, 'l, 'g) EthStateObj" where
  "NewEthState zeroWork = \<lparr>eo_ethereum = None, eo_ethConfig = None, eo_work = zeroWork\<rparr>"

definition SetEthereum :: "'c \<Rightarrow> ('c, 'b, 's, 'l, 'g) EthStateObj \<Rightarrow> ('c, 'b, 's, 'l, 'g) EthStateObj" where
  "SetEthereum ethereum es = es\<lparr>eo_ethereum := Some ethereum\<rparr>"

definition SetEthConfig :: "'g \<Rightarrow> ('c, 'b, 's, 'l, 'g) EthStateObj \<Rightarrow> ('c, 'b, 's, 'l, 'g) EthStateObj" where
  "SetEthConfig ethConfig es = es\<lparr>eo_ethConfig := Some ethConfig\<rparr>"

definition WorkState :: "('c, 'b, 's, 'l, 'g) EthStateObj \<Rightarrow> ('b, 's, 'l) workState" where
  "WorkState es = eo_work es"

definition ws_State :: "('b, 's, 'l) workState \<Rightarrow> 's" where "ws_State ws = ws_state ws"
definition ws_Height :: "('b, 's, 'l) workState \<Rightarrow> int" where "ws_Height ws = ws_height ws"
definition CurrentHeader :: "('b, 's, 'l) workState \<Rightarrow> Header" where "CurrentHeader ws = ws_header ws"

definition eo_DeliverTx ::
  "('c, 'b, 's, 'l, 'w) ethenv \<Rightarrow> Transaction \<Rightarrow> TxInfo \<Rightarrow> ('c, 'b, 's, 'l, 'g) EthStateObj \<times> 'w \<Rightarrow>
     panic + (('c, 'b, 's, 'l, 'g) EthStateObj \<times> 'w) \<times> ResponseDeliverTx" where
  "eo_DeliverTx en tx txInfo esw =
     (let (es, w) = esw in
      panic_bind (deref (eo_ethereum es)) (\<lambda>bc.
        let ((ws', w'), res) = deliverTx en bc tx txInfo (eo_work es, w) in
        Inr ((es\<lparr>eo_work := ws'\<rparr>, w'), res)))"

definition eo_AccumulateRewards ::
  "'s statedb \<Rightarrow> 'x Strategy \<Rightarrow> ('c, 'b, 's, 'l, 'g) EthStateObj \<Rightarrow> panic + ('c, 'b, 's, 'l, 'g) EthStateObj" where
  "eo_AccumulateRewards db st es =
     panic_bind (AccumulateRewards db st (eo_work es)) (\<lambda>ws'. Inr (es\<lparr>eo_work := ws'\<rparr>))"

definition eo_Commit ::
  "('c, 'b, 's, 'l, 'w) ethenv \<Rightarrow> ('c, 'b, 's, 'l, 'g) EthStateObj \<Rightarrow>
     panic + ('c, 'b, 's, 'l, 'g) EthStateObj \<times> (string + hash)" where
  "eo_Commit en es =
     panic_bind (deref (eo_ethereum es)) (\<lambda>bc.
       let ((bc', ws'), r) = es_Commit en bc (eo_work es) in
       Inr (es\<lparr>eo_ethereum := Some bc', eo_work := ws'\<rparr>, r))"

definition ResetWorkState ::
  "('c, 'b, 's, 'l, 'w) ethenv \<Rightarrow> address \<Rightarrow> ('c, 'b, 's, 'l, 'g) EthStateObj \<Rightarrow>
     panic + string + ('c, 'b, 's, 'l, 'g) EthStateObj" where
  "ResetWorkState en receiver es =
     panic_bind (deref (eo_ethereum es)) (\<lambda>bc.
       Inr (case resetWorkState en bc receiver of
              Inl err \<Rightarrow> Inl err
            | Inr ws \<Rightarrow> Inr (es\<lparr>eo_work := ws\<rparr>)))"

text \<open>The chain configuration is an argument of this one.\<close>

definition eo_UpdateHeaderWithTimeInfo ::
  "('c, 'b, 's, 'l, 'w) ethenv \<Rightarrow> 'c \<Rightarrow> uint64 \<Rightarrow> ('c, 'b, 's, 'l, 'g) EthStateObj \<Rightarrow> ('c, 'b, 's, 'l, 'g) EthStateObj" where
  "eo_UpdateHeaderWithTimeInfo en config parentTime es =
     es\<lparr>eo_work := updateHeaderWithTimeInfo en config parentTime (eo_work es)\<rparr>"

definition eo_UpdateHeaderCoinbase :: "address \<Rightarrow> ('c, 'b, 's, 'l, 'g) EthStateObj \<Rightarrow> ('c, 'b, 's, 'l, 'g) EthStateObj" where
  "eo_UpdateHeaderCoinbase coinbase es = es\<lparr>eo_work := updateHeaderCoinbase coinbase (eo_work es)\<rparr>"

text \<open>A block of what was delivered so far, and a copy of the state.\<close>

definition Pending :: "('c, 'b, 's, 'l, 'w) ethenv \<Rightarrow> ('c, 'b, 's, 'l, 'g) EthStateObj \<Rightarrow> 'b \<times> 's" where
  "Pending en es =
     (NewBlock en (ws_header (eo_work es)) (transactions (eo_work es)) (receipts (eo_work es)), ws_state (eo_work es))"

text \<open>Errors of the chain, which nothing raises.\<close>

record ChainError =
  ErrorCode :: int
  Description :: string

definition ChainError_Error :: "ChainError \<Rightarrow> string" where "ChainError_Error err = Description err"
definition chainError :: "int \<Rightarrow> string \<Rightarrow> ChainError" where "chainError c desc = \<lparr>ErrorCode = c, Description = desc\<rparr>"

subsection \<open>The backend's view of it\<close>

text \<open>The backend of theory \<open>Backend\<close> works on the chain and the working state directly; \<open>stateObj\<close> is
  the object it has them in.\<close>

definition stateObj :: "'g \<Rightarrow> ('c, 'b, 's, 'l) Backend \<Rightarrow> ('c, 'b, 's, 'l, 'g) EthStateObj" where
  "stateObj g b = \<lparr>eo_ethereum = Some (be_chain b), eo_ethConfig = Some g, eo_work = be_work b\<rparr>"

lemma NewBackend_stateObj:
  assumes "NewBackend ethNew quiesce zeroWork node cfg = Inr b"
  shows "stateObj g b = SetEthConfig g (SetEthereum (be_chain b) (NewEthState zeroWork))"
  using assms
  by (auto simp: NewBackend_def stateObj_def SetEthConfig_def SetEthereum_def NewEthState_def split: sum.splits)

text \<open>Once the two setters were called, the object behind the backend does what the backend's model says:
  delivery, rewards, commit, reset and header updates of \<open>EthState\<close> never meet a nil pointer and make the
  object of the state the backend's operations make. Before, delivery, commit and reset dereference
  nil.\<close>

lemma EthState_refines:
  shows "eo_DeliverTx en tx i (stateObj g b, w) =
      Inr ((stateObj g (fst (fst (be_DeliverTx en tx i (b, w)))), snd (fst (be_DeliverTx en tx i (b, w)))),
        snd (be_DeliverTx en tx i (b, w)))"
    and "eo_AccumulateRewards db st (stateObj g b) =
      panic_bind (be_AccumulateRewards db st b) (\<lambda>b'. Inr (stateObj g b'))"
    and "eo_Commit en (stateObj g b) = Inr (stateObj g (fst (be_Commit en b)), snd (be_Commit en b))"
    and "ResetWorkState en receiver (stateObj g b) =
      Inr (case InitEthState en receiver b of Inl err \<Rightarrow> Inl err | Inr b' \<Rightarrow> Inr (stateObj g b'))"
    and "eo_UpdateHeaderWithTimeInfo en (be_chain b) (word_of_int t) (stateObj g b) =
      stateObj g (be_UpdateHeaderWithTimeInfo en t b)"
    and "eo_DeliverTx en tx i (NewEthState zw, w) = Inl NilDeref" and "eo_Commit en (NewEthState zw) = Inl NilDeref"
    and "ResetWorkState en receiver (NewEthState zw) = Inl NilDeref"
  by (simp_all add: eo_DeliverTx_def be_DeliverTx_def eo_AccumulateRewards_def be_AccumulateRewards_def eo_Commit_def
      be_Commit_def ResetWorkState_def InitEthState_def eo_UpdateHeaderWithTimeInfo_def be_UpdateHeaderWithTimeInfo_def
      stateObj_def NewEthState_def panic_bind_def Let_def split: prod.splits sum.splits)

section \<open>The service\<close>

text \<open>The fields of the backend that have to do with its life. \<open>txSub\<close> is the subscription that \<open>Stop\<close> ends; nothing
  assigns it. \<open>bs_loops\<close> counts the forwarding loops that were started.\<close>

record ('c, 'b, 's, 'l, 'g, 'm) backendService =
  bs_backend :: "('c, 'b, 's, 'l) Backend"
  bs_ethConfig :: 'g
  bs_memPool :: "'m option"
  bs_txSub :: "unit option"
  bs_loops :: nat

definition newService :: "'g \<Rightarrow> ('c, 'b, 's, 'l) Backend \<Rightarrow> ('c, 'b, 's, 'l, 'g, 'm) backendService" where
  "newService ethConfig b = \<lparr>bs_backend = b, bs_ethConfig = ethConfig, bs_memPool = None, bs_txSub = None, bs_loops = 0\<rparr>"

definition svc_Ethereum :: "('c, 'b, 's, 'l, 'g, 'm) backendService \<Rightarrow> 'c" where
  "svc_Ethereum s = be_chain (bs_backend s)"

definition svc_Es :: "('c, 'b, 's, 'l, 'g, 'm) backendService \<Rightarrow> ('c, 'b, 's, 'l, 'g) EthStateObj" where
  "svc_Es s = stateObj (bs_ethConfig s) (bs_backend s)"

definition svc_Config :: "('c, 'b, 's, 'l, 'g, 'm) backendService \<Rightarrow> 'g" where
  "svc_Config s = bs_ethConfig s"

definition SetMemPool :: "'m \<Rightarrow> ('c, 'b, 's, 'l, 'g, 'm) backendService \<Rightarrow> ('c, 'b, 's, 'l, 'g, 'm) backendService" where
  "SetMemPool memPool s = s\<lparr>bs_memPool := Some memPool\<rparr>"

definition MemPool :: "('c, 'b, 's, 'l, 'g, 'm) backendService \<Rightarrow> 'm option" where
  "MemPool s = bs_memPool s"

definition CurrentTxInfo :: "('c, 'b, 's, 'l, 'g, 'm) backendService \<Rightarrow> TxInfo" where
  "CurrentTxInfo s = currentTxInfo (bs_backend s)"

definition CachedTxInfo :: "('c, 'b, 's, 'l, 'g, 'm) backendService \<Rightarrow> hash \<rightharpoonup> TxInfo" where
  "CachedTxInfo s = cachedTxInfo (bs_backend s)"

definition svc_Start :: "('c, 'b, 's, 'l, 'g, 'm) backendService \<Rightarrow> ('c, 'b, 's, 'l, 'g, 'm) backendService" where
  "svc_Start s = s\<lparr>bs_loops := bs_loops s + 1\<rparr>"

text \<open>\<open>Unsubscribe\<close> reads a field of the subscription it is called on.\<close>

definition svc_Stop ::
  "('c \<Rightarrow> 'c) \<Rightarrow> ('c, 'b, 's, 'l, 'g, 'm) backendService \<Rightarrow> panic + ('c, 'b, 's, 'l, 'g, 'm) backendService" where
  "svc_Stop ethStop s =
     panic_bind (deref (bs_txSub s)) (\<lambda>sub.
       Inr (s\<lparr>bs_backend := (bs_backend s)\<lparr>be_chain := ethStop (be_chain (bs_backend s))\<rparr>\<rparr>))"

definition Protocols :: "('c, 'b, 's, 'l, 'g, 'm) backendService \<Rightarrow> 'p list" where
  "Protocols s = []"

text \<open>The validator that accepts every block.\<close>

definition ValidateBody :: "'b \<Rightarrow> string option" where
  "ValidateBody block = None"

definition ValidateState :: "'b \<Rightarrow> 'b \<Rightarrow> 's \<Rightarrow> 'r list \<Rightarrow> uint64 \<Rightarrow> string option" where
  "ValidateState block parentBlock st rs usedGas = None"

text \<open>\<open>BroadcastTx\<close> of theory \<open>Backend\<close> with the memory pool of the service, an interface value that is nil until
  \<open>SetMemPool\<close>.\<close>

definition svc_BroadcastTx ::
  "(Transaction \<Rightarrow> string + bytes) \<Rightarrow> ('m \<Rightarrow> bytes \<Rightarrow> 'p \<Rightarrow> 'p \<times> (string + ResponseCheckTx)) \<Rightarrow> Transaction \<Rightarrow>
     ('c, 'b, 's, 'l, 'g, 'm) backendService \<Rightarrow> 'p \<Rightarrow> panic + 'p \<times> broadcastError option" where
  "svc_BroadcastTx encode checkLocal tx s p =
     (case encode tx of
        Inl err \<Rightarrow> Inr (p, Some (EncodeError err))
      | Inr txBytes \<Rightarrow>
          panic_bind (deref (bs_memPool s)) (\<lambda>memPool. Inr (BroadcastTx encode (checkLocal memPool) tx p)))"

text \<open>The end of \<open>Commit\<close>: a committed block is followed by a new limit for the transaction pool, the size of
  the memory pool, if flow control is on. While old blocks are replayed there is no memory pool yet. The
  operations of both pools are third-party.\<close>

record ('m, 'q) flowOps =
  IsFlowControlOpen :: "'q \<Rightarrow> bool"
  SetFlowLimit :: "int \<Rightarrow> 'q \<Rightarrow> 'q"
  SizeSnapshot :: "'m \<Rightarrow> int"

definition commitFlowLimit ::
  "('m, 'q) flowOps \<Rightarrow> ('c, 'b, 's, 'l, 'g, 'm) backendService \<Rightarrow> 'q \<Rightarrow> 'q" where
  "commitFlowLimit fo s txPool =
     (if IsFlowControlOpen fo txPool
      then case MemPool s of None \<Rightarrow> txPool | Some memPool \<Rightarrow> SetFlowLimit fo (SizeSnapshot fo memPool) txPool
      else txPool)"

definition svc_Commit ::
  "'x env \<Rightarrow> 's statedb \<Rightarrow> ('s, 'x) persist \<Rightarrow> ('c, 'b, 's, 'l, 'w) ethenv \<Rightarrow> ('m, 'q) flowOps \<Rightarrow>
     ('c, 'b, 's, 'l, 'g, 'm) backendService \<Rightarrow> ('c, 'b, 's, 'l, 'x) EthermintApplication \<times> 'q \<Rightarrow>
     panic + (('c, 'b, 's, 'l, 'x) EthermintApplication \<times> 'q) \<times> hash option" where
  "svc_Commit e db ps en fo s appq =
     (let (app, txPool) = appq in
      panic_bind (app_Commit e db ps en app) (\<lambda>(app', r).
        case r of
          None \<Rightarrow> Inr ((app', txPool), None)
        | Some blockHash \<Rightarrow> Inr ((app', commitFlowLimit fo s txPool), Some blockHash)))"

text \<open>The end of \<open>ethermintCmd\<close>: the branch that runs a Tendermint node gives its memory pool to the
  backend, the branch that runs an ABCI server does not.\<close>

definition wireMemPool ::
  "('t \<Rightarrow> 'm) \<Rightarrow> ('t, 'v) service \<Rightarrow> ('c, 'b, 's, 'l, 'g, 'm) backendService \<Rightarrow> ('c, 'b, 's, 'l, 'g, 'm) backendService" where
  "wireMemPool nodePool sv s =
     (case sv of RunsTendermint n \<Rightarrow> SetMemPool (nodePool n) s | RunsAbciServer srv \<Rightarrow> s)"

subsection \<open>Lemmas\<close>

text \<open>The histories of a service: created, started, given a memory pool, in any order and number, with
  any work of the application in between.\<close>

inductive service_runs :: "('c, 'b, 's, 'l, 'g, 'm) backendService \<Rightarrow> bool" where
  sr_new: "service_runs (newService g b)"
| sr_start: "service_runs s \<Longrightarrow> service_runs (svc_Start s)"
| sr_pool: "service_runs s \<Longrightarrow> service_runs (SetMemPool m s)"
| sr_work: "service_runs s \<Longrightarrow> service_runs (s\<lparr>bs_backend := b\<rparr>)"
| sr_stop: "service_runs s \<Longrightarrow> svc_Stop ethStop s = Inr s' \<Longrightarrow> service_runs s'"

lemma service_runs_txSub: "service_runs s \<Longrightarrow> bs_txSub s = None"
  by (induction rule: service_runs.induct)
    (auto simp: newService_def svc_Start_def SetMemPool_def svc_Stop_def panic_bind_def)

text \<open>The limit is no part of the application: with it, \<open>Commit\<close> returns when it does without and leaves the
  same state and hash, whether or not the service has a memory pool. And the limit is set exactly by a
  commit that succeeded, on a service with a memory pool, under flow control.\<close>

lemma svc_Commit_app:
  "map_sum id (\<lambda>((app', txPool'), r). (app', r)) (svc_Commit e db ps en fo s (app, txPool)) = app_Commit e db ps en app"
  by (cases "app_Commit e db ps en app") (auto simp: svc_Commit_def split: option.splits)

lemma svc_Commit_limit:
  assumes "svc_Commit e db ps en fo s (app, txPool) = Inr ((app', txPool'), r)"
  shows "txPool' = (case (r, MemPool s) of
    (Some h, Some m) \<Rightarrow> if IsFlowControlOpen fo txPool then SetFlowLimit fo (SizeSnapshot fo m) txPool else txPool
  | _ \<Rightarrow> txPool)"
  using assms by (auto simp: svc_Commit_def commitFlowLimit_def split: option.splits)

text \<open>Stopping the service always panics, before the Ethereum service is stopped.\<close>

lemma svc_Stop_panics: "service_runs s \<Longrightarrow> svc_Stop ethStop s = Inl NilDeref"
  by (simp add: svc_Stop_def service_runs_txSub)

text \<open>C35. A node forwards local transactions only if it runs Tendermint itself. However the command ends up
  serving, the backend it serves has a memory pool exactly if the flag \<open>with-tendermint\<close> was given; then a
  local transaction is broadcast through that pool, and otherwise the first one that can be encoded makes
  the forwarding loop, and with it the process, dereference a nil memory pool.\<close>

theorem forwarding_needs_tendermint:
  assumes "serve tn te fe sv ctx tmConfig fs = (Inr running, fs')" and "encode tx = Inr txBytes"
  shows "\<exists>pool. MemPool (wireMemPool nodePool running (svc_Start (newService g b))) = pool \<and>
    (pool \<noteq> None \<longleftrightarrow> canInvokeTendermint ctx) \<and>
    svc_BroadcastTx encode checkLocal tx (wireMemPool nodePool running (svc_Start (newService g b))) p =
      (case pool of None \<Rightarrow> Inl NilDeref | Some m \<Rightarrow> Inr (BroadcastTx encode (checkLocal m) tx p))"
proof -
  have "(\<exists>n. running = RunsTendermint n) = canInvokeTendermint ctx"
    using assms(1) by (auto simp: serve_def split: if_splits sum.splits prod.splits)
  with assms(2) show ?thesis
    by (cases running)
      (auto simp: svc_BroadcastTx_def wireMemPool_def SetMemPool_def MemPool_def svc_Start_def newService_def)
qed

definition sampleTmNode :: "(string \<rightharpoonup> (nat, nat) GenesisDoc, string, nat, nat, nat) tmnode" where
  "sampleTmNode = \<lparr>tn_LoadOrGenNodeKey = \<lambda>path fs. Inr (7, fs), tn_NewNode = \<lambda>c k nk. Inr nk, tn_Start = Inr\<rparr>"

definition sampleAbci :: "unit abciserver" where
  "sampleAbci = \<lparr>srv_New = \<lambda>addr proto. Inr (), srv_Start = \<lambda>v. None\<rparr>"

definition serveContext :: "bool \<Rightarrow> cliContext" where
  "serveContext withTendermint =
     \<lparr>GlobalString = \<lambda>n. [], GlobalInt = \<lambda>n. 0, GlobalInt64 = \<lambda>n. 0,
      GlobalBool = \<lambda>n. withTendermint \<and> n = ownName WithTendermintFlag, GlobalIsSet = \<lambda>n. False, Args = []\<rparr>"

lemma sample_serve:
  "serve sampleTmNode sampleTestnetenv docFiles sampleAbci (serveContext False) [] Map.empty =
    (Inr (RunsAbciServer ()), Map.empty)"
  by (simp add: serve_def startAbci_def sampleAbci_def canInvokeTendermint_def serveContext_def)

theorem forwarding_needs_tendermint_witness:
  "serve sampleTmNode sampleTestnetenv docFiles sampleAbci (serveContext False) [] Map.empty =
     (Inr (RunsAbciServer ()), Map.empty) \<and>
   svc_BroadcastTx (\<lambda>tx. Inr [0]) (\<lambda>m txBytes p. (p, Inl ''full'')) (sampleTx 0)
     (wireMemPool (\<lambda>n. n) (RunsAbciServer () :: (nat, unit) service)
       (svc_Start (newService () (a_backend sampleNode)))) () = Inl NilDeref"
  using forwarding_needs_tendermint [OF sample_serve, where encode = "\<lambda>tx. Inr [0]" and tx = "sampleTx 0" and txBytes = "[0]"
      and nodePool = "\<lambda>n. n" and g = "()" and b = "a_backend sampleNode"
      and checkLocal = "\<lambda>m txBytes p. (p, Inl ''full'')" and p = "()"] sample_serve
  by (simp add: canInvokeTendermint_def serveContext_def)

section \<open>The command that runs a node\<close>

text \<open>Deferred calls run when the command returns and when it panics, but not when it exits the process; a
  panic in one of them is the panic the process ends with. Of the service \<open>Stop\<close> only looks at \<open>txSub\<close>
  before it may panic.\<close>

definition deferStop ::
  "('c \<Rightarrow> 'c) \<Rightarrow> ('c, 'b, 's, 'l, 'g, 'm) backendService \<Rightarrow> (cmdError + 'r) \<times> 'f \<Rightarrow> (cmdError + 'r) \<times> 'f" where
  "deferStop ethStop svc res =
     (case res of
        (Inl (Fatalf msg), fs) \<Rightarrow> res
      | (Inl err, fs) \<Rightarrow> (case svc_Stop ethStop svc of Inl p \<Rightarrow> (Inl (CmdPanic p), fs) | Inr svc' \<Rightarrow> res)
      | (Inr r, fs) \<Rightarrow> res)"

text \<open>A command that serves does not return: the result is the application, what it runs and the backend's
  memory pool.\<close>

definition ethermintCmd ::
  "(string \<Rightarrow> string + bytes) \<Rightarrow> (bytes \<Rightarrow> conf \<Rightarrow> conf \<times> string option) \<Rightarrow> versionVars \<Rightarrow> osenv \<Rightarrow> ('n, 'm) gethenv \<Rightarrow>
     ('n \<Rightarrow> 'm ethConfig \<Rightarrow> string \<Rightarrow> string + ('c, 'b, 's, 'l) Backend) \<Rightarrow> ('ks, 'a) ksenv \<Rightarrow> string list \<Rightarrow>
     ('n \<Rightarrow> string option) \<Rightarrow> ('c \<Rightarrow> 'c) \<Rightarrow> (versionVars \<Rightarrow> ('c, 'b, 's, 'l) Backend \<Rightarrow> cmdError + 'app \<times> 'cfg) \<Rightarrow>
     ('cfg \<Rightarrow> 'f \<Rightarrow> (cmdError + ('t, 'v) service) \<times> 'f) \<Rightarrow> ('t \<Rightarrow> 'pool) \<Rightarrow> 'g \<Rightarrow> cliContext \<Rightarrow> 'ks \<Rightarrow> input \<Rightarrow> 'f \<Rightarrow>
     (cmdError + 'app \<times> ('t, 'v) service \<times> 'pool option) \<times> 'f" where
  "ethermintCmd readFile unmarshal w0 os ge newBackend kenv passwords attach ethStop makeApp serving nodePool g ctx s inp fs =
     (case versionConfig readFile unmarshal (GlobalString ctx (ownName VersionConfigFile))
             (GlobalInt ctx (ownName VersionConfigTypeFlag)) w0 of
        Inl p \<Rightarrow> (Inl (CmdPanic p), fs)
      | Inr w \<Rightarrow>
          (case MakeFullNode os ge newBackend ctx of
             Inl err \<Rightarrow> (Inl err, fs)
           | Inr (node, backend) \<Rightarrow>
               (case startNode os ge kenv passwords ctx node s inp of
                  (Inl err, s1, inp1) \<Rightarrow> (Inl err, fs)
                | (Inr node', s1, inp1) \<Rightarrow>
                    (let svc = svc_Start (newService g backend) in
                     deferStop ethStop svc
                       (case attach node' of
                          Some err \<Rightarrow> (Inl (Fatalf (''Failed to attach to the inproc geth: '' @ err)), fs)
                        | None \<Rightarrow>
                            (case makeApp w backend of
                               Inl err \<Rightarrow> (Inl err, fs)
                             | Inr (app, tmConfig) \<Rightarrow>
                                 (case serving tmConfig fs of
                                    (Inl err, fs1) \<Rightarrow> (Inl err, fs1)
                                  | (Inr sv, fs1) \<Rightarrow> (Inr (app, sv, MemPool (wireMemPool nodePool sv svc)), fs1))))))))"

lemma deferStop_started:
  "deferStop ethStop (svc_Start (newService g b)) (res, fs) =
     (case res of
        Inl (Fatalf m) \<Rightarrow> (Inl (Fatalf m), fs) | Inl (ReturnedErr m) \<Rightarrow> (Inl (CmdPanic NilDeref), fs)
      | Inl (CmdPanic p) \<Rightarrow> (Inl (CmdPanic NilDeref), fs) | Inr r \<Rightarrow> (Inr r, fs))"
  by (simp add: deferStop_def svc_Stop_def svc_Start_def newService_def split: sum.splits cmdError.splits)

lemma MakeFullNode_exits: "MakeFullNode os ge newBackend ctx \<noteq> Inl (ReturnedErr m)"
  by (auto simp: MakeFullNode_def makeConfigNode_def cmd_bind_def Let_def split: sum.splits prod.splits)

text \<open>An error of the Tendermint node, which the command returns, ends in the panic of the deferred
  \<open>Stop\<close>, and the error is lost.\<close>

lemma ethermintCmd_serving_fails:
  assumes "versionConfig readFile unmarshal (GlobalString ctx (ownName VersionConfigFile))
      (GlobalInt ctx (ownName VersionConfigTypeFlag)) w0 = Inr w"
    and "MakeFullNode os ge newBackend ctx = Inr (node, backend)"
    and "startNode os ge kenv passwords ctx node s inp = (Inr node', s1, inp1)" and "attach node' = None"
    and "makeApp w backend = Inr (app, tmConfig)" and "serving tmConfig fs = (Inl (ReturnedErr m), fs1)"
  shows "ethermintCmd readFile unmarshal w0 os ge newBackend kenv passwords attach ethStop makeApp serving nodePool g ctx
    s inp fs = (Inl (CmdPanic NilDeref), fs1)"
  using assms by (simp add: ethermintCmd_def Let_def deferStop_started)

text \<open>C36. The command that runs a node never returns an error. It returns the errors of the Tendermint node it
  starts (a port in use, a bad genesis file, a broken key file), but the deferred \<open>Stop\<close> of the backend
  then dereferences a subscription that was never made: whatever goes wrong, the command exits the process
  with a message or panics, so \<open>main\<close> never gets to print its error.\<close>

theorem ethermintCmd_never_returns_error:
  "fst (ethermintCmd readFile unmarshal w0 os ge newBackend kenv passwords attach ethStop makeApp serving nodePool g ctx
    s inp fs) \<noteq> Inl (ReturnedErr m)"
proof -
  have start: "startNode os ge kenv passwords ctx stack s inp \<noteq> (Inl (ReturnedErr m), s1, inp1)" for stack s1 inp1
    using startNode_exits [of os ge kenv passwords ctx stack s inp m] by auto
  show ?thesis
    using MakeFullNode_exits [of os ge newBackend ctx m]
    by (auto simp: ethermintCmd_def Let_def deferStop_started start
        split: sum.splits prod.splits option.splits cmdError.splits)
qed

section \<open>The goroutines of the start\<close>

text \<open>The goroutine of \<open>startNode\<close> that serves hardware wallets. \<open>openErr\<close> is what \<open>Open\<close> of a wallet answers,
  \<open>scheme\<close> the scheme of its URL; the calls on wallets are recorded in order. The events are those
  received before the channel is closed.\<close>

datatype DerivationPath = DefaultBaseDerivationPath | LegacyLedgerBaseDerivationPath

datatype WalletEventType = WalletArrived | WalletOpened | WalletDropped

datatype 'w walletCall = OpenWallet 'w | SelfDerive 'w "DerivationPath list" | CloseWallet 'w

fun openAttached :: "('w \<Rightarrow> string option) \<Rightarrow> DerivationPath list \<Rightarrow> 'w list \<Rightarrow> 'w walletCall list" where
  "openAttached openErr paths [] = []"
| "openAttached openErr paths (wallet # ws) =
     (case openErr wallet of
        Some err \<Rightarrow> OpenWallet wallet # openAttached openErr paths ws
      | None \<Rightarrow> OpenWallet wallet # SelfDerive wallet paths # openAttached openErr paths ws)"

fun walletEvent ::
  "('w \<Rightarrow> string) \<Rightarrow> WalletEventType \<times> 'w \<Rightarrow> DerivationPath list \<times> 'w walletCall list \<Rightarrow>
     DerivationPath list \<times> 'w walletCall list" where
  "walletEvent scheme (WalletArrived, wallet) (paths, calls) = (paths, calls @ [OpenWallet wallet])"
| "walletEvent scheme (WalletOpened, wallet) (paths, calls) =
     (if scheme wallet = ''ledger'' then
        let paths' = paths @ [LegacyLedgerBaseDerivationPath] in (paths', calls @ [SelfDerive wallet paths'])
      else (paths, calls @ [SelfDerive wallet paths]))"
| "walletEvent scheme (WalletDropped, wallet) (paths, calls) = (paths, calls @ [CloseWallet wallet])"

definition serveWallets ::
  "('n \<Rightarrow> string option) \<Rightarrow> ('w \<Rightarrow> string option) \<Rightarrow> ('w \<Rightarrow> string) \<Rightarrow> 'n \<Rightarrow> 'w list \<Rightarrow> (WalletEventType \<times> 'w) list \<Rightarrow>
     cmdError + DerivationPath list \<times> 'w walletCall list" where
  "serveWallets attach openErr scheme stack wallets events =
     (case attach stack of
        Some err \<Rightarrow> Inl (Fatalf (''Failed to attach to self: '' @ err))
      | None \<Rightarrow>
          (let paths = [] @ [DefaultBaseDerivationPath] in
           Inr (fold (walletEvent scheme) events (paths, openAttached openErr paths wallets))))"

text \<open>The goroutine of \<open>StartNode\<close> that waits for interrupts, after the given number of them: whether the
  node was told to close, the numbers in the warnings, and whether the goroutine has ended.\<close>

fun moreInterrupts :: "nat \<Rightarrow> nat \<Rightarrow> nat list \<times> bool" where
  "moreInterrupts 0 k = ([], True)"
| "moreInterrupts (Suc i) 0 = ([], False)"
| "moreInterrupts (Suc i) (Suc k) =
     (let (ws, fin) = moreInterrupts i k in ((if Suc i > 1 then [i] else []) @ ws, fin))"

definition onInterrupts :: "nat \<Rightarrow> bool \<times> nat list \<times> bool" where
  "onInterrupts k = (case k of 0 \<Rightarrow> (False, [], False) | Suc n \<Rightarrow> (True, moreInterrupts 10 n))"

subsection \<open>Lemmas\<close>

definition opensLedger :: "('w \<Rightarrow> string) \<Rightarrow> WalletEventType \<times> 'w \<Rightarrow> bool" where
  "opensLedger scheme ev \<longleftrightarrow> fst ev = WalletOpened \<and> scheme (snd ev) = ''ledger''"

lemma walletEvent_paths:
  "fst (walletEvent scheme ev (paths, calls)) = paths @ (if opensLedger scheme ev then [LegacyLedgerBaseDerivationPath] else [])"
  by (cases ev; cases "fst ev") (auto simp: opensLedger_def Let_def)

lemma walletEvents_paths:
  "fst (fold (walletEvent scheme) events (paths, calls)) =
    paths @ replicate (length (filter (opensLedger scheme) events)) LegacyLedgerBaseDerivationPath"
proof (induction events arbitrary: paths calls)
  case (Cons ev events)
  obtain paths' calls' where "walletEvent scheme ev (paths, calls) = (paths', calls')" by fastforce
  with Cons walletEvent_paths [of scheme ev paths calls] show ?case by (simp add: replicate_app_Cons_same)
qed simp

text \<open>The legacy path of a ledger wallet is never taken back: every wallet that is opened afterwards, ledger
  or not, derives its accounts along the default path and once along the legacy path for every ledger
  wallet opened so far.\<close>

lemma serveWallets_paths_pile_up:
  assumes "attach stack = None" and "scheme wallet \<noteq> ''ledger''"
  shows "\<exists>calls. serveWallets attach openErr scheme stack wallets (events @ [(WalletOpened, wallet)]) =
    Inr (DefaultBaseDerivationPath # replicate (length (filter (opensLedger scheme) events)) LegacyLedgerBaseDerivationPath,
      calls @ [SelfDerive wallet (DefaultBaseDerivationPath #
        replicate (length (filter (opensLedger scheme) events)) LegacyLedgerBaseDerivationPath)])"
proof -
  let ?p = "[DefaultBaseDerivationPath]"
  obtain paths calls where f: "fold (walletEvent scheme) events (?p, openAttached openErr ?p wallets) = (paths, calls)"
    by fastforce
  from walletEvents_paths [of scheme events ?p] have
    "paths = DefaultBaseDerivationPath # replicate (length (filter (opensLedger scheme) events)) LegacyLedgerBaseDerivationPath"
    by (simp add: f [THEN arg_cong, of fst, simplified, symmetric])
  with f assms show ?thesis by (auto simp: serveWallets_def Let_def)
qed

text \<open>Ten more interrupts end the goroutine; the warnings count down from nine to one, and the panic they
  announce does not come.\<close>

lemma onInterrupts_warnings:
  "onInterrupts 11 = (True, [9, 8, 7, 6, 5, 4, 3, 2, 1], True) \<and> onInterrupts 10 = (True, [9, 8, 7, 6, 5, 4, 3, 2, 1], False)"
  by (simp add: onInterrupts_def numeral_nat)

lemma onInterrupts_ends: "11 \<le> k \<Longrightarrow> onInterrupts k = onInterrupts 11"
proof -
  have "moreInterrupts i k = moreInterrupts i i" if "i \<le> k" for i k
    using that by (induction i k rule: moreInterrupts.induct) auto
  then show "11 \<le> k \<Longrightarrow> onInterrupts k = onInterrupts 11"
    by (cases k) (auto simp: onInterrupts_def numeral_nat)
qed

section \<open>The application's wrappers\<close>

text \<open>The methods of \<open>src/app/utils.go\<close> around a strategy that may be nil.\<close>

definition app_Receiver :: "'x env \<Rightarrow> 'x txfilterVars \<Rightarrow> 'x Strategy option \<Rightarrow> panic + address" where
  "app_Receiver e gv strategy = (case strategy of Some st \<Rightarrow> Receiver e gv st | None \<Rightarrow> Inr 0)"

text \<open>On the other branch the version is read from the nil pointer.\<close>

definition app_GetUpdatedValidators ::
  "'x env \<Rightarrow> versionVars \<Rightarrow> ((string \<rightharpoonup> Validator) \<Rightarrow> string list) \<Rightarrow> ((string \<rightharpoonup> bool) \<Rightarrow> string list) \<Rightarrow>
     int \<Rightarrow> bytes option \<Rightarrow> 'x Strategy option \<times> 'x txfilterVars \<Rightarrow>
     (panic + ('x Strategy option \<times> 'x txfilterVars) \<times> ResponseEndBlock) option" where
  "app_GetUpdatedValidators e w ordV ordA height seed sgv =
     (case fst sgv of
        Some st \<Rightarrow>
          map_option (\<lambda>r. panic_bind r (\<lambda>((st', gv'), resp). Inr ((Some st', gv'), resp)))
            (GetUpdatedValidators e w ordV ordA height seed (st, snd sgv))
      | None \<Rightarrow>
          Some (panic_bind (deref (fst sgv)) (\<lambda>st.
            Inr (sgv, \<lparr>ValidatorUpdates = [], BlsKeyStrings = [], Events = [], AppVersion = BlockVersion (s_HF st)\<rparr>))))"

definition strategy_Signer :: "'x Strategy \<Rightarrow> Signer option" where
  "strategy_Signer st = s_signer st"

definition GetStrategy :: "('c, 'b, 's, 'l, 'x) EthermintApplication \<Rightarrow> 'x Strategy" where
  "GetStrategy app = a_strategy app"

text \<open>Without a strategy the coinbase is the zero address, but asking for validators panics.\<close>

lemma app_wrappers_nil:
  "app_Receiver e gv None = Inr 0" "app_GetUpdatedValidators e w ordV ordA height seed (None, gv) = Some (Inl NilDeref)"
  by (simp_all add: app_Receiver_def app_GetUpdatedValidators_def)

section \<open>The program\<close>

text \<open>\<open>NewApp\<close>, what \<open>init\<close> sets in it, and \<open>main\<close>. The command line library is an argument: \<open>run\<close> reads the
  arguments and runs the action they choose, \<open>base\<close> is \<open>filepath.Base\<close> and \<open>withCommit\<close> go-ethereum's
  version string.\<close>

record cliApp =
  app_Name :: string
  app_Author :: string
  app_Email :: string
  app_Version :: string
  app_Usage :: string
  app_HideVersion :: bool
  app_Action :: "command option"
  app_Commands :: "(string \<times> command) list"
  app_Flags :: "cliFlag list"
  app_Before :: "(cliContext \<Rightarrow> glogHandler \<Rightarrow> glogHandler) option"

definition NewApp :: "(string \<Rightarrow> string) \<Rightarrow> (string \<Rightarrow> string \<Rightarrow> string) \<Rightarrow> string \<Rightarrow> string \<Rightarrow> string \<Rightarrow> string \<Rightarrow> cliApp" where
  "NewApp base withCommit arg0 gitCommit gitDate usage =
     \<lparr>app_Name = base arg0, app_Author = [], app_Email = [], app_Version = withCommit gitCommit gitDate, app_Usage = usage,
      app_HideVersion = False, app_Action = None, app_Commands = [], app_Flags = [], app_Before = None\<rparr>"

text \<open>The hook before every command never fails: \<open>Setup\<close> returns nil.\<close>

definition before :: "cliContext \<Rightarrow> glogHandler \<Rightarrow> glogHandler" where
  "before ctx g = Setup ctx g"

definition main_init :: "cliApp \<Rightarrow> cliApp" where
  "main_init app =
     app\<lparr>app_Action := Some appAction, app_HideVersion := True, app_Commands := appCommands,
         app_Flags := appFlags (app_Flags app), app_Before := Some before\<rparr>"

text \<open>The exit code and what is written to the standard error.\<close>

definition main_main :: "(cliApp \<Rightarrow> string list \<Rightarrow> string option) \<Rightarrow> cliApp \<Rightarrow> string list \<Rightarrow> int \<times> string list" where
  "main_main run app args = (case run app args of Some err \<Rightarrow> (1, [err]) | None \<Rightarrow> (0, []))"

text \<open>No command is shadowed by another, and no flag of the program by another.\<close>

lemma main_init_unambiguous:
  "distinct (map fst (app_Commands (main_init (NewApp base withCommit arg0 c d u)))) \<and>
   distinct (map ownName (filter isOwn (app_Flags (main_init (NewApp base withCommit arg0 c d u)))))"
  by (simp add: main_init_def NewApp_def appCommands_distinct own_names_distinct)

end
