(* ===== verification/OldStrategies.thy ===== *)
theory OldStrategies
  imports External
begin

text \<open>
  The strategy packages the program no longer uses: \<open>src/strategies/validators/tx_based.go\<close> and
  \<open>src/strategies/miner/reward_constant.go\<close>. The comparison in \<open>CollectTx\<close> is \<open>reflect.DeepEqual\<close>, whose
  arguments have dynamic types: the two that occur are a pointer to an address and an address.
\<close>

section \<open>Deep equality\<close>

datatype goValue = AddressPtr "address option" | AddressVal address

fun DeepEqual :: "goValue \<Rightarrow> goValue \<Rightarrow> bool" where
  "DeepEqual (AddressPtr p) (AddressPtr q) = (p = q)"
| "DeepEqual (AddressVal a) (AddressVal b) = (a = b)"
| "DeepEqual x y = False"

section \<open>The strategies\<close>

record tbValidator =
  v_PubKeyData :: bytes
  v_Power :: int

record TxBasedValidatorsStrategy =
  tb_currentValidators :: "tbValidator list"

definition TxBased_SetValidators ::
  "tbValidator list \<Rightarrow> TxBasedValidatorsStrategy \<Rightarrow> TxBasedValidatorsStrategy" where
  "TxBased_SetValidators validators st = st\<lparr>tb_currentValidators := validators\<rparr>"

definition TxBased_CollectTx ::
  "'x env \<Rightarrow> Transaction \<Rightarrow> TxBasedValidatorsStrategy \<Rightarrow> TxBasedValidatorsStrategy" where
  "TxBased_CollectTx e tx st =
     (if DeepEqual (AddressPtr (tx_To tx))
           (AddressVal (HexToAddress e ''0000000000000000000000000000000000000001''))
      then st\<lparr>tb_currentValidators := tb_currentValidators st @
             [\<lparr>v_PubKeyData = tx_Data tx, v_Power = big_Int64 (tx_Value tx)\<rparr>]\<rparr>
      else st)"

definition TxBased_GetUpdatedValidators :: "TxBasedValidatorsStrategy \<Rightarrow> tbValidator list" where
  "TxBased_GetUpdatedValidators st = tb_currentValidators st"

definition RewardConstant_Receiver :: "'x env \<Rightarrow> address" where
  "RewardConstant_Receiver e = HexToAddress e ''7ef5a6135f1fd6a02593eedc869c6d41d934aef8''"

section \<open>Properties\<close>

text \<open>A pointer never equals an address, so no transaction ever adds a validator, not even one that is
  sent to the address meant for it: the validators stay those that were set.\<close>

lemma TxBased_CollectTx_never: "TxBased_CollectTx e tx st = st"
  by (simp add: TxBased_CollectTx_def)

lemma TxBased_collects_nothing:
  "TxBased_GetUpdatedValidators (fold (TxBased_CollectTx e) txs (TxBased_SetValidators vs st)) = vs"
proof -
  have "fold (TxBased_CollectTx e) txs x = x" for x
    by (induction txs) (simp_all add: TxBased_CollectTx_never)
  then show ?thesis by (simp add: TxBased_GetUpdatedValidators_def TxBased_SetValidators_def)
qed

end
