(* ===== verification/Spec2Isabelle.thy ===== *)
theory Spec2Isabelle
  imports NodeRestart Replicas AppQuery HttpServer EthAccountTool Services OldStrategies
begin

text \<open>
  A verification library for the DTFN node, a Go program that runs the Ethereum virtual machine as an
  application of the Tendermint consensus engine, with a validator set that is drawn from a
  proof-of-stake table.

  \<^bold>\<open>The program and its parts.\<close> Tendermint calls the application (\<open>src/app/app.go\<close>) through ABCI:
  \<open>InitChain\<close> once, \<open>CheckTx\<close> for every transaction that reaches the memory pool, and for every block
  \<open>BeginBlock\<close>, \<open>DeliverTx\<close> per transaction, \<open>EndBlock\<close>, \<open>Commit\<close>. The application keeps a strategy
  (\<open>src/types/strategy.go\<close>: who is a validator, now and in the next epoch), a backend
  (\<open>src/ethereum/\<close>: the chain, the working state of the block under construction and a cache of
  transaction infos), a second account state for checks, and a punishment (\<open>src/app/punishment.go\<close>).
  At \<open>EndBlock\<close> the strategy answers with changes of the validator set, and part of it is stored in the
  account state itself (\<open>src/app/utils.go\<close>), from which a restart recovers it. The heights at which
  the rules change come from \<open>src/version/\<close>. An HTTP server (\<open>src/httpserver/\<close>) and \<open>Query\<close> show the
  state. The commands (\<open>src/cmd/\<close>) make the files of a network and start a node.

  \<^bold>\<open>The theories\<close>, in the order of their imports.
  \<^item> \<open>Prelude\<close>, \<open>GoStd\<close>, \<open>GoFiles\<close>: machine integers, panics, map iteration orders; the parts of Go's
    standard library the code computes with. \<open>External\<close>: the data and the operations of third-party
    packages, as records of functions.
  \<^item> \<open>Version\<close> (\<open>src/version/\<close>): fork schedule. Parsing a printed schedule gives it back; the version
    of a height is that of the last fork reached. Locale \<open>fork_schedule\<close>.
  \<^item> \<open>Codes\<close>, \<open>AccountMap\<close> (\<open>src/types/\<close>): result codes; the genesis account map, saved and loaded,
    and files with their modes.
  \<^item> \<open>Strategy\<close>, \<open>StrategySelect\<close>, \<open>StrategySync\<close> (\<open>src/types/strategy.go\<close>): the state and every
    operation; what each block version selects, when the selection ends; that the answers applied to
    Tendermint's set give the recorded set. The locale \<open>validator_source\<close> states that contract and
    derives it along a chain of blocks; it is interpreted for the selection, the epoch change, the
    whole of \<open>GetUpdatedValidators\<close>, and \<open>EndBlock\<close>.
  \<^item> \<open>Punishment\<close>: slashing, with the locale \<open>balance_taker\<close> for the ways to take a balance.
  \<^item> \<open>EthState\<close>, \<open>Backend\<close> (\<open>src/ethereum/\<close>): delivery, rewards, commit; the forwarding of transactions
    and the cache of transaction infos, with the locale \<open>tx_info_cache\<close>.
  \<^item> \<open>AppTx\<close>, \<open>AppTxProps\<close>: \<open>CheckTx\<close>, \<open>validateTx\<close>, \<open>DeliverTx\<close>. What an accepted check means, that a
    rejected one changes nothing, replay protection and consecutive nonces, the memory pool invariant
    under which a recheck never panics, and what the cache of infos changes: nothing but the sender that
    \<open>SetFrom\<close> stores in a relayed transaction (\<open>tx_from\<close>).
  \<^item> \<open>AppBlock\<close>, \<open>AppBlockProps\<close>: the block handlers and persistence. The validators stay in step with
    Tendermint (by their addresses), a new epoch takes over the next table, a commit produces the next block, a restart
    recovers what was persisted.
  \<^item> \<open>AppQuery\<close>, \<open>HttpServer\<close>: the white list and the read-only views, and when these panic.
  \<^item> \<open>Startup\<close> (\<open>src/cmd/dtfn/dtfn.go\<close>): the application at the start, from genesis or from persisted
    data, with the flags applied.
  \<^item> \<open>NodeRuns\<close> and this theory: the inductive relation \<open>node_run\<close> of whole admissible blocks (\<open>block_ok\<close>)
    interleaved with checks and rounds of the forwarding loop, the abstract machine of what Tendermint knows
    of the application, and the simulation between them, from the first start on.
  \<^item> \<open>NodeSound\<close>, \<open>NodeProgress\<close>: well-formed application states (\<open>node_ok\<close>) and why every handler keeps
    them and returns, under laws of the packages it calls (\<open>progress_laws\<close>: the database does not fail, the
    draws reach every member of a table). Hence every list of checks, rounds of the loop and blocks that
    fits (\<open>fitting\<close>) is worked off, and a node started from genesis lives. A local check fits only once the
    loop has stored a transaction: the backend starts with a nil one (\<open>zeroTxInfo\<close>).
  \<^item> \<open>NodeRestart\<close>: what of the application is durable, and the lives (\<open>node_life\<close>) in which the process may
    die at any moment and is started again on its database. The database may have lost recent states
    (go-ethereum writes them after \<open>trie_time_limit\<close>) and reopens at some earlier commit of the life
    (\<open>reopens\<close>), from which Tendermint gives the blocks again. The node still agrees with Tendermint, and at
    every commit it can be started again, with the validators and the table of the epoch back. What a restart
    makes of the next epoch's table is in \<open>persist_restart\<close>.
  \<^item> \<open>Replicas\<close>: two nodes that are given the same blocks, with memory pools of their own and different
    map iteration orders. The cache shows in a delivery at most in a stored sender, the orders at the end of a
    block in the order of the answer; hence the nodes stay equal in all that Tendermint compares.
  \<^item> \<open>Forwarding\<close> (\<open>src/ethereum/txs.go\<close>): the loop that takes local transactions from a channel, as a step
    relation in which the handlers run between any two of its steps. Nothing is lost or repeated, and
    every transaction is checked with its own sender.
  \<^item> \<open>CliFlags\<close>, \<open>CmdConfig\<close> (\<open>src/cmd/utils/\<close>, \<open>src/cmd/dtfn/main.go\<close>, \<open>src/ethereum/node.go\<close>): the
    flags, the data directory, the configurations of both nodes. \<open>Logging\<close>: the logger, with the arrays
    its slices share.
  \<^item> \<open>InitCmd\<close>, \<open>Testnet\<close>, \<open>EthAccountTool\<close>: the commands that make the files of a node, of a test
    network, and of the initial accounts; when they succeed and what they leave on disk, and that the
    accounts file is one the start accepts, if the user of the node may read it.
  \<^item> \<open>Keystore\<close>, \<open>Command\<close>: unlocking of accounts, and the parts of \<open>ethermintCmd\<close>. \<open>Services\<close>: the object
    \<open>EthState\<close> behind the working state and its refinement, the life of the backend as a service, the
    whole of \<open>ethermintCmd\<close> with its deferred call, the goroutines for wallets and interrupts, and \<open>main\<close>.
  \<^item> \<open>OldStrategies\<close>: the two packages under \<open>src/strategies/\<close>.
  \<^item> \<open>Samples\<close>: small instances of the third-party records, on which witnesses evaluate.

  \<^bold>\<open>How code is modelled.\<close> A struct is a record, a handler is a function from the state to the state and
  the answer, \<open>Inl\<close> is a panic or an error. Signed 64-bit arithmetic is wrapped by \<open>i64\<close>, unsigned values
  are words, \<open>big.Int\<close> is \<open>int\<close>. Nil pointers are \<open>None\<close> and following one is the panic \<open>NilDeref\<close>. A
  \<open>range\<close> over a map takes its order as an argument. Where two pointers share a table the model stores
  the changed table in both places.

  \<^bold>\<open>Third-party code\<close> (go-ethereum, its package txfilter, Tendermint, the \<open>cli\<close> package, JSON codecs,
  the file system, the key store) is never defined. It is a record of functions: \<open>env\<close>, \<open>txenv\<close>,
  \<open>statedb\<close>, \<open>ethenv\<close>, \<open>persist\<close>, \<open>queryenv\<close>, \<open>httpenv\<close>, \<open>nodeenv\<close>, \<open>cliContext\<close>, \<open>osenv\<close>, \<open>gethenv\<close>,
  \<open>filesenv\<close>, \<open>testnetenv\<close>, \<open>ksenv\<close>. Properties that need more of it have a named hypothesis
  (\<open>statedb_laws\<close>, \<open>postable_ok\<close>, \<open>jsonFile_laws\<close>, \<open>node_laws\<close>, \<open>table_laws\<close>, \<open>progress_laws\<close>,
  \<open>genesis_laws\<close>, \<open>restart_laws\<close>, \<open>healthyFiles\<close>, \<open>testnet_laws\<close>, \<open>hex_laws\<close>,
  \<open>relay_disjoint\<close>, \<open>hash_identifies\<close>, \<open>sender_unseen\<close>), with an instance that meets it in a
  witness.

  \<^bold>\<open>Loops.\<close> There is no fuel. Two loops need not end and are partial functions into \<open>option\<close>: the
  selection of distinct validators (\<open>selectDistinct\<close>), shown to return when there are enough of them
  and not to when there are too few, and \<open>waitForServer\<close>, which returns if a call is ever answered. The
  trials of \<open>unlockAccount\<close> count down from three, the groups of an IPv6 address from eight.

  \<^bold>\<open>Concurrency.\<close> A handler runs to its end before the next one starts, as Tendermint calls them. The
  goroutines the program starts itself are modelled where they share state with the handlers (the
  forwarding loop) or keep state of their own (wallets, interrupts).

  \<^bold>\<open>Not modelled.\<close> Mutexes; what is printed and logged (the loggers themselves are); the HTTP listener, the
  ABCI server and the Tendermint node behind their constructors, and their signal handlers; assignments
  txfilter's own constructors may make to its package variables; the application's logger field and
  \<open>SetOption\<close>, which only logs; the unused helpers that run the tendermint binary; the test doubles
  \<open>src/app/mock_app.go\<close> and \<open>src/app/mock_log/\<close>. The text of an error is modelled up to the text of the
  third-party error inside it.
\<close>

section \<open>From genesis to any block\<close>

text \<open>C1. The life of a node, end to end. Start it for the first time, without rollback, on consistent
  genesis files whose accounts cover the validators; let Tendermint make its handshake and call
  \<open>InitChain\<close> with its genesis validators, which the table accepts; then run any interleaving of
  transaction checks, rounds of the forwarding loop and admissible blocks. Admissible (\<open>block_ok\<close>,
  see C3): begin and deliveries do not panic; at the end of an epoch no table is nil and the next one is well
  formed; otherwise the draws from the table in force reach as many validators as have to be selected. At every
  moment the number and hash of the chain's head and the header being built are what Tendermint has on record,
  and the recorded validators have exactly the addresses of Tendermint's set: the genesis set with the answers
  of all blocks applied in order. Their recorded powers may differ from those reported, as the code is written.
  Assumed: go-ethereum's chain behaves as documented (\<open>node_laws\<close>).\<close>

theorem node_from_genesis:
  assumes "node_laws N" and "range_order ordG" and "fresh_start (ne_env N) (ne_en N) (ne_ps N) b"
    and "genesis_ok gf alloc ea vs" and "big_Int64 (\<Sum>a \<in> dom alloc. the (alloc a)) \<noteq> 0"
    and "length vs \<le> length (ea_EthAccounts ea)" and "announced (ne_env N) vs us" and "\<not> fl_RollbackFlag fl"
    and "startApp (ne_env N) (ne_en N) (ne_ps N) (ne_w N) setHead ordG gf fl chainId b gv = Inr app0"
    and "Info (ne_w N) (ne_en N) app0 = Inr (app1, resp)" and "genesis_accepted (ne_env N) (ne_db N) us app1"
    and "InitChain (ne_env N) (ne_db N) (ne_ps N) us app1 = Inr app2" and "node_run N app2 tr app"
  shows "refines N app (fold (tmBlock (ne_env N)) tr
    \<lparr>tm_Height = b_Number (ne_en N) (CurrentBlock (ne_en N) (be_chain b)),
     tm_AppHash = b_Hash (ne_en N) (CurrentBlock (ne_en N) (be_chain b)),
     tm_Validators = genesisSet (ne_env N) us\<rparr>)"
  by (rule node_run_refines [OF assms(13,1) genesis_refines [OF assms(2-12)]])

theorem node_from_genesis_witness:
  "\<exists>app1 app2 us h. runBlock liveNodeEnv liveBlock app1 = Some (Inr (app2, us, Some h)) \<and>
    refines liveNodeEnv app2 (tmBlock liveEnv (us, h)
      \<lparr>tm_Height = 0, tm_AppHash = 0, tm_Validators = genesisSet liveEnv sampleGenesis\<rparr>)"
proof -
  obtain app0 app1 resp app2 where s: "startApp liveEnv (sampleStoreEth :: (Header list, Header, store, unit, unit world) ethenv)
      samplePersist sampleVersion (\<lambda>h c. c) sortedKeys sampleFiles liveFlags 15 sampleBlank liveVars = Inr app0"
    and i: "Info sampleVersion (sampleStoreEth :: (Header list, Header, store, unit, unit world) ethenv) app0 = Inr (app1, resp)"
    and acc: "genesis_accepted liveEnv sampleStoreDb sampleGenesis app1"
    and c: "InitChain liveEnv sampleStoreDb samplePersist sampleGenesis app1 = Inr app2"
    and ok: "node_ok liveTable liveNodeEnv app2" and f: "fitting liveNodeEnv [BlockEvent liveBlock] app2"
    by (rule live_genesis)
  have fits: "block_fits liveNodeEnv liveBlock app2" using f by (auto split: option.splits sum.splits)
  obtain app3 us h where r: "runBlock liveNodeEnv liveBlock app2 = Some (Inr (app3, us, Some h))"
    and b: "block_ok liveNodeEnv liveBlock app2"
    by (rule runBlock_progress [OF live_progress_laws ok fits])
  have run: "node_run liveNodeEnv app2 ([] @ [(us, h)]) app3"
    by (rule node_run.run_block [OF node_run.run_start b r])
  have l: "node_laws liveNodeEnv" using live_progress_laws by (simp add: progress_laws_def)
  have o: "length sampleGenDoc \<le> length (ea_EthAccounts sampleAccounts)" "\<not> fl_RollbackFlag liveFlags"
    by (simp_all add: sampleGenDoc_def sampleAccounts_def liveFlags_def sampleFlags_def)
  from node_from_genesis [OF l range_order_sortedKeys, unfolded live_fields, OF live_fresh sample_genesis_ok
      sample_total_ok o(1) live_announced o(2) s i acc c run] r
  show ?thesis by (auto simp: sampleStoreEth_def sampleBlank_def sampleHeader_def)
qed



section \<open>Crashes after genesis\<close>

text \<open>\<open>InitChain\<close> leaves the tables where a restart looks for them, so that the lives of theory \<open>NodeRestart\<close>
  can start at genesis: whatever happens, the chain and the addresses of the validators are those of
  Tendermint's record, and every commit the database can reopen at holds what a restart needs.\<close>

lemma genesis_life:
  assumes L: "restart_laws N" and "range_order ordG" and "fresh_start (ne_env N) (ne_en N) (ne_ps N) b"
    and "genesis_ok gf alloc ea vs" and "big_Int64 (\<Sum>a \<in> dom alloc. the (alloc a)) \<noteq> 0"
    and "length vs \<le> length (ea_EthAccounts ea)" and "announced (ne_env N) vs us" and "\<not> fl_RollbackFlag fl"
    and s: "startApp (ne_env N) (ne_en N) (ne_ps N) (ne_w N) setHead ordG gf fl chainId b gv = Inr app0"
    and i: "Info (ne_w N) (ne_en N) app0 = Inr (app1, resp)" and "genesis_accepted (ne_env N) (ne_db N) us app1"
    and c: "InitChain (ne_env N) (ne_db N) (ne_ps N) us app1 = Inr app2" and j: "json_ok N strip app2"
    and life: "node_life N strip app2 tr pts app"
  shows "life_inv N strip
    \<lparr>tm_Height = b_Number (ne_en N) (CurrentBlock (ne_en N) (be_chain b)),
     tm_AppHash = b_Hash (ne_en N) (CurrentBlock (ne_en N) (be_chain b)),
     tm_Validators = genesisSet (ne_env N) us\<rparr> tr pts app"
proof -
  obtain m where "a_strategy app0 = freshStrategy (ne_env N) fl chainId (\<Sum>a \<in> dom alloc. the (alloc a)) m"
    using startApp_fresh [where w = "ne_w N" and setHead = setHead and fl = fl and chainId = chainId and gv = gv,
        OF assms(2-4) refl assms(5)] s by auto
  moreover have "s_CurrentHeight (a_strategy app1) = s_CurrentHeight (a_strategy app0)"
    using i by (auto simp: Info_def Let_def mapStrategy_def)
  ultimately have "chv_Height (s_CurrentHeight (a_strategy app1)) = 0" by (simp add: freshStrategy_def NewStrategy_def)
  then have "staged N strip app2" by (rule InitChain_staged [OF restart_lawsD(2,3) [OF L] c _ j])
  with node_life_inv [OF life L genesis_refines [OF assms(2-12)]] show ?thesis .
qed

end
